theory Spec2Isabelle
  imports Main
begin

section \<open>Go standard-library helpers used by the installer\<close>

text \<open>
  Strings are byte lists. The helpers below follow the Go functions of the same name
  that the repository calls (\<^verbatim>\<open>strings.HasPrefix\<close>, \<^verbatim>\<open>strings.HasSuffix\<close>,
  \<^verbatim>\<open>strings.TrimPrefix\<close>, \<^verbatim>\<open>strings.TrimSpace\<close>, \<^verbatim>\<open>strings.ReplaceAll\<close>,
  \<^verbatim>\<open>filepath.Base\<close>, \<^verbatim>\<open>filepath.Clean\<close>, \<^verbatim>\<open>filepath.Join\<close>).
\<close>

definition hasPrefix :: "string \<Rightarrow> string \<Rightarrow> bool" where
  "hasPrefix s pre = (length pre \<le> length s \<and> take (length pre) s = pre)"

definition hasSuffix :: "string \<Rightarrow> string \<Rightarrow> bool" where
  "hasSuffix s suf = (length suf \<le> length s \<and> drop (length s - length suf) s = suf)"

definition trimPrefix :: "string \<Rightarrow> string \<Rightarrow> string" where
  "trimPrefix s pre = (if hasPrefix s pre then drop (length pre) s else s)"

text \<open>The last three characters, by which the archive suffixes are told apart.\<close>

definition tail3 :: "string \<Rightarrow> string" where
  "tail3 s = drop (length s - 3) s"

subsection \<open>\<^verbatim>\<open>strings.TrimSpace\<close>\<close>

text \<open>
  A Go string is a byte sequence read as UTF-8. \<^verbatim>\<open>utf8.DecodeRuneInString\<close> returns
  the first code point and its width in bytes: a byte below \<open>0x80\<close> is itself; a lead
  byte \<open>0xC2\<close> to \<open>0xF4\<close> announces two to four bytes, whose second byte must lie in the
  range the lead byte accepts and whose later bytes in \<open>0x80\<close> to \<open>0xBF\<close>; anything else
  is \<open>RuneError\<close> (\<open>U+FFFD\<close>) of width 1. The masks \<open>& 0x1F\<close>, \<open>& 0x0F\<close>, \<open>& 0x07\<close> and
  \<open>& 0x3F\<close> are written as remainders and the shifts as products.
\<close>

definition RuneError :: nat where
  "RuneError = 65533"

definition RuneSelf :: nat where
  "RuneSelf = 128"

definition UTFMax :: nat where
  "UTFMax = 4"

definition byte :: "char \<Rightarrow> nat" where
  "byte c = of_char c"

definition decodeRune :: "string \<Rightarrow> nat \<times> nat" where
  "decodeRune s =
     (if s = [] then (RuneError, 0)
      else
        let s0 = byte (s ! 0) in
        if s0 < RuneSelf then (s0, 1)
        else if s0 < 194 \<or> 244 < s0 then (RuneError, 1)
        else
          let sz = (if s0 < 224 then 2 else if s0 < 240 then 3 else 4 :: nat);
              lo = (if s0 = 224 then 160 else if s0 = 240 then 144 else 128 :: nat);
              hi = (if s0 = 237 then 159 else if s0 = 244 then 143 else 191 :: nat)
          in
          if length s < sz then (RuneError, 1)
          else
            let s1 = byte (s ! 1) in
            if s1 < lo \<or> hi < s1 then (RuneError, 1)
            else if sz \<le> 2 then ((s0 mod 32) * 64 + s1 mod 64, 2)
            else
              let s2 = byte (s ! 2) in
              if s2 < 128 \<or> 191 < s2 then (RuneError, 1)
              else if sz \<le> 3 then ((s0 mod 16) * 4096 + (s1 mod 64) * 64 + s2 mod 64, 3)
              else
                let s3 = byte (s ! 3) in
                if s3 < 128 \<or> 191 < s3 then (RuneError, 1)
                else ((s0 mod 8) * 262144 + (s1 mod 64) * 4096 + (s2 mod 64) * 64
                        + s3 mod 64, 4))"

text \<open>
  \<^verbatim>\<open>utf8.DecodeLastRuneInString\<close>: the last code point and its width. From the last
  byte the scan goes back to the nearest byte that can start a code point, at most
  \<open>UTFMax\<close> bytes from the end, and decodes forward from there; the result counts only
  when it ends exactly at the end of the string.
\<close>

definition RuneStart :: "char \<Rightarrow> bool" where
  "RuneStart b = (byte b < 128 \<or> 192 \<le> byte b)"

function lastStart :: "string \<Rightarrow> int \<Rightarrow> int \<Rightarrow> int" where
  "lastStart s lim start =
     (if lim \<le> start
      then (if RuneStart (s ! nat start) then start else lastStart s lim (start - 1))
      else start)"
  by pat_completeness auto

termination
  by (relation "measure (\<lambda>(s, lim, start). nat (start + 1 - lim))") auto

declare lastStart.simps [simp del]

definition decodeLastRune :: "string \<Rightarrow> nat \<times> nat" where
  "decodeLastRune s =
     (let n = int (length s) in
      if n = 0 then (RuneError, 0)
      else
        let r = byte (s ! nat (n - 1)) in
        if r < RuneSelf then (r, 1)
        else
          let lim = max 0 (n - int UTFMax);
              start0 = lastStart s lim (n - 2);
              start = (if start0 < 0 then 0 else start0);
              d = decodeRune (drop (nat start) s)
          in if start + int (snd d) \<noteq> n then (RuneError, 1) else d)"

text \<open>
  \<^verbatim>\<open>unicode.IsSpace\<close>: in Latin-1 the characters tab, line feed, vertical tab, form
  feed, carriage return, space, \<open>U+0085\<close> and \<open>U+00A0\<close>; beyond, \<open>U+1680\<close>, \<open>U+2000\<close> to
  \<open>U+200A\<close>, \<open>U+2028\<close>, \<open>U+2029\<close>, \<open>U+202F\<close>, \<open>U+205F\<close> and \<open>U+3000\<close>.
\<close>

definition isSpace :: "nat \<Rightarrow> bool" where
  "isSpace r =
     (if r \<le> 255
      then r = 9 \<or> r = 10 \<or> r = 11 \<or> r = 12 \<or> r = 13 \<or> r = 32 \<or> r = 133 \<or> r = 160
      else r = 5760 \<or> (8192 \<le> r \<and> r \<le> 8202) \<or> r = 8232 \<or> r = 8233 \<or> r = 8239
           \<or> r = 8287 \<or> r = 12288)"

text \<open>
  \<^verbatim>\<open>strings.TrimLeftFunc\<close> and \<^verbatim>\<open>strings.TrimRightFunc\<close> with \<^verbatim>\<open>unicode.IsSpace\<close>:
  \<open>indexNotSpace\<close> is the index of the first code point that is not white space, going
  forward, and \<open>lastIndexNotSpace\<close> that of the last one, going backward; both are \<open>-1\<close>
  when there is none.
\<close>

function indexNotSpace :: "string \<Rightarrow> nat \<Rightarrow> int" where
  "indexNotSpace s i =
     (if length s \<le> i then - 1
      else if \<not> isSpace (fst (decodeRune (drop i s))) then int i
      else indexNotSpace s (i + snd (decodeRune (drop i s))))"
  by pat_completeness auto

termination
proof (relation "measure (\<lambda>(s, i). length s - i)")
  show "wf (measure (\<lambda>(s, i). length s - i))" by simp
next
  fix s :: string and i :: nat
  assume "\<not> length s \<le> i"
  then have "drop i s \<noteq> []" by simp
  then have "0 < snd (decodeRune (drop i s))" by (simp add: decodeRune_def Let_def)
  then show "((s, i + snd (decodeRune (drop i s))), (s, i)) \<in> measure (\<lambda>(s, i). length s - i)"
    using \<open>\<not> length s \<le> i\<close> by simp
qed

declare indexNotSpace.simps [simp del]

function lastIndexNotSpace :: "string \<Rightarrow> nat \<Rightarrow> int" where
  "lastIndexNotSpace s i =
     (if i = 0 then - 1
      else if \<not> isSpace (fst (decodeLastRune (take i s)))
        then int i - int (snd (decodeLastRune (take i s)))
      else lastIndexNotSpace s (i - snd (decodeLastRune (take i s))))"
  by pat_completeness auto

termination
proof (relation "measure (\<lambda>(s, i). i)")
  show "wf (measure (\<lambda>(s :: string, i). i))" by simp
next
  fix s :: string and i :: nat
  assume i: "i \<noteq> 0" and sp: "\<not> \<not> isSpace (fst (decodeLastRune (take i s)))"
  define u where "u = take i s"
  have ne: "u \<noteq> []"
  proof
    assume e: "u = []"
    show False using sp unfolding u_def [symmetric] e
      by (simp add: decodeLastRune_def isSpace_def RuneError_def)
  qed
  have le: "lastStart t lim start \<le> start" for t lim start
  proof (induction t lim start rule: lastStart.induct)
    case (1 t lim start)
    then show ?case by (subst lastStart.simps) auto
  qed
  define start0 where
    "start0 = lastStart u (max 0 (int (length u) - int UTFMax)) (int (length u) - 2)"
  define start where "start = (if start0 < 0 then 0 else start0)"
  have "start0 \<le> int (length u) - 2" unfolding start0_def by (rule le)
  then have "nat start < length u" using ne by (auto simp: start_def)
  then have "drop (nat start) u \<noteq> []" by simp
  then have "0 < snd (decodeRune (drop (nat start) u))" by (simp add: decodeRune_def Let_def)
  then have "0 < snd (decodeLastRune u)"
    using ne unfolding decodeLastRune_def Let_def start0_def [symmetric] start_def [symmetric]
    by simp
  then show "((s, i - snd (decodeLastRune (take i s))), (s, i)) \<in> measure (\<lambda>(s, i). i)"
    using i by (simp add: u_def)
qed

declare lastIndexNotSpace.simps [simp del]

definition trimLeftFunc :: "string \<Rightarrow> string" where
  "trimLeftFunc s = (let i = indexNotSpace s 0 in if i = - 1 then [] else drop (nat i) s)"

definition trimRightFunc :: "string \<Rightarrow> string" where
  "trimRightFunc s =
     (let i = lastIndexNotSpace s (length s) in
      if 0 \<le> i \<and> RuneSelf \<le> byte (s ! nat i)
      then take (nat i + snd (decodeRune (drop (nat i) s))) s
      else take (nat (i + 1)) s)"

definition trimFunc :: "string \<Rightarrow> string" where
  "trimFunc s = trimRightFunc (trimLeftFunc s)"

text \<open>
  \<^verbatim>\<open>strings.TrimSpace\<close> skips leading and then trailing ASCII white space byte by
  byte, and hands over to the functions above at the first byte that is not ASCII.
\<close>

definition asciiSpace :: "char \<Rightarrow> bool" where
  "asciiSpace c = (c = CHR 0x09 \<or> c = CHR 0x0A \<or> c = CHR 0x0B \<or> c = CHR 0x0C
                   \<or> c = CHR 0x0D \<or> c = CHR '' '')"

datatype scan = NonASCII nat | Stopped nat

fun scanStart :: "string \<Rightarrow> nat \<Rightarrow> scan" where
  "scanStart [] start = Stopped start"
| "scanStart (c # cs) start =
     (if RuneSelf \<le> byte c then NonASCII start
      else if asciiSpace c then scanStart cs (start + 1)
      else Stopped start)"

fun scanStop :: "string \<Rightarrow> nat \<Rightarrow> scan" where
  "scanStop [] stop = Stopped stop"
| "scanStop (c # cs) stop =
     (if RuneSelf \<le> byte c then NonASCII stop
      else if asciiSpace c then scanStop cs (stop - 1)
      else Stopped stop)"

definition trimSpace :: "string \<Rightarrow> string" where
  "trimSpace s =
     (case scanStart s 0 of
        NonASCII start \<Rightarrow> trimFunc (drop start s)
      | Stopped start \<Rightarrow>
          (case scanStop (rev (drop start s)) (length s) of
             NonASCII stop \<Rightarrow> trimRightFunc (take (stop - start) (drop start s))
           | Stopped stop \<Rightarrow> take (stop - start) (drop start s)))"

text \<open>
  \<^verbatim>\<open>strings.ReplaceAll(s, old, new)\<close>: the non-overlapping occurrences of \<open>old\<close> are
  replaced from left to right. With an empty \<open>old\<close> Go inserts \<open>new\<close> before every
  character and at the end (the installer only ever passes the literal \<open>{version}\<close>).
\<close>

fun replaceFrom :: "string \<Rightarrow> string \<Rightarrow> string \<Rightarrow> string" where
  "replaceFrom [] old new = []"
| "replaceFrom (c # cs) old new =
     (if old \<noteq> [] \<and> hasPrefix (c # cs) old
      then new @ replaceFrom (drop (length old) (c # cs)) old new
      else c # replaceFrom cs old new)"

definition replaceAll :: "string \<Rightarrow> string \<Rightarrow> string \<Rightarrow> string" where
  "replaceAll s old new =
     (if old = new then s
      else if old = [] then new @ concat (map (\<lambda>c. c # new) s)
      else replaceFrom s old new)"

subsection \<open>Paths\<close>

fun splitSlash :: "string \<Rightarrow> string list" where
  "splitSlash [] = [[]]"
| "splitSlash (c # cs) =
     (if c = CHR ''/'' then [] # splitSlash cs
      else (case splitSlash cs of [] \<Rightarrow> [[c]] | e # es \<Rightarrow> (c # e) # es))"

fun joinSlash :: "string list \<Rightarrow> string" where
  "joinSlash [] = []"
| "joinSlash [e] = e"
| "joinSlash (e # es) = e @ ''/'' @ joinSlash es"

text \<open>
  \<^verbatim>\<open>filepath.Clean\<close>, element by element: empty elements and \<open>.\<close> are dropped, \<open>..\<close>
  removes the element before it, stays when nothing precedes it in a relative path and
  is dropped at the root. \<open>acc\<close> holds the kept elements, last one first.
\<close>

fun cleanElems :: "bool \<Rightarrow> string list \<Rightarrow> string list \<Rightarrow> string list" where
  "cleanElems rooted acc [] = rev acc"
| "cleanElems rooted acc (e # es) =
     (if e = [] \<or> e = ''.'' then cleanElems rooted acc es
      else if e = ''..'' then
        (case acc of
           [] \<Rightarrow> if rooted then cleanElems rooted [] es else cleanElems rooted [e] es
         | a # acc' \<Rightarrow>
             if a = ''..'' then cleanElems rooted (e # acc) es
             else cleanElems rooted acc' es)
      else cleanElems rooted (e # acc) es)"

definition Clean :: "string \<Rightarrow> string" where
  "Clean p =
     (let rooted = hasPrefix p ''/'';
          out = (if rooted then ''/'' else []) @ joinSlash (cleanElems rooted [] (splitSlash p))
      in if out = [] then ''.'' else out)"

definition Join :: "string list \<Rightarrow> string" where
  "Join elems =
     (case dropWhile (\<lambda>e. e = []) elems of
        [] \<Rightarrow> []
      | es \<Rightarrow> Clean (joinSlash es))"

definition Base :: "string \<Rightarrow> string" where
  "Base p =
     (if p = [] then ''.''
      else let stripped = rev (dropWhile (\<lambda>c. c = CHR ''/'') (rev p));
               last_elem = rev (takeWhile (\<lambda>c. c \<noteq> CHR ''/'') (rev stripped))
           in if last_elem = [] then ''/'' else last_elem)"


section \<open>Errors, the file system and the environment\<close>

text \<open>
  Go's \<^verbatim>\<open>error\<close> values. The first group are failures of the operating system, the
  network or the context; the others are the errors the repository builds itself
  (\<^verbatim>\<open>fmt.Errorf\<close>), one constructor per format string, a wrapped error as an argument.
\<close>

datatype error =
    ENOENT | EEXIST | EISDIR | ENOTDIR | ELOOP
  | OSError string
  | Canceled | DeadlineExceeded
  | PatternHasSeparator
  | BuildRequest error
  | GithubRequest error
  | RepoNotFound string
  | RateLimited string
  | UnexpectedStatus nat string
  | DecodeResponse error
  | EmptyTagName string
  | DownloadStatus nat string
  | EmptyBody
  | DownloadFailed error
  | ExtractFailed error
  | OpenGzip error
  | OpenXz error
  | ReadTar error
  | OpenZip error
  | NilReaderPanic
  | LinkFailed string error
  | RemoveExistingSymlink string error
  | AlreadyExistsRegular string
  | CreateSymlink string string error

text \<open>
  The file system is a flat map from cleaned path strings to nodes. A regular file
  carries its contents and the permission bits requested when it was created. Two
  different strings naming one file through a symbolic link in a directory component
  are not identified; a symbolic link at the last component is followed by the calls
  that follow links (\<open>resolve\<close>).
\<close>

datatype node = Regular string nat | Symlink string | Directory

type_synonym filesys = "string \<Rightarrow> node option"

datatype syscall =
    SysLstat string
  | SysRemove string
  | SysSymlink string string
  | SysOpen string
  | SysCreate string nat
  | SysCopy string string
  | SysReadFile string
  | SysWriteFile string string nat
  | SysMkdirAll string nat
  | SysCreateTemp string string

subsection \<open>The installer's progress messages\<close>

datatype State =
    StatePending
  | StateFetchingVersion
  | StateDownloading
  | StateExtracting
  | StateLinking
  | StateDone
  | StateSkipped
  | StateError

record ProgressMsg =
  Program :: string
  State :: State
  Version :: string
  Err :: "error option"

text \<open>
  Everything a run does to the outside is recorded in order: a message sent on the
  progress channel, the construction of an HTTP request, the request itself, a sleep
  that ran to its end or was abandoned, a line on standard error, and a system call.
\<close>

datatype action =
    Send ProgressMsg
  | NewRequest string
  | HttpGet string
  | Slept nat
  | SleepAborted nat
  | Stderr string
  | Sys syscall

record world =
  fs :: filesys
  trace :: "action list"

record api_response =
  api_status :: nat
  api_tag_name :: "error + string"

record dl_response =
  dl_status :: nat
  dl_content_length :: int
  dl_body :: string
  dl_copy_err :: "error option"

text \<open>
  What the archive readers deliver. A tar header carries the entry's name, its type
  (\<^verbatim>\<open>tar.TypeReg\<close>, \<^verbatim>\<open>tar.TypeDir\<close>, or another), the mode of
  \<^verbatim>\<open>hdr.FileInfo().Mode()\<close>, the bytes \<^verbatim>\<open>io.Copy\<close> reads for it and the error that
  ends them, if any. A zip file entry carries its name, \<^verbatim>\<open>f.FileInfo().IsDir()\<close>,
  \<^verbatim>\<open>f.Mode()\<close>, the error of \<^verbatim>\<open>f.Open()\<close>, and its bytes in the same way.
\<close>

datatype codec = Gzip | Bzip2 | Xz

datatype typeflag = TypeReg | TypeDir | TypeOther

record tar_header =
  hdr_Name :: string
  hdr_Typeflag :: typeflag
  hdr_Mode :: nat
  hdr_data :: string
  hdr_data_err :: "error option"

record zip_file =
  zf_Name :: string
  zf_IsDir :: bool
  zf_Mode :: nat
  zf_Open_err :: "error option"
  zf_data :: string
  zf_data_err :: "error option"

text \<open>
  The environment answers every question the code asks the outside world:
  \<^item> \<open>HOME\<close> and \<open>TMPDIR\<close>: \<^verbatim>\<open>os.Getenv("HOME")\<close> and \<^verbatim>\<open>os.TempDir()\<close>;
  \<^item> \<open>fault t c\<close>: the failure, if any, of system call \<open>c\<close> issued when the trace has
    length \<open>t\<close>, for a reason the file-system map does not show (permissions, a full
    disk, a missing parent directory); \<open>short_write\<close>: the bytes a failing copy wrote;
  \<^item> \<open>new_request\<close>: the error of \<^verbatim>\<open>http.NewRequestWithContext\<close> for a URL;
  \<^item> \<open>api_get\<close>: the answer of the GitHub API; \<open>dl_get k\<close>: the answer to download
    attempt \<open>k\<close>; \<open>rnd k\<close>: the random part of the temporary file name of attempt \<open>k\<close>;
  \<^item> \<open>ctx_done k\<close>: during the sleep before attempt \<open>k\<close> the context is cancelled before
    the timer fires; \<open>ctx_err\<close>: the value of \<^verbatim>\<open>ctx.Err()\<close> then;
  \<^item> the archive libraries, as functions of the bytes of the archive file:
    \<open>gzip_NewReader\<close> and \<open>xz_NewReader\<close> are the errors of \<^verbatim>\<open>gzip.NewReader\<close> and
    \<^verbatim>\<open>xz.NewReader\<close>; \<open>tar_Reader c\<close> is what a \<^verbatim>\<open>tar.Reader\<close> over the stream
    decompressed by \<open>c\<close> yields, header after header, each with the data \<^verbatim>\<open>io.Copy\<close>
    reads from it, and then \<^verbatim>\<open>io.EOF\<close> (\<open>None\<close>) or an error; \<open>zip_OpenReader\<close> is the
    error of \<^verbatim>\<open>zip.OpenReader\<close> or its list of files. The compression and archive
    formats themselves are not modelled.
\<close>

record env =
  HOME :: string
  TMPDIR :: string
  fault :: "nat \<Rightarrow> syscall \<Rightarrow> error option"
  short_write :: nat
  new_request :: "string \<Rightarrow> error option"
  api_get :: "string \<Rightarrow> error + api_response"
  dl_get :: "nat \<Rightarrow> string \<Rightarrow> error + dl_response"
  rnd :: "nat \<Rightarrow> nat"
  ctx_done :: "nat \<Rightarrow> bool"
  ctx_err :: error
  gzip_NewReader :: "string \<Rightarrow> error option"
  xz_NewReader :: "string \<Rightarrow> error option"
  tar_Reader :: "codec \<Rightarrow> string \<Rightarrow> tar_header list \<times> error option"
  zip_OpenReader :: "string \<Rightarrow> error + zip_file list"

definition emit :: "action \<Rightarrow> world \<Rightarrow> world" where
  "emit a w = w\<lparr>trace := trace w @ [a]\<rparr>"

definition faulty :: "env \<Rightarrow> world \<Rightarrow> syscall \<Rightarrow> error option" where
  "faulty e w c = fault e (length (trace w)) c"

subsection \<open>System calls\<close>

definition Dir :: "string \<Rightarrow> string" where
  "Dir p = Clean (rev (dropWhile (\<lambda>c. c \<noteq> CHR ''/'') (rev p)))"

text \<open>Following the symbolic link at the last component, at most \<open>n\<close> times.\<close>

fun resolve :: "filesys \<Rightarrow> nat \<Rightarrow> string \<Rightarrow> error + string" where
  "resolve f 0 p = (case f p of Some (Symlink t) \<Rightarrow> Inl ELOOP | _ \<Rightarrow> Inr p)"
| "resolve f (Suc n) p =
     (case f p of
        Some (Symlink t) \<Rightarrow> resolve f n (if hasPrefix t ''/'' then Clean t else Join [Dir p, t])
      | _ \<Rightarrow> Inr p)"

definition maxSymlinks :: nat where
  "maxSymlinks = 40"

definition os_Lstat :: "env \<Rightarrow> string \<Rightarrow> world \<Rightarrow> (error + node) \<times> world" where
  "os_Lstat e p w =
     (let w' = emit (Sys (SysLstat p)) w in
      case faulty e w (SysLstat p) of
        Some err \<Rightarrow> (Inl err, w')
      | None \<Rightarrow> (case fs w p of None \<Rightarrow> (Inl ENOENT, w') | Some n \<Rightarrow> (Inr n, w')))"

definition os_Remove :: "env \<Rightarrow> string \<Rightarrow> world \<Rightarrow> error option \<times> world" where
  "os_Remove e p w =
     (let w' = emit (Sys (SysRemove p)) w in
      case faulty e w (SysRemove p) of
        Some err \<Rightarrow> (Some err, w')
      | None \<Rightarrow>
          (case fs w p of
             None \<Rightarrow> (Some ENOENT, w')
           | Some n \<Rightarrow> (None, w'\<lparr>fs := (fs w)(p := None)\<rparr>)))"

definition os_Symlink :: "env \<Rightarrow> string \<Rightarrow> string \<Rightarrow> world \<Rightarrow> error option \<times> world" where
  "os_Symlink e src p w =
     (let w' = emit (Sys (SysSymlink src p)) w in
      case faulty e w (SysSymlink src p) of
        Some err \<Rightarrow> (Some err, w')
      | None \<Rightarrow>
          (case fs w p of
             Some n \<Rightarrow> (Some EEXIST, w')
           | None \<Rightarrow> (None, w'\<lparr>fs := (fs w)(p \<mapsto> Symlink src)\<rparr>)))"

definition os_ReadFile :: "env \<Rightarrow> string \<Rightarrow> world \<Rightarrow> (error + string) \<times> world" where
  "os_ReadFile e p w =
     (let w' = emit (Sys (SysReadFile p)) w in
      case faulty e w (SysReadFile p) of
        Some err \<Rightarrow> (Inl err, w')
      | None \<Rightarrow>
          (case resolve (fs w) maxSymlinks p of
             Inl err \<Rightarrow> (Inl err, w')
           | Inr q \<Rightarrow>
               (case fs w q of
                  Some (Regular c m) \<Rightarrow> (Inr c, w')
                | Some Directory \<Rightarrow> (Inl EISDIR, w')
                | Some (Symlink t) \<Rightarrow> (Inl ELOOP, w')
                | None \<Rightarrow> (Inl ENOENT, w'))))"

text \<open>
  \<^verbatim>\<open>os.WriteFile\<close> and \<^verbatim>\<open>os.OpenFile\<close> with \<^verbatim>\<open>O_CREATE|O_WRONLY|O_TRUNC\<close>: the
  permission argument is used only when the file is created; an existing file is
  truncated and keeps its mode.
\<close>

definition os_WriteFile :: "env \<Rightarrow> string \<Rightarrow> string \<Rightarrow> nat \<Rightarrow> world \<Rightarrow> error option \<times> world" where
  "os_WriteFile e p content perm w =
     (let w' = emit (Sys (SysWriteFile p content perm)) w in
      case faulty e w (SysWriteFile p content perm) of
        Some err \<Rightarrow> (Some err, w')
      | None \<Rightarrow>
          (case resolve (fs w) maxSymlinks p of
             Inl err \<Rightarrow> (Some err, w')
           | Inr q \<Rightarrow>
               (case fs w q of
                  None \<Rightarrow> (None, w'\<lparr>fs := (fs w)(q \<mapsto> Regular content perm)\<rparr>)
                | Some (Regular c m) \<Rightarrow> (None, w'\<lparr>fs := (fs w)(q \<mapsto> Regular content m)\<rparr>)
                | Some Directory \<Rightarrow> (Some EISDIR, w')
                | Some (Symlink t) \<Rightarrow> (Some ELOOP, w'))))"

definition os_MkdirAll :: "env \<Rightarrow> string \<Rightarrow> nat \<Rightarrow> world \<Rightarrow> error option \<times> world" where
  "os_MkdirAll e p perm w =
     (let w' = emit (Sys (SysMkdirAll p perm)) w in
      case faulty e w (SysMkdirAll p perm) of
        Some err \<Rightarrow> (Some err, w')
      | None \<Rightarrow>
          (case fs w p of
             None \<Rightarrow> (None, w'\<lparr>fs := (fs w)(p \<mapsto> Directory)\<rparr>)
           | Some Directory \<Rightarrow> (None, w')
           | Some (Regular c m) \<Rightarrow> (Some ENOTDIR, w')
           | Some (Symlink t) \<Rightarrow>
               (case resolve (fs w) maxSymlinks p of
                  Inl err \<Rightarrow> (Some err, w')
                | Inr q \<Rightarrow>
                    (case fs w q of
                       Some Directory \<Rightarrow> (None, w')
                     | None \<Rightarrow> (Some EEXIST, w')
                     | Some n \<Rightarrow> (Some ENOTDIR, w')))))"

text \<open>An open file is named by the resolved path it was opened at.\<close>

definition os_Open :: "env \<Rightarrow> string \<Rightarrow> world \<Rightarrow> (error + string) \<times> world" where
  "os_Open e p w =
     (let w' = emit (Sys (SysOpen p)) w in
      case faulty e w (SysOpen p) of
        Some err \<Rightarrow> (Inl err, w')
      | None \<Rightarrow>
          (case resolve (fs w) maxSymlinks p of
             Inl err \<Rightarrow> (Inl err, w')
           | Inr q \<Rightarrow> (case fs w q of None \<Rightarrow> (Inl ENOENT, w') | Some n \<Rightarrow> (Inr q, w'))))"

definition os_Create :: "env \<Rightarrow> string \<Rightarrow> nat \<Rightarrow> world \<Rightarrow> (error + string) \<times> world" where
  "os_Create e p perm w =
     (let w' = emit (Sys (SysCreate p perm)) w in
      case faulty e w (SysCreate p perm) of
        Some err \<Rightarrow> (Inl err, w')
      | None \<Rightarrow>
          (case resolve (fs w) maxSymlinks p of
             Inl err \<Rightarrow> (Inl err, w')
           | Inr q \<Rightarrow>
               (case fs w q of
                  None \<Rightarrow> (Inr q, w'\<lparr>fs := (fs w)(q \<mapsto> Regular [] perm)\<rparr>)
                | Some (Regular c m) \<Rightarrow> (Inr q, w'\<lparr>fs := (fs w)(q \<mapsto> Regular [] m)\<rparr>)
                | Some Directory \<Rightarrow> (Inl EISDIR, w')
                | Some (Symlink t) \<Rightarrow> (Inl ELOOP, w'))))"

definition setContent :: "filesys \<Rightarrow> string \<Rightarrow> string \<Rightarrow> filesys" where
  "setContent f q c = (case f q of Some (Regular old m) \<Rightarrow> f(q \<mapsto> Regular c m) | _ \<Rightarrow> f)"

text \<open>
  \<^verbatim>\<open>io.Copy(out, in)\<close> between two open files: the source is read as it is when the
  copy runs (after \<open>out\<close> was truncated, should both be the same file).
\<close>

definition io_Copy :: "env \<Rightarrow> string \<Rightarrow> string \<Rightarrow> world \<Rightarrow> error option \<times> world" where
  "io_Copy e inp out w =
     (let w' = emit (Sys (SysCopy inp out)) w in
      case fs w inp of
        Some (Regular c m) \<Rightarrow>
          (case faulty e w (SysCopy inp out) of
             Some err \<Rightarrow> (Some err, w'\<lparr>fs := setContent (fs w) out (take (short_write e) c)\<rparr>)
           | None \<Rightarrow> (None, w'\<lparr>fs := setContent (fs w) out c\<rparr>))
      | Some Directory \<Rightarrow> (Some EISDIR, w')
      | Some (Symlink t) \<Rightarrow> (Some ELOOP, w')
      | None \<Rightarrow> (Some ENOENT, w'))"

text \<open>
  \<^verbatim>\<open>os.CreateTemp("", pattern)\<close>: a pattern with a path separator is refused; the random
  decimal number replaces the last \<open>*\<close> of the pattern (it is appended when there is
  none); the file is created exclusively with mode 0600 in the temporary directory.
\<close>

definition digitChar :: "nat \<Rightarrow> char" where
  "digitChar d = ''0123456789'' ! d"

fun showNat :: "nat \<Rightarrow> string" where
  "showNat n =
     (if n < 10 then [digitChar n]
      else showNat (n div 10) @ [digitChar (n mod 10)])"

declare showNat.simps [simp del]

definition tempName :: "string \<Rightarrow> string \<Rightarrow> string" where
  "tempName pattern r =
     (if CHR ''*'' \<in> set pattern
      then rev (tl (dropWhile (\<lambda>c. c \<noteq> CHR ''*'') (rev pattern))) @ r
             @ rev (takeWhile (\<lambda>c. c \<noteq> CHR ''*'') (rev pattern))
      else pattern @ r)"

definition os_CreateTemp :: "env \<Rightarrow> nat \<Rightarrow> string \<Rightarrow> world \<Rightarrow> (error + string) \<times> world" where
  "os_CreateTemp e k pattern w =
     (if CHR ''/'' \<in> set pattern then (Inl PatternHasSeparator, w)
      else
        let path = Join [TMPDIR e, tempName pattern (showNat (rnd e k))];
            w' = emit (Sys (SysCreateTemp (TMPDIR e) pattern)) w
        in case faulty e w (SysCreateTemp (TMPDIR e) pattern) of
             Some err \<Rightarrow> (Inl err, w')
           | None \<Rightarrow>
               (case fs w path of
                  Some n \<Rightarrow> (Inl EEXIST, w')
                | None \<Rightarrow> (Inr path, w'\<lparr>fs := (fs w)(path \<mapsto> Regular [] 384)\<rparr>)))"

section \<open>The link publisher (internal/linker/linker.go)\<close>

text \<open>
  \<^verbatim>\<open>Link(src, binDir, dst)\<close>: the target is \<^verbatim>\<open>filepath.Join(binDir, dst)\<close>. When
  \<^verbatim>\<open>os.Lstat\<close> succeeds, a symbolic link there is removed first and anything else is
  refused; when it fails, the code goes on to \<^verbatim>\<open>os.Symlink\<close> directly.
\<close>

definition isSymlink :: "node \<Rightarrow> bool" where
  "isSymlink n = (case n of Symlink t \<Rightarrow> True | _ \<Rightarrow> False)"

definition Link :: "env \<Rightarrow> string \<Rightarrow> string \<Rightarrow> string \<Rightarrow> world \<Rightarrow> error option \<times> world" where
  "Link e src binDir dst w =
     (let target = Join [binDir, dst] in
      case os_Lstat e target w of
        (Inr info, w1) \<Rightarrow>
          if isSymlink info then
            (case os_Remove e target w1 of
               (Some err, w2) \<Rightarrow> (Some (RemoveExistingSymlink target err), w2)
             | (None, w2) \<Rightarrow>
                 (case os_Symlink e src target w2 of
                    (Some err, w3) \<Rightarrow> (Some (CreateSymlink target src err), w3)
                  | (None, w3) \<Rightarrow> (None, w3)))
          else (Some (AlreadyExistsRegular target), w1)
      | (Inl lerr, w1) \<Rightarrow>
          (case os_Symlink e src target w1 of
             (Some err, w3) \<Rightarrow> (Some (CreateSymlink target src err), w3)
           | (None, w3) \<Rightarrow> (None, w3)))"

section \<open>The archive extractor (internal/extractor/extractor.go)\<close>

text \<open>
  The bytes of an open file; reading a directory fails.
\<close>

definition readAll :: "filesys \<Rightarrow> string \<Rightarrow> error + string" where
  "readAll f q = (case f q of Some (Regular c m) \<Rightarrow> Inr c | _ \<Rightarrow> Inl EISDIR)"

text \<open>
  \<^verbatim>\<open>io.Copy(out, r)\<close> from an archive entry into an open file: \<open>data\<close> are the bytes
  the reader delivers and \<open>rerr\<close> the error that ends them, if any.
\<close>

definition io_CopyFrom ::
  "env \<Rightarrow> string \<Rightarrow> string \<Rightarrow> string \<Rightarrow> error option \<Rightarrow> world \<Rightarrow> error option \<times> world" where
  "io_CopyFrom e srcPath out data rerr w =
     (let w' = emit (Sys (SysCopy srcPath out)) w in
      case faulty e w (SysCopy srcPath out) of
        Some err \<Rightarrow> (Some err, w'\<lparr>fs := setContent (fs w) out (take (short_write e) data)\<rparr>)
      | None \<Rightarrow> (rerr, w'\<lparr>fs := setContent (fs w) out data\<rparr>))"

text \<open>
  The path an entry is written to: \<^verbatim>\<open>filepath.Join(dstDir, filepath.Clean("/" + name)[1:])\<close>.
\<close>

definition targetOf :: "string \<Rightarrow> string \<Rightarrow> string" where
  "targetOf dstDir name = Join [dstDir, tl (Clean (''/'' @ name))]"

text \<open>
  \<^verbatim>\<open>os.OpenFile(target, O_CREATE|O_WRONLY|O_TRUNC, mode)\<close> followed by \<^verbatim>\<open>io.Copy\<close>, the
  two steps that the tar loop and the zip loop share.
\<close>

definition writeEntry ::
  "env \<Rightarrow> string \<Rightarrow> string \<Rightarrow> nat \<Rightarrow> string \<Rightarrow> error option \<Rightarrow> world \<Rightarrow> error option \<times> world" where
  "writeEntry e srcPath target mode data rerr w =
     (case os_Create e target mode w of
        (Inl err, w1) \<Rightarrow> (Some err, w1)
      | (Inr out, w1) \<Rightarrow> io_CopyFrom e srcPath out data rerr w1)"

text \<open>
  The loop of \<^verbatim>\<open>extractTar\<close> over the headers \<^verbatim>\<open>tr.Next()\<close> yields: a directory is
  created, a regular file is written after its parent directory was created, any other
  entry is passed over; the results of \<^verbatim>\<open>os.MkdirAll\<close> are dropped. \<open>final\<close> is what
  \<^verbatim>\<open>tr.Next()\<close> returns after the last header.
\<close>

fun tarLoop ::
  "env \<Rightarrow> string \<Rightarrow> string \<Rightarrow> tar_header list \<Rightarrow> error option \<Rightarrow> world \<Rightarrow> error option \<times> world" where
  "tarLoop e srcPath dstDir [] final w =
     (case final of None \<Rightarrow> (None, w) | Some err \<Rightarrow> (Some (ReadTar err), w))"
| "tarLoop e srcPath dstDir (hdr # rest) final w =
     (let target = targetOf dstDir (hdr_Name hdr) in
      case hdr_Typeflag hdr of
        TypeDir \<Rightarrow> tarLoop e srcPath dstDir rest final (snd (os_MkdirAll e target 493 w))
      | TypeReg \<Rightarrow>
          (case writeEntry e srcPath target (hdr_Mode hdr) (hdr_data hdr) (hdr_data_err hdr)
                  (snd (os_MkdirAll e (Dir target) 493 w)) of
             (Some err, w1) \<Rightarrow> (Some err, w1)
           | (None, w1) \<Rightarrow> tarLoop e srcPath dstDir rest final w1)
      | TypeOther \<Rightarrow> tarLoop e srcPath dstDir rest final w)"

text \<open>
  The \<^verbatim>\<open>switch compression\<close> of \<^verbatim>\<open>extractTar\<close>: the reader \<open>r\<close> it leaves, which stays
  \<^verbatim>\<open>nil\<close> for a string that is none of the three. \<^verbatim>\<open>gzip.NewReader\<close> and
  \<^verbatim>\<open>xz.NewReader\<close> read the head of the file at once; \<^verbatim>\<open>bzip2.NewReader\<close> reads
  nothing before the first \<^verbatim>\<open>tr.Next()\<close>.
\<close>

definition openReader :: "env \<Rightarrow> string \<Rightarrow> error + string \<Rightarrow> error + codec option" where
  "openReader e compression rd =
     (if compression = ''gz'' then
        (case rd of
           Inl rerr \<Rightarrow> Inl (OpenGzip rerr)
         | Inr bytes \<Rightarrow>
             (case gzip_NewReader e bytes of
                Some err \<Rightarrow> Inl (OpenGzip err)
              | None \<Rightarrow> Inr (Some Gzip)))
      else if compression = ''bz2'' then Inr (Some Bzip2)
      else if compression = ''xz'' then
        (case rd of
           Inl rerr \<Rightarrow> Inl (OpenXz rerr)
         | Inr bytes \<Rightarrow>
             (case xz_NewReader e bytes of
                Some err \<Rightarrow> Inl (OpenXz err)
              | None \<Rightarrow> Inr (Some Xz)))
      else Inr None)"

definition extractTar :: "env \<Rightarrow> string \<Rightarrow> string \<Rightarrow> string \<Rightarrow> world \<Rightarrow> error option \<times> world" where
  "extractTar e srcPath dstDir compression w =
     (case os_Open e srcPath w of
        (Inl err, w1) \<Rightarrow> (Some err, w1)
      | (Inr f, w1) \<Rightarrow>
          (case openReader e compression (readAll (fs w1) f) of
             Inl err \<Rightarrow> (Some err, w1)
           | Inr None \<Rightarrow> (Some NilReaderPanic, w1)
           | Inr (Some c) \<Rightarrow>
               (case readAll (fs w1) f of
                  Inl rerr \<Rightarrow> (Some (ReadTar rerr), w1)
                | Inr bytes \<Rightarrow>
                    tarLoop e srcPath dstDir (fst (tar_Reader e c bytes))
                      (snd (tar_Reader e c bytes)) w1)))"

text \<open>
  The loop of \<^verbatim>\<open>extractZip\<close> over \<^verbatim>\<open>r.File\<close>: the entry is opened before the target
  file is created.
\<close>

fun zipLoop :: "env \<Rightarrow> string \<Rightarrow> string \<Rightarrow> zip_file list \<Rightarrow> world \<Rightarrow> error option \<times> world" where
  "zipLoop e srcPath dstDir [] w = (None, w)"
| "zipLoop e srcPath dstDir (f # rest) w =
     (let target = targetOf dstDir (zf_Name f) in
      if zf_IsDir f then zipLoop e srcPath dstDir rest (snd (os_MkdirAll e target 493 w))
      else
        (let w1 = snd (os_MkdirAll e (Dir target) 493 w) in
         case zf_Open_err f of
           Some err \<Rightarrow> (Some err, w1)
         | None \<Rightarrow>
             (case writeEntry e srcPath target (zf_Mode f) (zf_data f) (zf_data_err f) w1 of
                (Some err, w2) \<Rightarrow> (Some err, w2)
              | (None, w2) \<Rightarrow> zipLoop e srcPath dstDir rest w2)))"

definition extractZip :: "env \<Rightarrow> string \<Rightarrow> string \<Rightarrow> world \<Rightarrow> error option \<times> world" where
  "extractZip e srcPath dstDir w =
     (case os_Open e srcPath w of
        (Inl err, w1) \<Rightarrow> (Some (OpenZip err), w1)
      | (Inr f, w1) \<Rightarrow>
          (case readAll (fs w1) f of
             Inl rerr \<Rightarrow> (Some (OpenZip rerr), w1)
           | Inr bytes \<Rightarrow>
               (case zip_OpenReader e bytes of
                  Inl err \<Rightarrow> (Some (OpenZip err), w1)
                | Inr files \<Rightarrow> zipLoop e srcPath dstDir files w1)))"

text \<open>\<^verbatim>\<open>copyBinary\<close>: the file is created with permission 0755 (decimal 493).\<close>

definition copyBinary :: "env \<Rightarrow> string \<Rightarrow> string \<Rightarrow> world \<Rightarrow> error option \<times> world" where
  "copyBinary e srcPath dstDir w =
     (let name = Base srcPath;
          dst = Join [dstDir, name]
      in case os_Open e srcPath w of
           (Inl err, w1) \<Rightarrow> (Some err, w1)
         | (Inr inp, w1) \<Rightarrow>
             (case os_Create e dst 493 w1 of
                (Inl err, w2) \<Rightarrow> (Some err, w2)
              | (Inr out, w2) \<Rightarrow>
                  (case io_Copy e inp out w2 of
                     (Some err, w3) \<Rightarrow> (Some err, w3)
                   | (None, w3) \<Rightarrow> (None, w3))))"

definition Extract :: "env \<Rightarrow> string \<Rightarrow> string \<Rightarrow> world \<Rightarrow> error option \<times> world" where
  "Extract e srcPath dstDir w =
     (let name = Base srcPath in
      if hasSuffix name ''.tar.gz'' \<or> hasSuffix name ''.tgz''
        then extractTar e srcPath dstDir ''gz'' w
      else if hasSuffix name ''.tar.xz'' \<or> hasSuffix name ''.txz''
        then extractTar e srcPath dstDir ''xz'' w
      else if hasSuffix name ''.tar.bz2''
        then extractTar e srcPath dstDir ''bz2'' w
      else if hasSuffix name ''.zip''
        then extractZip e srcPath dstDir w
      else copyBinary e srcPath dstDir w)"

section \<open>The release resolver (internal/github, \<^verbatim>\<open>LatestVersion\<close>)\<close>

definition defaultBaseURL :: string where
  "defaultBaseURL = ''https://api.github.com''"

text \<open>A client is its base URL (the HTTP client's timeout is part of the environment).\<close>

definition NewClient :: "string \<Rightarrow> string" where
  "NewClient baseURL = (if baseURL = [] then defaultBaseURL else baseURL)"

definition releaseURL :: "string \<Rightarrow> string \<Rightarrow> string" where
  "releaseURL client repo = client @ ''/repos/'' @ repo @ ''/releases/latest''"

definition LatestVersion :: "env \<Rightarrow> string \<Rightarrow> string \<Rightarrow> world \<Rightarrow> (error + string) \<times> world" where
  "LatestVersion e client repo w =
     (let url = releaseURL client repo;
          w0 = emit (NewRequest url) w
      in case new_request e url of
        Some err \<Rightarrow> (Inl (BuildRequest err), w0)
      | None \<Rightarrow>
          (let w' = emit (HttpGet url) w0 in
           case api_get e url of
             Inl err \<Rightarrow> (Inl (GithubRequest err), w')
           | Inr resp \<Rightarrow>
               if api_status resp = 200 then
                 (case api_tag_name resp of
                    Inl err \<Rightarrow> (Inl (DecodeResponse err), w')
                  | Inr tag \<Rightarrow>
                      (let version = trimPrefix tag ''v'' in
                       if version = [] then (Inl (EmptyTagName repo), w')
                       else (Inr version, w')))
               else if api_status resp = 404 then (Inl (RepoNotFound repo), w')
               else if api_status resp = 403 \<or> api_status resp = 429
                 then (Inl (RateLimited repo), w')
               else (Inl (UnexpectedStatus (api_status resp) repo), w')))"

section \<open>The install pipeline (internal/installer/installer.go)\<close>

record Bin =
  Src :: string
  Dst :: string

record Program =
  Name :: string
  Repo :: string
  AssetPattern :: string
  Packages :: "string list"
  Bin :: "Bin list"

definition workerCount :: nat where
  "workerCount = 3"

definition SharePath :: "env \<Rightarrow> string" where
  "SharePath e = Join [HOME e, ''.local/share'']"

definition BinPath :: "env \<Rightarrow> string" where
  "BinPath e = Join [HOME e, ''.local/bin'']"

definition installDirOf :: "env \<Rightarrow> Program \<Rightarrow> string" where
  "installDirOf e p = Join [SharePath e, Name p]"

definition versionFileOf :: "env \<Rightarrow> Program \<Rightarrow> string" where
  "versionFileOf e p = Join [installDirOf e p, ''.version'']"

definition assetNameOf :: "Program \<Rightarrow> string \<Rightarrow> string" where
  "assetNameOf p version = replaceAll (AssetPattern p) ''{version}'' version"

definition downloadURLOf :: "Program \<Rightarrow> string \<Rightarrow> string" where
  "downloadURLOf p version =
     ''https://github.com/'' @ Repo p @ ''/releases/download/v'' @ version @ ''/''
       @ assetNameOf p version"

definition msg :: "Program \<Rightarrow> State \<Rightarrow> string \<Rightarrow> error option \<Rightarrow> ProgressMsg" where
  "msg p st version err = \<lparr>Program = Name p, State = st, Version = version, Err = err\<rparr>"

definition send :: "ProgressMsg \<Rightarrow> world \<Rightarrow> world" where
  "send m w = emit (Send m) w"

text \<open>
  \<^verbatim>\<open>download\<close>, attempt number \<open>k\<close>: one GET; a status other than 200 or a content length
  of 0 is an error; the body is copied to a fresh temporary file, which is removed again
  when the copy fails.
\<close>

definition download :: "env \<Rightarrow> nat \<Rightarrow> string \<Rightarrow> string \<Rightarrow> world \<Rightarrow> (error + string) \<times> world" where
  "download e k url assetName w =
     (case new_request e url of
        Some err \<Rightarrow> (Inl err, emit (NewRequest url) w)
      | None \<Rightarrow>
          (let w1 = emit (HttpGet url) (emit (NewRequest url) w) in
           case dl_get e k url of
             Inl err \<Rightarrow> (Inl err, w1)
           | Inr resp \<Rightarrow>
               if dl_status resp \<noteq> 200 then (Inl (DownloadStatus (dl_status resp) url), w1)
               else if dl_content_length resp = 0 then (Inl EmptyBody, w1)
               else
                 (case os_CreateTemp e k (''installer-*-'' @ assetName) w1 of
                    (Inl err, w2) \<Rightarrow> (Inl err, w2)
                  | (Inr tmp, w2) \<Rightarrow>
                      (case dl_copy_err resp of
                         Some err \<Rightarrow>
                           (Inl err,
                            snd (os_Remove e tmp
                              (w2\<lparr>fs := setContent (fs w2) tmp
                                     (take (short_write e) (dl_body resp))\<rparr>)))
                       | None \<Rightarrow>
                           (Inr tmp, w2\<lparr>fs := setContent (fs w2) tmp (dl_body resp)\<rparr>)))))"

text \<open>
  \<^verbatim>\<open>downloadWithRetry\<close>: the loop \<^verbatim>\<open>for attempt := 0; attempt < 3; attempt++\<close>.
  Before attempt 1 and 2 the \<^verbatim>\<open>select\<close> waits \<open>1 << (attempt - 1)\<close> seconds or for the
  context, whichever comes first. \<open>lastErr\<close> starts as \<^verbatim>\<open>nil\<close>; a \<^verbatim>\<open>nil\<close> error with
  the empty path is the result \<open>Inr []\<close>.
\<close>

function retryLoop ::
  "env \<Rightarrow> string \<Rightarrow> string \<Rightarrow> nat \<Rightarrow> error option \<Rightarrow> world \<Rightarrow> (error + string) \<times> world" where
  "retryLoop e url assetName attempt lastErr w =
     (if attempt < 3 then
        (if attempt > 0 \<and> ctx_done e attempt
         then (Inl (ctx_err e), emit (SleepAborted (2 ^ (attempt - 1))) w)
         else
           (case download e attempt url assetName
                   (if attempt > 0 then emit (Slept (2 ^ (attempt - 1))) w else w) of
              (Inr path, w') \<Rightarrow> (Inr path, w')
            | (Inl err, w') \<Rightarrow> retryLoop e url assetName (attempt + 1) (Some err) w'))
      else (case lastErr of None \<Rightarrow> (Inr [], w) | Some err \<Rightarrow> (Inl err, w)))"
  by pat_completeness auto
termination
  by (relation "measure (\<lambda>(e, url, assetName, attempt, lastErr, w). 3 - attempt)") auto

declare retryLoop.simps [simp del]

definition downloadWithRetry :: "env \<Rightarrow> string \<Rightarrow> string \<Rightarrow> world \<Rightarrow> (error + string) \<times> world" where
  "downloadWithRetry e url assetName w = retryLoop e url assetName 0 None w"

text \<open>
  The loop over \<^verbatim>\<open>p.Bin\<close>: the first failing link sends the error message and ends the
  pipeline (\<open>False\<close>); links already made stay.
\<close>

fun linkAll :: "env \<Rightarrow> Program \<Rightarrow> string \<Rightarrow> Bin list \<Rightarrow> world \<Rightarrow> bool \<times> world" where
  "linkAll e p version [] w = (True, w)"
| "linkAll e p version (b # bs) w =
     (case Link e (Join [installDirOf e p, replaceAll (Src b) ''{version}'' version])
             (BinPath e) (Dst b) w of
        (Some err, w') \<Rightarrow>
          (False, send (msg p StateError [] (Some (LinkFailed (Dst b) err))) w')
      | (None, w') \<Rightarrow> linkAll e p version bs w')"

text \<open>
  The part of \<^verbatim>\<open>install\<close> after \<^verbatim>\<open>defer os.Remove(tmpFile)\<close>: extraction, the version
  file (its write error is dropped), the links. 0755 is 493, 0644 is 420.
\<close>

definition extractAndLink :: "env \<Rightarrow> Program \<Rightarrow> string \<Rightarrow> string \<Rightarrow> world \<Rightarrow> world" where
  "extractAndLink e p version tmpFile w =
     (case os_MkdirAll e (installDirOf e p) 493 (send (msg p StateExtracting version None) w) of
        (Some err, w2) \<Rightarrow> send (msg p StateError [] (Some err)) w2
      | (None, w2) \<Rightarrow>
          (case Extract e tmpFile (installDirOf e p) w2 of
             (Some err, w3) \<Rightarrow> send (msg p StateError [] (Some (ExtractFailed err))) w3
           | (None, w3) \<Rightarrow>
               (case linkAll e p version (Bin p)
                       (send (msg p StateLinking version None)
                          (snd (os_WriteFile e (versionFileOf e p) version 420 w3))) of
                  (False, w6) \<Rightarrow> w6
                | (True, w6) \<Rightarrow> send (msg p StateDone version None) w6)))"

text \<open>The part of \<^verbatim>\<open>install\<close> after the version check (from "Resolve download URL").\<close>

definition verboseLine :: "Program \<Rightarrow> string \<Rightarrow> string" where
  "verboseLine p version =
     ''[verbose] '' @ Name p @ '': version='' @ version @ '' url='' @ downloadURLOf p version
       @ [CHR 0x0A]"

definition downloadAndInstall :: "env \<Rightarrow> Program \<Rightarrow> bool \<Rightarrow> string \<Rightarrow> world \<Rightarrow> world" where
  "downloadAndInstall e p verbose version w =
     (case downloadWithRetry e (downloadURLOf p version) (assetNameOf p version)
             (send (msg p StateDownloading version None)
                (if verbose then emit (Stderr (verboseLine p version)) w else w)) of
        (Inl err, w3) \<Rightarrow> send (msg p StateError [] (Some (DownloadFailed err))) w3
      | (Inr tmpFile, w3) \<Rightarrow>
          snd (os_Remove e tmpFile (extractAndLink e p version tmpFile w3)))"

text \<open>
  \<^verbatim>\<open>install\<close>. The version file's contents count only when the read succeeded and the
  trimmed contents equal the resolved version; every other outcome of the read goes on
  to the download.
\<close>

definition upToDate :: "error + string \<Rightarrow> string \<Rightarrow> bool" where
  "upToDate rd version = (case rd of Inr current \<Rightarrow> trimSpace current = version | Inl err \<Rightarrow> False)"

definition install :: "env \<Rightarrow> string \<Rightarrow> Program \<Rightarrow> bool \<Rightarrow> world \<Rightarrow> world" where
  "install e client p verbose w =
     (case LatestVersion e client (Repo p) (send (msg p StateFetchingVersion [] None) w) of
        (Inl err, w2) \<Rightarrow> send (msg p StateError [] (Some err)) w2
      | (Inr version, w2) \<Rightarrow>
          (case os_ReadFile e (versionFileOf e p) w2 of
             (rd, w3) \<Rightarrow>
               if upToDate rd version
               then send (msg p StateSkipped version None) w3
               else downloadAndInstall e p verbose version w3))"

subsection \<open>Reading a trace\<close>

text \<open>
  Actions by kind, to speak about one kind of action in a trace: \<open>Lstat\<close> and \<open>Symlink\<close>
  are the calls only \<^verbatim>\<open>linker.Link\<close> makes.
\<close>

datatype kind = KSend | KRequest | KHttp | KSleep | KStderr | KFile | KLink

fun kindOf :: "action \<Rightarrow> kind" where
  "kindOf (Send m) = KSend"
| "kindOf (NewRequest u) = KRequest"
| "kindOf (HttpGet u) = KHttp"
| "kindOf (Slept d) = KSleep"
| "kindOf (SleepAborted d) = KSleep"
| "kindOf (Stderr l) = KStderr"
| "kindOf (Sys (SysLstat p)) = KLink"
| "kindOf (Sys (SysSymlink s p)) = KLink"
| "kindOf (Sys c) = KFile"

definition proj :: "kind set \<Rightarrow> action list \<Rightarrow> action list" where
  "proj K tr = filter (\<lambda>a. kindOf a \<in> K) tr"

fun sentStates :: "action list \<Rightarrow> State list" where
  "sentStates [] = []"
| "sentStates (Send m # tr) = State m # sentStates tr"
| "sentStates (a # tr) = sentStates tr"

definition grows :: "world \<Rightarrow> world \<Rightarrow> bool" where
  "grows w w' = (\<exists>xs. trace w' = trace w @ xs)"

definition isExecutable :: "nat \<Rightarrow> bool" where
  "isExecutable mode = (and mode 73 \<noteq> 0)"

subsection \<open>Reading a file system\<close>

text \<open>
  The mode of a file after it was opened with \<^verbatim>\<open>O_CREATE\<close> and permission \<open>perm\<close>: an
  existing regular file keeps its mode. \<open>grownOutside X f f'\<close>: apart from the paths in
  \<open>X\<close>, \<open>f'\<close> is \<open>f\<close> with new directories at free paths.
\<close>

definition modeAfter :: "node option \<Rightarrow> nat \<Rightarrow> nat" where
  "modeAfter old perm = (case old of Some (Regular c m) \<Rightarrow> m | _ \<Rightarrow> perm)"

definition notSymlinkAt :: "filesys \<Rightarrow> string \<Rightarrow> bool" where
  "notSymlinkAt f p = (case f p of Some (Symlink t) \<Rightarrow> False | _ \<Rightarrow> True)"

definition grownOutside :: "string set \<Rightarrow> filesys \<Rightarrow> filesys \<Rightarrow> bool" where
  "grownOutside X f f' = (\<forall>p. p \<notin> X \<longrightarrow> f' p = f p \<or> (f p = None \<and> f' p = Some Directory))"

text \<open>
  The regular files of an archive as triples of name, mode and data. \<open>separate\<close>: their
  targets under \<open>dst\<close> differ from each other and from the archive itself, and none is
  a symbolic link in \<open>f\<close>. \<open>unpacked\<close>: in \<open>f'\<close> every target is a regular file with the
  data of its entry, and with the mode of the entry unless the file was there in \<open>f\<close>.
\<close>

definition tarFiles :: "tar_header list \<Rightarrow> (string \<times> nat \<times> string) list" where
  "tarFiles hs = map (\<lambda>h. (hdr_Name h, hdr_Mode h, hdr_data h))
                   (filter (\<lambda>h. hdr_Typeflag h = TypeReg) hs)"

definition zipFiles :: "zip_file list \<Rightarrow> (string \<times> nat \<times> string) list" where
  "zipFiles fs0 = map (\<lambda>f. (zf_Name f, zf_Mode f, zf_data f)) (filter (\<lambda>f. \<not> zf_IsDir f) fs0)"

definition targets :: "string \<Rightarrow> (string \<times> nat \<times> string) list \<Rightarrow> string list" where
  "targets dst files = map (\<lambda>x. targetOf dst (fst x)) files"

definition separate :: "string \<Rightarrow> string \<Rightarrow> (string \<times> nat \<times> string) list \<Rightarrow> filesys \<Rightarrow> bool" where
  "separate src dst files f =
     (distinct (targets dst files) \<and> src \<notin> set (targets dst files)
      \<and> (\<forall>p \<in> set (targets dst files). notSymlinkAt f p))"

definition unpacked :: "string \<Rightarrow> (string \<times> nat \<times> string) list \<Rightarrow> filesys \<Rightarrow> filesys \<Rightarrow> bool" where
  "unpacked dst files f f' =
     (\<forall>x \<in> set files.
        f' (targetOf dst (fst x))
          = Some (Regular (snd (snd x)) (modeAfter (f (targetOf dst (fst x))) (fst (snd x)))))"

section \<open>Admission to the pipeline (\<^verbatim>\<open>Run\<close>)\<close>

text \<open>
  \<^verbatim>\<open>Run\<close> starts one goroutine per program; before it starts one, the loop sends a
  token into the channel \<open>sem\<close> of capacity \<open>workerCount\<close>, which blocks while the
  channel is full; the goroutine takes a token out after \<^verbatim>\<open>install\<close> has returned
  (deferred), then calls \<^verbatim>\<open>wg.Done\<close>. The goroutines and the loop interleave; one step
  of the system is one of:
  \<^item> \<open>announce\<close>: the loop takes the next program and calls \<^verbatim>\<open>wg.Add(1)\<close>;
  \<^item> \<open>admit\<close>: the loop's send \<^verbatim>\<open>sem <- struct{}{}\<close> goes through (only possible while
    fewer than \<open>workerCount\<close> tokens are in the channel) and the goroutine is started;
  \<^item> \<open>start\<close>: a goroutine enters \<^verbatim>\<open>install\<close> and sends the fetching-version message;
  \<^item> \<open>finish\<close>: \<^verbatim>\<open>install\<close> sends its terminal message and returns;
  \<^item> \<open>release\<close>: the deferred \<^verbatim>\<open><-sem\<close> takes a token out;
  \<^item> \<open>leave\<close>: the deferred \<^verbatim>\<open>wg.Done()\<close> runs and the goroutine ends;
  \<^item> \<open>close\<close>: after the loop, \<^verbatim>\<open>wg.Wait()\<close> returns and the progress channel is closed.
\<close>

datatype place = Spawned | Running | Finished | Released

record 'p pool =
  queue :: "'p list"
  waiting :: "'p option"
  sem :: nat
  wg :: nat
  workers :: "('p \<times> place) list"
  closed :: bool

definition initPool :: "'p list \<Rightarrow> 'p pool" where
  "initPool programs =
     \<lparr>queue = programs, waiting = None, sem = 0, wg = 0, workers = [], closed = False\<rparr>"

inductive step :: "'p pool \<Rightarrow> 'p pool \<Rightarrow> bool" where
  announce: "queue s = p # ps \<Longrightarrow> waiting s = None \<Longrightarrow>
          step s (s\<lparr>queue := ps, waiting := Some p, wg := wg s + 1\<rparr>)"
| admit: "waiting s = Some p \<Longrightarrow> sem s < workerCount \<Longrightarrow>
          step s (s\<lparr>waiting := None, sem := sem s + 1, workers := workers s @ [(p, Spawned)]\<rparr>)"
| start: "workers s = before @ (p, Spawned) # after \<Longrightarrow>
          step s (s\<lparr>workers := before @ (p, Running) # after\<rparr>)"
| finish: "workers s = before @ (p, Running) # after \<Longrightarrow>
          step s (s\<lparr>workers := before @ (p, Finished) # after\<rparr>)"
| release: "workers s = before @ (p, Finished) # after \<Longrightarrow> 0 < sem s \<Longrightarrow>
          step s (s\<lparr>sem := sem s - 1, workers := before @ (p, Released) # after\<rparr>)"
| leave: "workers s = before @ (p, Released) # after \<Longrightarrow>
          step s (s\<lparr>wg := wg s - 1, workers := before @ after\<rparr>)"
| close: "queue s = [] \<Longrightarrow> waiting s = None \<Longrightarrow> wg s = 0 \<Longrightarrow> \<not> closed s \<Longrightarrow>
          step s (s\<lparr>closed := True\<rparr>)"

inductive reachable :: "'p list \<Rightarrow> 'p pool \<Rightarrow> bool" where
  at_start: "reachable programs (initPool programs)"
| after_step: "reachable programs s \<Longrightarrow> step s s' \<Longrightarrow> reachable programs s'"

text \<open>
  The pipelines that are active (between their fetching-version message and their
  terminal message), and the goroutines that hold a token.
\<close>

definition active :: "'p pool \<Rightarrow> nat" where
  "active s = length (filter (\<lambda>x. snd x = Running) (workers s))"

definition holding :: "'p pool \<Rightarrow> nat" where
  "holding s = length (filter (\<lambda>x. snd x \<noteq> Released) (workers s))"


section \<open>Example inputs\<close>

text \<open>
  A cooperative environment: no system call is refused, the API reports release
  \<open>v1.0.0\<close>, every download attempt answers with a three-byte body.
\<close>

definition envOK :: env where
  "envOK =
     \<lparr>HOME = ''/home/u'', TMPDIR = ''/tmp'', fault = (\<lambda>t c. None), short_write = 0,
      new_request = (\<lambda>u. None),
      api_get = (\<lambda>u. Inr \<lparr>api_status = 200, api_tag_name = Inr ''v1.0.0''\<rparr>),
      dl_get = (\<lambda>k u. Inr \<lparr>dl_status = 200, dl_content_length = 3, dl_body = ''ELF'',
                             dl_copy_err = None\<rparr>),
      rnd = (\<lambda>k. 42), ctx_done = (\<lambda>k. False), ctx_err = Canceled,
      gzip_NewReader = (\<lambda>b. None), xz_NewReader = (\<lambda>b. None),
      tar_Reader = (\<lambda>c b. ([], None)), zip_OpenReader = (\<lambda>b. Inr [])\<rparr>"

definition emptyWorld :: world where
  "emptyWorld = \<lparr>fs = Map.empty, trace = []\<rparr>"

text \<open>A bin directory where \<open>rg\<close> is a symbolic link, and one where it is a regular file.\<close>

definition linkWorld :: world where
  "linkWorld = \<lparr>fs = [''/home/u/.local/bin/rg'' \<mapsto> Symlink ''/opt/old/rg''], trace = []\<rparr>"

definition fileWorld :: world where
  "fileWorld = \<lparr>fs = [''/home/u/.local/bin/rg'' \<mapsto> Regular ''precious'' 420], trace = []\<rparr>"

definition toolProgram :: Program where
  "toolProgram = \<lparr>Name = ''tool'', Repo = ''o/tool'', AssetPattern = ''tool-{version}'',
                   Packages = [], Bin = []\<rparr>"

text \<open>
  A version file that holds the version followed by a no-break space (\<open>U+00A0\<close>, the
  bytes \<open>0xC2 0xA0\<close>) and a line feed.
\<close>

definition installedWorld :: world where
  "installedWorld =
     \<lparr>fs = [''/home/u/.local/share/tool/.version''
              \<mapsto> Regular (''1.0.0'' @ [CHR 0xC2, CHR 0xA0, CHR 0x0A]) 420],
      trace = []\<rparr>"

definition staleWorld :: world where
  "staleWorld = \<lparr>fs = [''/home/u/.local/share/tool/.version'' \<mapsto> Regular ''0.9.0'' 420],
                     trace = []\<rparr>"

text \<open>
  A release whose tag ends in a no-break space, and a version file that holds exactly
  the version resolved from it.
\<close>

definition envSpaced :: env where
  "envSpaced = envOK\<lparr>api_get := (\<lambda>u. Inr \<lparr>api_status = 200,
                           api_tag_name = Inr (''v1.0.0'' @ [CHR 0xC2, CHR 0xA0])\<rparr>)\<rparr>"

definition spacedWorld :: world where
  "spacedWorld =
     \<lparr>fs = [''/home/u/.local/share/tool/.version''
              \<mapsto> Regular (''1.0.0'' @ [CHR 0xC2, CHR 0xA0]) 420],
      trace = []\<rparr>"

text \<open>An environment that refuses every write of a whole file.\<close>

definition envNoWrite :: env where
  "envNoWrite = envOK\<lparr>fault := (\<lambda>t c. case c of
                             SysWriteFile p content perm \<Rightarrow> Some (OSError ''permission denied'')
                           | _ \<Rightarrow> None)\<rparr>"

definition envFlaky :: env where
  "envFlaky = envOK\<lparr>dl_get := (\<lambda>k u. if k < 2 then Inl (OSError ''connection reset'')
                                    else Inr \<lparr>dl_status = 200, dl_content_length = 3,
                                              dl_body = ''ELF'', dl_copy_err = None\<rparr>)\<rparr>"

definition envDown :: env where
  "envDown = envOK\<lparr>dl_get := (\<lambda>k u. Inl (OSError (if k = 0 then ''first''
                                                  else if k = 1 then ''second'' else ''third'')))\<rparr>"

definition envCancel :: env where
  "envCancel = envDown\<lparr>ctx_done := (\<lambda>k. k = 1)\<rparr>"

definition fourPrograms :: "string list" where
  "fourPrograms = [''bat'', ''fd'', ''fzf'', ''rg'']"

definition busyPool :: "string pool" where
  "busyPool = \<lparr>queue = [], waiting = Some ''rg'', sem = 3, wg = 4,
      workers = [(''bat'', Running), (''fd'', Running), (''fzf'', Running)], closed = False\<rparr>"

definition downloadedWorld :: world where
  "downloadedWorld = \<lparr>fs = [''/tmp/installer-42-tool-1.0.0'' \<mapsto> Regular ''ELF'' 384], trace = []\<rparr>"

text \<open>
  The same download when the install directory already holds a file of that name that
  is not executable (mode 0644, decimal 420).
\<close>

definition overwriteWorld :: world where
  "overwriteWorld =
     \<lparr>fs = [''/tmp/installer-42-tool-1.0.0'' \<mapsto> Regular ''ELF'' 384,
            ''/home/u/.local/share/tool/installer-42-tool-1.0.0'' \<mapsto> Regular ''old'' 420],
      trace = []\<rparr>"

text \<open>
  Four archives of one tree: a directory, an executable and a text file in it, and a
  symbolic link entry. Each library reader accepts the bytes of its own format only.
\<close>

definition rgHeaders :: "tar_header list" where
  "rgHeaders =
     [\<lparr>hdr_Name = ''rg-1/'', hdr_Typeflag = TypeDir, hdr_Mode = 493, hdr_data = [],
       hdr_data_err = None\<rparr>,
      \<lparr>hdr_Name = ''rg-1/rg'', hdr_Typeflag = TypeReg, hdr_Mode = 493, hdr_data = ''ELF'',
       hdr_data_err = None\<rparr>,
      \<lparr>hdr_Name = ''rg-1/README'', hdr_Typeflag = TypeReg, hdr_Mode = 420, hdr_data = ''docs'',
       hdr_data_err = None\<rparr>,
      \<lparr>hdr_Name = ''rg-1/latest'', hdr_Typeflag = TypeOther, hdr_Mode = 511, hdr_data = [],
       hdr_data_err = None\<rparr>]"

definition rgZipFiles :: "zip_file list" where
  "rgZipFiles =
     [\<lparr>zf_Name = ''rg-1/'', zf_IsDir = True, zf_Mode = 493, zf_Open_err = None, zf_data = [],
       zf_data_err = None\<rparr>,
      \<lparr>zf_Name = ''rg-1/rg'', zf_IsDir = False, zf_Mode = 493, zf_Open_err = None,
       zf_data = ''ELF'', zf_data_err = None\<rparr>,
      \<lparr>zf_Name = ''rg-1/README'', zf_IsDir = False, zf_Mode = 420, zf_Open_err = None,
       zf_data = ''docs'', zf_data_err = None\<rparr>]"

definition envArchive :: env where
  "envArchive = envOK
     \<lparr>gzip_NewReader := (\<lambda>b. if b = ''GZ'' then None else Some (OSError ''gzip: invalid header'')),
      xz_NewReader := (\<lambda>b. if b = ''XZ'' then None else Some (OSError ''xz: invalid header'')),
      tar_Reader := (\<lambda>c b. if (c = Gzip \<and> b = ''GZ'') \<or> (c = Xz \<and> b = ''XZ'')
                                  \<or> (c = Bzip2 \<and> b = ''BZ'')
                              then (rgHeaders, None)
                              else ([], Some (OSError ''unexpected EOF''))),
      zip_OpenReader := (\<lambda>b. if b = ''PK'' then Inr rgZipFiles
                                else Inl (OSError ''zip: not a valid zip file''))\<rparr>"

definition archiveWorld :: world where
  "archiveWorld =
     \<lparr>fs = [''/tmp/installer-42-rg.tar.gz'' \<mapsto> Regular ''GZ'' 384,
            ''/tmp/installer-42-rg.txz'' \<mapsto> Regular ''XZ'' 384,
            ''/tmp/installer-42-rg.tar.bz2'' \<mapsto> Regular ''BZ'' 384,
            ''/tmp/installer-42-rg.zip'' \<mapsto> Regular ''PK'' 384],
      trace = []\<rparr>"

text \<open>
  A program with one link whose destination \<open>rg\<close> is taken by a regular file in
  \<open>fileWorld\<close>, and the worlds its pipeline goes through there, stage by stage.
\<close>

definition linkProgram :: Program where
  "linkProgram = \<lparr>Name = ''tool'', Repo = ''o/tool'', AssetPattern = ''tool-{version}'',
                   Packages = [], Bin = [\<lparr>Src = ''installer-42-tool-{version}'', Dst = ''rg''\<rparr>]\<rparr>"

definition run_a :: world where
  "run_a = snd (LatestVersion envOK (NewClient []) (Repo linkProgram)
                  (send (msg linkProgram StateFetchingVersion [] None) fileWorld))"

definition run_b :: world where
  "run_b = snd (os_ReadFile envOK (versionFileOf envOK linkProgram) run_a)"

definition run_c :: world where
  "run_c = snd (downloadWithRetry envOK (downloadURLOf linkProgram ''1.0.0'')
                  (assetNameOf linkProgram ''1.0.0'')
                  (send (msg linkProgram StateDownloading ''1.0.0'' None) run_b))"

definition run_d :: world where
  "run_d = snd (os_MkdirAll envOK (installDirOf envOK linkProgram) 493
                  (send (msg linkProgram StateExtracting ''1.0.0'' None) run_c))"

definition run_e :: world where
  "run_e = snd (Extract envOK ''/tmp/installer-42-tool-1.0.0'' (installDirOf envOK linkProgram) run_d)"

definition run_m :: world where
  "run_m = snd (os_WriteFile envOK (versionFileOf envOK linkProgram) ''1.0.0'' 420 run_e)"

definition run_l :: world where
  "run_l = snd (linkAll envOK linkProgram ''1.0.0'' (Bin linkProgram)
                  (send (msg linkProgram StateLinking ''1.0.0'' None) run_m))"

text \<open>A repository whose release tags carry no \<open>v\<close> (as ripgrep's do).\<close>

definition rgProgram :: Program where
  "rgProgram = \<lparr>Name = ''ripgrep'', Repo = ''BurntSushi/ripgrep'',
                 AssetPattern = ''ripgrep-{version}-x86_64-unknown-linux-musl.tar.gz'',
                 Packages = [],
                 Bin = [\<lparr>Src = ''ripgrep-{version}-x86_64-unknown-linux-musl/rg'', Dst = ''rg''\<rparr>]\<rparr>"

definition envBare :: env where
  "envBare = envOK\<lparr>api_get := (\<lambda>u. Inr \<lparr>api_status = 200, api_tag_name = Inr ''15.1.0''\<rparr>)\<rparr>"


section \<open>Basic facts about the model\<close>

lemma resolve_plain: "(\<And>t. f p \<noteq> Some (Symlink t)) \<Longrightarrow> resolve f n p = Inr p"
  by (cases n) (auto split: option.splits node.splits)

lemma emit_trace [simp]: "trace (emit a w) = trace w @ [a]"
  by (simp add: emit_def)
lemma emit_fs [simp]: "fs (emit a w) = fs w"
  by (simp add: emit_def)
lemma send_trace [simp]: "trace (send m w) = trace w @ [Send m]"
  by (simp add: send_def)
lemma send_fs [simp]: "fs (send m w) = fs w"
  by (simp add: send_def)

lemma os_Lstat_trace [simp]: "trace (snd (os_Lstat e p w)) = trace w @ [Sys (SysLstat p)]"
  by (simp add: os_Lstat_def Let_def split: option.splits)
lemma os_Remove_trace [simp]: "trace (snd (os_Remove e p w)) = trace w @ [Sys (SysRemove p)]"
  by (simp add: os_Remove_def Let_def split: option.splits)
lemma os_Symlink_trace [simp]: "trace (snd (os_Symlink e s p w)) = trace w @ [Sys (SysSymlink s p)]"
  by (simp add: os_Symlink_def Let_def split: option.splits)
lemma os_ReadFile_trace [simp]: "trace (snd (os_ReadFile e p w)) = trace w @ [Sys (SysReadFile p)]"
  by (simp add: os_ReadFile_def Let_def split: option.splits sum.splits node.splits)
lemma os_ReadFile_fs [simp]: "fs (snd (os_ReadFile e p w)) = fs w"
  by (simp add: os_ReadFile_def Let_def split: option.splits sum.splits node.splits)
lemma os_WriteFile_trace [simp]:
  "trace (snd (os_WriteFile e p c m w)) = trace w @ [Sys (SysWriteFile p c m)]"
  by (simp add: os_WriteFile_def Let_def split: option.splits sum.splits node.splits)
lemma os_MkdirAll_trace [simp]:
  "trace (snd (os_MkdirAll e p m w)) = trace w @ [Sys (SysMkdirAll p m)]"
  by (simp add: os_MkdirAll_def Let_def split: option.splits sum.splits node.splits)
lemma os_Open_trace [simp]: "trace (snd (os_Open e p w)) = trace w @ [Sys (SysOpen p)]"
  by (simp add: os_Open_def Let_def split: option.splits sum.splits node.splits)
lemma os_Create_trace [simp]: "trace (snd (os_Create e p m w)) = trace w @ [Sys (SysCreate p m)]"
  by (simp add: os_Create_def Let_def split: option.splits sum.splits node.splits)
lemma io_Copy_trace [simp]: "trace (snd (io_Copy e i out w)) = trace w @ [Sys (SysCopy i out)]"
  by (simp add: io_Copy_def Let_def split: option.splits sum.splits node.splits)

lemma os_ReadFile_world: "snd (os_ReadFile e p w) = emit (Sys (SysReadFile p)) w"
  by (simp add: os_ReadFile_def Let_def split: option.splits sum.splits node.splits)

subsection \<open>proj\<close>

lemma proj_append [simp]: "proj K (xs @ ys) = proj K xs @ proj K ys"
  by (simp add: proj_def)
lemma proj_Nil [simp]: "proj K [] = []"
  by (simp add: proj_def)
lemma proj_Cons: "proj K (a # xs) = (if kindOf a \<in> K then a # proj K xs else proj K xs)"
  by (simp add: proj_def)
lemma proj_single: "proj K [a] = (if kindOf a \<in> K then [a] else [])"
  by (simp add: proj_def)
lemma proj_proj: "K \<subseteq> K' \<Longrightarrow> proj K (proj K' xs) = proj K xs"
  by (induction xs) (auto simp: proj_def)

lemma os_CreateTemp_proj:
  "KFile \<notin> K \<Longrightarrow> proj K (trace (snd (os_CreateTemp e k pat w))) = proj K (trace w)"
  by (simp add: os_CreateTemp_def Let_def proj_single split: option.splits)

lemma LatestVersion_trace:
  "trace (snd (LatestVersion e client repo w)) =
     trace w @ NewRequest (releaseURL client repo)
       # (if new_request e (releaseURL client repo) = None then [HttpGet (releaseURL client repo)] else [])"
  by (simp add: LatestVersion_def Let_def split: option.splits sum.splits)

lemma LatestVersion_fs [simp]: "fs (snd (LatestVersion e client repo w)) = fs w"
  by (simp add: LatestVersion_def Let_def split: option.splits sum.splits)

lemma LatestVersion_ok:
  "LatestVersion e client repo w = (Inr v, w') \<Longrightarrow>
     w' = emit (HttpGet (releaseURL client repo)) (emit (NewRequest (releaseURL client repo)) w)"
  by (auto simp: LatestVersion_def Let_def split: option.splits sum.splits if_splits)

lemma LatestVersion_tag:
  "new_request e (releaseURL client repo) = None \<Longrightarrow>
   api_get e (releaseURL client repo) = Inr resp \<Longrightarrow> api_status resp = 200 \<Longrightarrow>
   api_tag_name resp = Inr tag \<Longrightarrow> trimPrefix tag ''v'' \<noteq> [] \<Longrightarrow>
   LatestVersion e client repo w =
     (Inr (trimPrefix tag ''v''),
      emit (HttpGet (releaseURL client repo)) (emit (NewRequest (releaseURL client repo)) w))"
  by (simp add: LatestVersion_def Let_def)

lemma download_proj:
  "KHttp \<notin> K \<Longrightarrow> KFile \<notin> K \<Longrightarrow>
   proj K (trace (snd (download e k url a w))) = proj K (trace w) @ proj K [NewRequest url]"
  using os_CreateTemp_proj [of K e k "''installer-*-'' @ a" "emit (HttpGet url) (emit (NewRequest url) w)"]
  by (simp add: download_def Let_def split_beta proj_Cons split: option.splits sum.splits)

lemma download_first:
  "\<exists>xs. trace (snd (download e k url a w)) = trace w @ NewRequest url # xs"
  by (simp add: download_def os_CreateTemp_def Let_def split_beta split: option.splits sum.splits)

subsection \<open>the retry loop\<close>

lemma retryLoop_3: "retryLoop e url a (Suc (Suc (Suc 0))) (Some err) w = (Inl err, w)"
  by (simp add: retryLoop.simps)

lemma retryLoop_2:
  "retryLoop e url a (Suc (Suc 0)) l w =
     (if ctx_done e 2 then (Inl (ctx_err e), emit (SleepAborted 2) w)
      else (case download e 2 url a (emit (Slept 2) w) of
              (Inr path, w3) \<Rightarrow> (Inr path, w3)
            | (Inl e2, w3) \<Rightarrow> (Inl e2, w3)))"
  by (subst retryLoop.simps) (simp add: retryLoop_3 numeral_2_eq_2 split: prod.splits sum.splits)

lemma retryLoop_1:
  "retryLoop e url a (Suc 0) l w =
     (if ctx_done e 1 then (Inl (ctx_err e), emit (SleepAborted 1) w)
      else (case download e 1 url a (emit (Slept 1) w) of
              (Inr path, w2) \<Rightarrow> (Inr path, w2)
            | (Inl e1, w2) \<Rightarrow> retryLoop e url a (Suc (Suc 0)) (Some e1) w2))"
  by (subst retryLoop.simps) (simp split: prod.splits sum.splits)

lemma retryLoop_0:
  "retryLoop e url a 0 l w =
     (case download e 0 url a w of
        (Inr path, w1) \<Rightarrow> (Inr path, w1)
      | (Inl e0, w1) \<Rightarrow> retryLoop e url a (Suc 0) (Some e0) w1)"
  by (subst retryLoop.simps) (simp split: prod.splits sum.splits)

lemma downloadWithRetry_unroll:
  "downloadWithRetry e url a w =
    (case download e 0 url a w of
       (Inr path, w1) \<Rightarrow> (Inr path, w1)
     | (Inl e0, w1) \<Rightarrow>
         if ctx_done e 1 then (Inl (ctx_err e), emit (SleepAborted 1) w1)
         else (case download e 1 url a (emit (Slept 1) w1) of
                 (Inr path, w2) \<Rightarrow> (Inr path, w2)
               | (Inl e1, w2) \<Rightarrow>
                   if ctx_done e 2 then (Inl (ctx_err e), emit (SleepAborted 2) w2)
                   else (case download e 2 url a (emit (Slept 2) w2) of
                           (Inr path, w3) \<Rightarrow> (Inr path, w3)
                         | (Inl e2, w3) \<Rightarrow> (Inl e2, w3))))"
  unfolding downloadWithRetry_def retryLoop_0 retryLoop_1 retryLoop_2
  by (simp split: prod.splits sum.splits)

lemma downloadWithRetry_events:
  "\<exists>xs. proj {KRequest, KSleep} (trace (snd (downloadWithRetry e url a w)))
           = proj {KRequest, KSleep} (trace w) @ xs
     \<and> xs \<in> {[NewRequest url],
              [NewRequest url, SleepAborted 1],
              [NewRequest url, Slept 1, NewRequest url],
              [NewRequest url, Slept 1, NewRequest url, SleepAborted 2],
              [NewRequest url, Slept 1, NewRequest url, Slept 2, NewRequest url]}"
proof -
  let ?K = "{KRequest, KSleep}"
  obtain r0 w1 where d0: "download e 0 url a w = (r0, w1)" by (cases "download e 0 url a w")
  obtain r1 w2 where d1: "download e 1 url a (emit (Slept 1) w1) = (r1, w2)"
    by (cases "download e 1 url a (emit (Slept 1) w1)")
  obtain r2 w3 where d2: "download e 2 url a (emit (Slept 2) w2) = (r2, w3)"
    by (cases "download e 2 url a (emit (Slept 2) w2)")
  have t1: "proj ?K (trace w1) = proj ?K (trace w) @ [NewRequest url]"
    using download_proj [of ?K e 0 url a w] d0 by (simp add: proj_Cons)
  have t2: "proj ?K (trace w2) = proj ?K (trace w) @ [NewRequest url, Slept 1, NewRequest url]"
    using download_proj [of ?K e 1 url a "emit (Slept 1) w1"] d1 t1 by (simp add: proj_Cons)
  have t3: "proj ?K (trace w3) =
      proj ?K (trace w) @ [NewRequest url, Slept 1, NewRequest url, Slept 2, NewRequest url]"
    using download_proj [of ?K e 2 url a "emit (Slept 2) w2"] d2 t2 by (simp add: proj_Cons)
  show ?thesis
    using t1 t2 t3 d0 d1 d2
    by (cases r0; cases r1; cases r2) (simp_all add: downloadWithRetry_unroll proj_Cons)
qed

lemma downloadWithRetry_first:
  "\<exists>xs. trace (snd (downloadWithRetry e url a w)) = trace w @ NewRequest url # xs"
proof -
  obtain r0 w1 where d0: "download e 0 url a w = (r0, w1)" by (cases "download e 0 url a w")
  obtain r1 w2 where d1: "download e 1 url a (emit (Slept 1) w1) = (r1, w2)"
    by (cases "download e 1 url a (emit (Slept 1) w1)")
  obtain r2 w3 where d2: "download e 2 url a (emit (Slept 2) w2) = (r2, w3)"
    by (cases "download e 2 url a (emit (Slept 2) w2)")
  obtain xs1 where t1: "trace w1 = trace w @ NewRequest url # xs1"
    using download_first [of e 0 url a w] d0 by auto
  obtain xs2 where t2: "trace w2 = trace w1 @ Slept 1 # NewRequest url # xs2"
    using download_first [of e 1 url a "emit (Slept 1) w1"] d1 by auto
  obtain xs3 where t3: "trace w3 = trace w2 @ Slept 2 # NewRequest url # xs3"
    using download_first [of e 2 url a "emit (Slept 2) w2"] d2 by auto
  show ?thesis
    using t1 t2 t3 d0 d1 d2
    by (cases r0; cases r1; cases r2) (simp_all add: downloadWithRetry_unroll)
qed


subsection \<open>grows\<close>

lemma grows_refl [simp]: "grows w w"
  by (simp add: grows_def)
lemma grows_trans: "grows w w' \<Longrightarrow> grows w' w'' \<Longrightarrow> grows w w''"
  by (auto simp: grows_def)
lemma grows_emit [simp]: "grows w (emit a w)"
  by (simp add: grows_def)
lemma grows_send [simp]: "grows w (send m w)"
  by (simp add: grows_def)
lemma grows_then_send [simp]: "grows w w' \<Longrightarrow> grows w (send m w')"
  by (auto simp: grows_def)
lemma grows_then_emit [simp]: "grows w w' \<Longrightarrow> grows w (emit a w')"
  by (auto simp: grows_def)
lemma grows_by_trace: "trace w' = trace w @ xs \<Longrightarrow> grows w w'"
  by (auto simp: grows_def)

subsection \<open>Link and the loop over the links\<close>

lemma Link_proj:
  "KLink \<notin> K \<Longrightarrow> KFile \<notin> K \<Longrightarrow> proj K (trace (snd (Link e src binDir dst w))) = proj K (trace w)"
  by (simp add: Link_def Let_def split_beta proj_Cons split: sum.splits option.splits)

lemma Link_grows: "grows w (snd (Link e src binDir dst w))"
  by (simp add: Link_def Let_def split_beta grows_def split: sum.splits option.splits)

lemma linkAll_proj:
  "KLink \<notin> K \<Longrightarrow> KFile \<notin> K \<Longrightarrow> KSend \<notin> K \<Longrightarrow>
   proj K (trace (snd (linkAll e p v bs w))) = proj K (trace w)"
  by (induction bs arbitrary: w) (simp_all add: split_beta Link_proj proj_Cons split: option.splits)

lemma linkAll_grows: "grows w (snd (linkAll e p v bs w))"
proof (induction bs arbitrary: w)
  case Nil
  then show ?case by simp
next
  case (Cons b bs)
  let ?w' = "snd (Link e (Join [installDirOf e p, replaceAll (Src b) ''{version}'' v]) (BinPath e) (Dst b) w)"
  have g: "grows w ?w'" by (rule Link_grows)
  show ?case
    using g Cons [of ?w'] grows_trans [of w ?w'] grows_send
    by (auto simp: split_beta split: option.splits)
qed

subsection \<open>Extract\<close>

lemma copyBinary_proj:
  "KFile \<notin> K \<Longrightarrow> proj K (trace (snd (copyBinary e src dst w))) = proj K (trace w)"
  by (simp add: copyBinary_def Let_def split_beta proj_Cons split: sum.splits option.splits)

lemma io_CopyFrom_trace [simp]:
  "trace (snd (io_CopyFrom e src out d r w)) = trace w @ [Sys (SysCopy src out)]"
  by (simp add: io_CopyFrom_def Let_def split: option.splits)

lemma writeEntry_proj:
  "KFile \<notin> K \<Longrightarrow> proj K (trace (snd (writeEntry e src t m d r w))) = proj K (trace w)"
  by (simp add: writeEntry_def split_beta proj_Cons split: sum.splits)

lemma tarLoop_proj:
  "KFile \<notin> K \<Longrightarrow> proj K (trace (snd (tarLoop e src dst hs final w))) = proj K (trace w)"
proof (induction hs arbitrary: w)
  case Nil
  then show ?case by (simp split: option.splits)
next
  case (Cons h hs)
  show ?case
  proof (cases "hdr_Typeflag h")
    case TypeReg
    then show ?thesis
      using Cons writeEntry_proj [of K e src "targetOf dst (hdr_Name h)" "hdr_Mode h" "hdr_data h"
          "hdr_data_err h" "snd (os_MkdirAll e (Dir (targetOf dst (hdr_Name h))) 493 w)"]
      by (simp add: Let_def split_beta proj_Cons split: option.splits)
  next
    case TypeDir
    then show ?thesis using Cons by (simp add: Let_def proj_Cons)
  next
    case TypeOther
    then show ?thesis using Cons by (simp add: Let_def)
  qed
qed

lemma zipLoop_proj:
  "KFile \<notin> K \<Longrightarrow> proj K (trace (snd (zipLoop e src dst fs0 w))) = proj K (trace w)"
proof (induction fs0 arbitrary: w)
  case Nil
  then show ?case by simp
next
  case (Cons f fs0)
  show ?case
    using Cons writeEntry_proj [of K e src "targetOf dst (zf_Name f)" "zf_Mode f" "zf_data f"
        "zf_data_err f" "snd (os_MkdirAll e (Dir (targetOf dst (zf_Name f))) 493 w)"]
    by (simp add: Let_def split_beta proj_Cons split: option.splits)
qed

lemma extractTar_proj:
  "KFile \<notin> K \<Longrightarrow> proj K (trace (snd (extractTar e src dst c w))) = proj K (trace w)"
  by (simp add: extractTar_def split_beta tarLoop_proj proj_Cons split: sum.splits option.splits)

lemma extractZip_proj:
  "KFile \<notin> K \<Longrightarrow> proj K (trace (snd (extractZip e src dst w))) = proj K (trace w)"
  by (simp add: extractZip_def split_beta zipLoop_proj proj_Cons split: sum.splits option.splits)

lemma Extract_proj:
  "KFile \<notin> K \<Longrightarrow> proj K (trace (snd (Extract e src dst w))) = proj K (trace w)"
  by (simp add: Extract_def Let_def copyBinary_proj extractTar_proj extractZip_proj)

lemma copyBinary_grows: "grows w (snd (copyBinary e src dst w))"
  by (simp add: copyBinary_def Let_def split_beta grows_def split: sum.splits option.splits)

lemma writeEntry_grows: "grows w (snd (writeEntry e src t m d r w))"
  by (simp add: writeEntry_def split_beta grows_def split: sum.splits)

lemma os_MkdirAll_grows: "grows w (snd (os_MkdirAll e p m w))"
  by (simp add: grows_def)

lemma tarLoop_grows: "grows w (snd (tarLoop e src dst hs final w))"
proof (induction hs arbitrary: w)
  case Nil
  then show ?case by (simp add: grows_def split: option.splits)
next
  case (Cons h hs)
  let ?t = "targetOf dst (hdr_Name h)"
  let ?w1 = "snd (os_MkdirAll e (Dir ?t) 493 w)"
  let ?w2 = "snd (writeEntry e src ?t (hdr_Mode h) (hdr_data h) (hdr_data_err h) ?w1)"
  have g2: "grows w ?w2"
    using grows_trans [OF os_MkdirAll_grows writeEntry_grows] .
  show ?case
  proof (cases "hdr_Typeflag h")
    case TypeReg
    then show ?thesis
      using g2 grows_trans [OF g2 Cons [of ?w2]]
      by (simp add: Let_def split_beta split: option.splits)
  next
    case TypeDir
    then show ?thesis
      using grows_trans [OF os_MkdirAll_grows Cons] by (simp add: Let_def)
  next
    case TypeOther
    then show ?thesis using Cons by (simp add: Let_def)
  qed
qed

lemma zipLoop_grows: "grows w (snd (zipLoop e src dst fs0 w))"
proof (induction fs0 arbitrary: w)
  case Nil
  then show ?case by (simp add: grows_def)
next
  case (Cons f fs0)
  let ?t = "targetOf dst (zf_Name f)"
  let ?w1 = "snd (os_MkdirAll e (Dir ?t) 493 w)"
  let ?w2 = "snd (writeEntry e src ?t (zf_Mode f) (zf_data f) (zf_data_err f) ?w1)"
  have g1: "grows w ?w1" by (rule os_MkdirAll_grows)
  have g2: "grows w ?w2"
    using grows_trans [OF os_MkdirAll_grows writeEntry_grows] .
  show ?case
    using g1 g2 grows_trans [OF g2 Cons [of ?w2]] grows_trans [OF os_MkdirAll_grows Cons]
    by (simp add: Let_def split_beta split: option.splits)
qed

lemma os_Open_grows: "grows w (snd (os_Open e p w))"
  by (simp add: grows_def)

lemma extractTar_grows: "grows w (snd (extractTar e src dst c w))"
  using os_Open_grows [of w e src] grows_trans [OF os_Open_grows tarLoop_grows]
  by (simp add: extractTar_def split_beta split: sum.splits option.splits)

lemma extractZip_grows: "grows w (snd (extractZip e src dst w))"
  using os_Open_grows [of w e src] grows_trans [OF os_Open_grows zipLoop_grows]
  by (simp add: extractZip_def split_beta split: sum.splits option.splits)

lemma Extract_grows: "grows w (snd (Extract e src dst w))"
  by (simp add: Extract_def Let_def copyBinary_grows extractTar_grows extractZip_grows)

subsection \<open>The pipeline after the download\<close>

lemma extractAndLink_proj:
  "KLink \<notin> K \<Longrightarrow> KFile \<notin> K \<Longrightarrow> KSend \<notin> K \<Longrightarrow>
   proj K (trace (extractAndLink e p v tmp w)) = proj K (trace w)"
  by (simp add: extractAndLink_def split_beta linkAll_proj Extract_proj proj_Cons
      split: option.splits bool.splits)

lemma extractAndLink_first:
  "\<exists>rest. trace (extractAndLink e p v tmp w) = trace w @ Send (msg p StateExtracting v None) # rest"
proof -
  let ?w1 = "send (msg p StateExtracting v None) w"
  let ?w2 = "snd (os_MkdirAll e (installDirOf e p) 493 ?w1)"
  let ?w3 = "snd (Extract e tmp (installDirOf e p) ?w2)"
  let ?w5 = "send (msg p StateLinking v None) (snd (os_WriteFile e (versionFileOf e p) v 420 ?w3))"
  let ?w6 = "snd (linkAll e p v (Bin p) ?w5)"
  have g2: "grows ?w1 ?w2" by (simp add: grows_def)
  have g3: "grows ?w1 ?w3" using g2 Extract_grows grows_trans by blast
  have g5: "grows ?w1 ?w5" using g3 by (auto simp: grows_def)
  have g6: "grows ?w1 ?w6" using g5 linkAll_grows grows_trans by blast
  have "grows ?w1 (extractAndLink e p v tmp w)"
    using g2 g3 g6
    by (simp add: extractAndLink_def split_beta split: option.splits bool.splits)
  then show ?thesis by (auto simp: grows_def)
qed

lemma downloadAndInstall_fail:
  "downloadWithRetry e (downloadURLOf p v) (assetNameOf p v)
     (send (msg p StateDownloading v None)
        (if verbose then emit (Stderr (verboseLine p v)) w else w)) = (Inl err, w3)
   \<Longrightarrow> downloadAndInstall e p verbose v w = send (msg p StateError [] (Some (DownloadFailed err))) w3"
  by (simp add: downloadAndInstall_def)

lemma downloadAndInstall_ok:
  "downloadWithRetry e (downloadURLOf p v) (assetNameOf p v)
     (send (msg p StateDownloading v None)
        (if verbose then emit (Stderr (verboseLine p v)) w else w)) = (Inr tmp, w3)
   \<Longrightarrow> downloadAndInstall e p verbose v w = snd (os_Remove e tmp (extractAndLink e p v tmp w3))"
  by (simp add: downloadAndInstall_def)

lemma downloadAndInstall_extracting:
  assumes "downloadWithRetry e (downloadURLOf p v) (assetNameOf p v)
     (send (msg p StateDownloading v None)
        (if verbose then emit (Stderr (verboseLine p v)) w else w)) = (Inr tmp, w3)"
  shows "\<exists>rest. trace (downloadAndInstall e p verbose v w)
            = trace w3 @ Send (msg p StateExtracting v None) # rest"
  using extractAndLink_first [of e p v tmp w3]
  by (auto simp: downloadAndInstall_ok [OF assms])

lemma downloadAndInstall_first:
  "\<exists>rest. trace (downloadAndInstall e p verbose v w)
      = trace w @ (if verbose then [Stderr (verboseLine p v)] else [])
          @ Send (msg p StateDownloading v None) # NewRequest (downloadURLOf p v) # rest"
proof -
  let ?w2 = "send (msg p StateDownloading v None)
        (if verbose then emit (Stderr (verboseLine p v)) w else w)"
  obtain r w3 where d: "downloadWithRetry e (downloadURLOf p v) (assetNameOf p v) ?w2 = (r, w3)"
    by (cases "downloadWithRetry e (downloadURLOf p v) (assetNameOf p v) ?w2")
  obtain xs where t3: "trace w3 = trace ?w2 @ NewRequest (downloadURLOf p v) # xs"
    using downloadWithRetry_first [of e "downloadURLOf p v" "assetNameOf p v" ?w2] d by auto
  show ?thesis
  proof (cases r)
    case (Inl err)
    then show ?thesis using d t3 by (simp add: downloadAndInstall_def)
  next
    case (Inr tmp)
    obtain rest where "trace (extractAndLink e p v tmp w3)
        = trace w3 @ Send (msg p StateExtracting v None) # rest"
      using extractAndLink_first by blast
    then show ?thesis using Inr d t3 by (simp add: downloadAndInstall_def)
  qed
qed

lemma install_skip:
  "LatestVersion e client (Repo p) (send (msg p StateFetchingVersion [] None) w) = (Inr v, wa) \<Longrightarrow>
   os_ReadFile e (versionFileOf e p) wa = (rd, wb) \<Longrightarrow> upToDate rd v \<Longrightarrow>
   install e client p verbose w = send (msg p StateSkipped v None) wb"
  by (simp add: install_def)

lemma install_go:
  "LatestVersion e client (Repo p) (send (msg p StateFetchingVersion [] None) w) = (Inr v, wa) \<Longrightarrow>
   os_ReadFile e (versionFileOf e p) wa = (rd, wb) \<Longrightarrow> \<not> upToDate rd v \<Longrightarrow>
   install e client p verbose w = downloadAndInstall e p verbose v wb"
  by (simp add: install_def)

lemma downloadWithRetry_requests:
  "\<exists>n. 1 \<le> n \<and> n \<le> 3 \<and>
     proj {KRequest} (trace (snd (downloadWithRetry e url a w)))
       = proj {KRequest} (trace w) @ replicate n (NewRequest url)"
proof -
  obtain xs where x: "proj {KRequest, KSleep} (trace (snd (downloadWithRetry e url a w)))
           = proj {KRequest, KSleep} (trace w) @ xs"
     and s: "xs \<in> {[NewRequest url],
              [NewRequest url, SleepAborted 1],
              [NewRequest url, Slept 1, NewRequest url],
              [NewRequest url, Slept 1, NewRequest url, SleepAborted 2],
              [NewRequest url, Slept 1, NewRequest url, Slept 2, NewRequest url]}"
    using downloadWithRetry_events by blast
  have "proj {KRequest} (trace (snd (downloadWithRetry e url a w)))
      = proj {KRequest} (proj {KRequest, KSleep} (trace (snd (downloadWithRetry e url a w))))"
    by (simp add: proj_proj)
  also have "\<dots> = proj {KRequest} (trace w) @ proj {KRequest} xs"
    by (simp add: x proj_proj)
  finally have p: "proj {KRequest} (trace (snd (downloadWithRetry e url a w)))
      = proj {KRequest} (trace w) @ proj {KRequest} xs" .
  from s consider "proj {KRequest} xs = replicate 1 (NewRequest url)"
    | "proj {KRequest} xs = replicate 2 (NewRequest url)"
    | "proj {KRequest} xs = replicate 3 (NewRequest url)"
    by (auto simp: proj_Cons eval_nat_numeral)
  then show ?thesis
  proof cases
    case 1 then show ?thesis using p by (intro exI [of _ 1]) simp
  next
    case 2 then show ?thesis using p by (intro exI [of _ 2]) simp
  next
    case 3 then show ?thesis using p by (intro exI [of _ 3]) simp
  qed
qed

lemma downloadAndInstall_requests:
  "\<exists>n. 1 \<le> n \<and> n \<le> 3 \<and>
     proj {KRequest} (trace (downloadAndInstall e p verbose v w))
       = proj {KRequest} (trace w) @ replicate n (NewRequest (downloadURLOf p v))"
proof -
  let ?w2 = "send (msg p StateDownloading v None)
        (if verbose then emit (Stderr (verboseLine p v)) w else w)"
  obtain r w3 where d: "downloadWithRetry e (downloadURLOf p v) (assetNameOf p v) ?w2 = (r, w3)"
    by (cases "downloadWithRetry e (downloadURLOf p v) (assetNameOf p v) ?w2")
  obtain n where n: "1 \<le> n" "n \<le> 3"
     "proj {KRequest} (trace w3) = proj {KRequest} (trace ?w2) @ replicate n (NewRequest (downloadURLOf p v))"
    using downloadWithRetry_requests [of e "downloadURLOf p v" "assetNameOf p v" ?w2] d by auto
  have w2: "proj {KRequest} (trace ?w2) = proj {KRequest} (trace w)"
    by (simp add: proj_Cons)
  have "proj {KRequest} (trace (downloadAndInstall e p verbose v w)) = proj {KRequest} (trace w3)"
    using d by (cases r) (simp_all add: downloadAndInstall_def extractAndLink_proj proj_Cons)
  then show ?thesis using n w2 by auto
qed

lemma download_failed_get:
  "new_request e url = None \<Longrightarrow> dl_get e k url = Inl err \<Longrightarrow>
   download e k url a w = (Inl err, emit (HttpGet url) (emit (NewRequest url) w))"
  by (simp add: download_def Let_def)

lemma download_stored:
  "new_request e url = None \<Longrightarrow> dl_get e k url = Inr resp \<Longrightarrow> dl_status resp = 200 \<Longrightarrow>
   dl_content_length resp \<noteq> 0 \<Longrightarrow> dl_copy_err resp = None \<Longrightarrow> CHR ''/'' \<notin> set a \<Longrightarrow>
   (\<And>t. fault e t (SysCreateTemp (TMPDIR e) (''installer-*-'' @ a)) = None) \<Longrightarrow>
   fs w (Join [TMPDIR e, tempName (''installer-*-'' @ a) (showNat (rnd e k))]) = None \<Longrightarrow>
   download e k url a w =
     (Inr (Join [TMPDIR e, tempName (''installer-*-'' @ a) (showNat (rnd e k))]),
      \<lparr>fs = (fs w)(Join [TMPDIR e, tempName (''installer-*-'' @ a) (showNat (rnd e k))]
                     \<mapsto> Regular (dl_body resp) 384),
       trace = trace w @ [NewRequest url, HttpGet url,
                          Sys (SysCreateTemp (TMPDIR e) (''installer-*-'' @ a))]\<rparr>)"
  by (simp add: download_def os_CreateTemp_def faulty_def setContent_def emit_def Let_def)

subsection \<open>The extractor\<close>

lemma hasSuffix_tail:
  assumes "hasSuffix s (a @ b)"
  shows "drop (length s - length b) s = b"
proof -
  from assms have l: "length a + length b \<le> length s"
    and d: "drop (length s - (length a + length b)) s = a @ b"
    by (simp_all add: hasSuffix_def)
  have "drop (length s - length b) s = drop (length a) (drop (length s - (length a + length b)) s)"
    using l by simp
  then show ?thesis by (simp add: d)
qed

lemma tail3_tar_gz: "hasSuffix s ''.tar.gz'' \<Longrightarrow> tail3 s = ''.gz''"
  using hasSuffix_tail [of s "''.tar''" "''.gz''"] by (simp add: tail3_def numeral_3_eq_3)
lemma tail3_tgz: "hasSuffix s ''.tgz'' \<Longrightarrow> tail3 s = ''tgz''"
  using hasSuffix_tail [of s "''.''" "''tgz''"] by (simp add: tail3_def numeral_3_eq_3)
lemma tail3_tar_xz: "hasSuffix s ''.tar.xz'' \<Longrightarrow> tail3 s = ''.xz''"
  using hasSuffix_tail [of s "''.tar''" "''.xz''"] by (simp add: tail3_def numeral_3_eq_3)
lemma tail3_txz: "hasSuffix s ''.txz'' \<Longrightarrow> tail3 s = ''txz''"
  using hasSuffix_tail [of s "''.''" "''txz''"] by (simp add: tail3_def numeral_3_eq_3)
lemma tail3_tar_bz2: "hasSuffix s ''.tar.bz2'' \<Longrightarrow> tail3 s = ''bz2''"
  using hasSuffix_tail [of s "''.tar.''" "''bz2''"] by (simp add: tail3_def numeral_3_eq_3)
lemma tail3_zip: "hasSuffix s ''.zip'' \<Longrightarrow> tail3 s = ''zip''"
  using hasSuffix_tail [of s "''.''" "''zip''"] by (simp add: tail3_def numeral_3_eq_3)

lemmas tail3_suffixes = tail3_tar_gz tail3_tgz tail3_tar_xz tail3_txz tail3_tar_bz2 tail3_zip

lemma copyBinary_fresh:
  assumes "fs w src = Some (Regular c m)"
    and "fs w (Join [dst, Base src]) = None"
    and "\<And>t. fault e t (SysOpen src) = None"
    and "\<And>t. fault e t (SysCreate (Join [dst, Base src]) 493) = None"
    and "\<And>t. fault e t (SysCopy src (Join [dst, Base src])) = None"
  shows "copyBinary e src dst w =
     (None, \<lparr>fs = (fs w)(Join [dst, Base src] \<mapsto> Regular c 493),
             trace = trace w @ [Sys (SysOpen src), Sys (SysCreate (Join [dst, Base src]) 493),
                                Sys (SysCopy src (Join [dst, Base src]))]\<rparr>)"
proof -
  have ne: "src \<noteq> Join [dst, Base src]" using assms(1,2) by auto
  show ?thesis
    using assms ne
    by (simp add: copyBinary_def os_Open_def os_Create_def io_Copy_def faulty_def resolve_plain
        setContent_def emit_def Let_def)
qed

subsection \<open>The version file and the links\<close>

lemma os_WriteFile_plain:
  "os_WriteFile e p c perm w = (None, w') \<Longrightarrow> (\<And>t. fs w p \<noteq> Some (Symlink t)) \<Longrightarrow>
   \<exists>m. fs w' p = Some (Regular c m)"
  by (auto simp: os_WriteFile_def Let_def resolve_plain split: option.splits node.splits)

lemma os_ReadFile_regular:
  "fs w p = Some (Regular c m) \<Longrightarrow> (\<And>t. fault e t (SysReadFile p) = None) \<Longrightarrow>
   os_ReadFile e p w = (Inr c, emit (Sys (SysReadFile p)) w)"
  by (simp add: os_ReadFile_def faulty_def resolve_plain Let_def)

lemma os_ReadFile_missing:
  "fs w p = None \<Longrightarrow> (\<And>t. fault e t (SysReadFile p) = None) \<Longrightarrow>
   os_ReadFile e p w = (Inl ENOENT, emit (Sys (SysReadFile p)) w)"
  by (simp add: os_ReadFile_def faulty_def resolve_plain Let_def)

lemma os_Remove_other: "q \<noteq> p \<Longrightarrow> fs (snd (os_Remove e p w)) q = fs w q"
  by (simp add: os_Remove_def Let_def split: option.splits)

lemma Link_keeps_other_nodes:
  "fs w q = Some n \<Longrightarrow> \<not> isSymlink n \<Longrightarrow> fs (snd (Link e src binDir dst w)) q = Some n"
  by (auto simp: Link_def os_Lstat_def os_Symlink_def os_Remove_def emit_def isSymlink_def
      Let_def split: option.splits sum.splits prod.splits node.splits)

lemma linkAll_keeps_other_nodes:
  "fs w q = Some n \<Longrightarrow> \<not> isSymlink n \<Longrightarrow> fs (snd (linkAll e p v bs w)) q = Some n"
proof (induction bs arbitrary: w)
  case Nil
  then show ?case by simp
next
  case (Cons b bs)
  let ?w' = "snd (Link e (Join [installDirOf e p, replaceAll (Src b) ''{version}'' v]) (BinPath e) (Dst b) w)"
  have k: "fs ?w' q = Some n" using Cons.prems by (rule Link_keeps_other_nodes)
  show ?case using k Cons.IH [OF k Cons.prems(2)]
    by (simp add: split_beta split: option.splits)
qed

lemma linkAll_failed:
  "linkAll e p v bs w = (False, w') \<Longrightarrow>
   \<exists>b err w''. b \<in> set bs \<and> w' = send (msg p StateError [] (Some (LinkFailed (Dst b) err))) w''"
proof (induction bs arbitrary: w)
  case Nil
  then show ?case by simp
next
  case (Cons b bs)
  obtain r w1 where l: "Link e (Join [installDirOf e p, replaceAll (Src b) ''{version}'' v])
      (BinPath e) (Dst b) w = (r, w1)"
    by (cases "Link e (Join [installDirOf e p, replaceAll (Src b) ''{version}'' v]) (BinPath e) (Dst b) w")
  show ?case
  proof (cases r)
    case None
    then have "linkAll e p v bs w1 = (False, w')" using Cons.prems l by simp
    then obtain b' err w'' where "b' \<in> set bs"
      and "w' = send (msg p StateError [] (Some (LinkFailed (Dst b') err))) w''"
      using Cons.IH by blast
    then show ?thesis by (intro exI [of _ b'] exI [of _ err] exI [of _ w'']) simp
  next
    case (Some err)
    then have "w' = send (msg p StateError [] (Some (LinkFailed (Dst b) err))) w1"
      using Cons.prems l by simp
    then show ?thesis by (intro exI [of _ b] exI [of _ err] exI [of _ w1]) simp
  qed
qed

lemma downloadWithRetry_proj:
  assumes "KRequest \<notin> K" and "KHttp \<notin> K" and "KFile \<notin> K" and "KSleep \<notin> K"
  shows "proj K (trace (snd (downloadWithRetry e url a w))) = proj K (trace w)"
proof -
  obtain r0 w1 where d0: "download e 0 url a w = (r0, w1)" by (cases "download e 0 url a w")
  obtain r1 w2 where d1: "download e 1 url a (emit (Slept 1) w1) = (r1, w2)"
    by (cases "download e 1 url a (emit (Slept 1) w1)")
  obtain r2 w3 where d2: "download e 2 url a (emit (Slept 2) w2) = (r2, w3)"
    by (cases "download e 2 url a (emit (Slept 2) w2)")
  have t1: "proj K (trace w1) = proj K (trace w)"
    using download_proj [of K e 0 url a w] d0 assms by (simp add: proj_Cons)
  have t2: "proj K (trace w2) = proj K (trace w)"
    using download_proj [of K e 1 url a "emit (Slept 1) w1"] d1 t1 assms by (simp add: proj_Cons)
  have t3: "proj K (trace w3) = proj K (trace w)"
    using download_proj [of K e 2 url a "emit (Slept 2) w2"] d2 t2 assms by (simp add: proj_Cons)
  show ?thesis
    using t1 t2 t3 d0 d1 d2 assms
    by (cases r0; cases r1; cases r2) (simp_all add: downloadWithRetry_unroll proj_Cons)
qed



lemma pair_of_parts: "fst x = a \<Longrightarrow> snd x = b \<Longrightarrow> x = (a, b)"
  by auto

subsection \<open>Unpacking an archive\<close>

lemma os_MkdirAll_fs:
  "fs (snd (os_MkdirAll e p m w)) q = fs w q
   \<or> (fs w q = None \<and> fs (snd (os_MkdirAll e p m w)) q = Some Directory)"
  by (auto simp: os_MkdirAll_def Let_def emit_def split: option.splits node.splits sum.splits)

lemma os_MkdirAll_notSymlinkAt:
  "notSymlinkAt (fs w) q \<Longrightarrow> notSymlinkAt (fs (snd (os_MkdirAll e p m w))) q"
  using os_MkdirAll_fs [of e p m w q] by (auto simp: notSymlinkAt_def split: option.splits node.splits)

lemma notSymlinkAt_resolve: "notSymlinkAt f p \<Longrightarrow> resolve f n p = Inr p"
  by (rule resolve_plain) (auto simp: notSymlinkAt_def)

lemma writeEntry_other:
  "notSymlinkAt (fs w) t \<Longrightarrow> q \<noteq> t \<Longrightarrow> fs (snd (writeEntry e src t m d r w)) q = fs w q"
  by (auto simp: writeEntry_def os_Create_def io_CopyFrom_def setContent_def Let_def emit_def
        notSymlinkAt_resolve split: option.splits node.splits sum.splits)

lemma writeEntry_written:
  "notSymlinkAt (fs w) t \<Longrightarrow> fst (writeEntry e src t m d r w) = None \<Longrightarrow>
   fs (snd (writeEntry e src t m d r w)) t = Some (Regular d (modeAfter (fs w t) m))
   \<and> fs w t \<noteq> Some Directory"
  by (auto simp: writeEntry_def os_Create_def io_CopyFrom_def setContent_def Let_def emit_def
        notSymlinkAt_resolve modeAfter_def notSymlinkAt_def split: option.splits node.splits sum.splits)

lemma writeEntry_target:
  "notSymlinkAt (fs w) t \<Longrightarrow> notSymlinkAt (fs (snd (writeEntry e src t m d r w))) t"
  by (auto simp: writeEntry_def os_Create_def io_CopyFrom_def setContent_def Let_def emit_def
        notSymlinkAt_resolve notSymlinkAt_def split: option.splits node.splits sum.splits)

lemma grownOutside_refl: "grownOutside X f f"
  by (simp add: grownOutside_def)

lemma grownOutside_trans:
  "grownOutside X f f' \<Longrightarrow> grownOutside X f' f'' \<Longrightarrow> grownOutside X f f''"
  unfolding grownOutside_def by (metis option.distinct(1))

lemma grownOutside_mono: "grownOutside X f f' \<Longrightarrow> X \<subseteq> Y \<Longrightarrow> grownOutside Y f f'"
  unfolding grownOutside_def by blast

lemma grownOutside_mkdir: "grownOutside X (fs w) (fs (snd (os_MkdirAll e p m w)))"
  unfolding grownOutside_def using os_MkdirAll_fs by blast

lemma grownOutside_notSymlinkAt:
  "grownOutside X f f' \<Longrightarrow> p \<notin> X \<Longrightarrow> notSymlinkAt f p \<Longrightarrow> notSymlinkAt f' p"
  unfolding grownOutside_def notSymlinkAt_def by (auto split: option.splits node.splits)

text \<open>One regular entry: the parent directory, then the file.\<close>

lemma entry_frame:
  assumes "notSymlinkAt (fs w) t"
  shows "grownOutside {t} (fs w) (fs (snd (writeEntry e src t m d r (snd (os_MkdirAll e p 493 w)))))"
proof -
  let ?w1 = "snd (os_MkdirAll e p 493 w)"
  have n1: "notSymlinkAt (fs ?w1) t" using assms by (rule os_MkdirAll_notSymlinkAt)
  have "grownOutside {t} (fs ?w1) (fs (snd (writeEntry e src t m d r ?w1)))"
    unfolding grownOutside_def using writeEntry_other [OF n1] by auto
  then show ?thesis using grownOutside_trans [OF grownOutside_mkdir] by blast
qed

lemma entry_written:
  assumes "notSymlinkAt (fs w) t"
      and "fst (writeEntry e src t m d r (snd (os_MkdirAll e p 493 w))) = None"
  shows "fs (snd (writeEntry e src t m d r (snd (os_MkdirAll e p 493 w)))) t
           = Some (Regular d (modeAfter (fs w t) m))"
proof -
  let ?w1 = "snd (os_MkdirAll e p 493 w)"
  have n1: "notSymlinkAt (fs ?w1) t" using assms(1) by (rule os_MkdirAll_notSymlinkAt)
  have wr: "fs (snd (writeEntry e src t m d r ?w1)) t = Some (Regular d (modeAfter (fs ?w1 t) m))"
    and nd: "fs ?w1 t \<noteq> Some Directory"
    using writeEntry_written [OF n1 assms(2)] by auto
  have "fs ?w1 t = fs w t" using os_MkdirAll_fs [of e p 493 w t] nd by auto
  then show ?thesis using wr by simp
qed

lemma entry_target:
  "notSymlinkAt (fs w) t \<Longrightarrow>
   notSymlinkAt (fs (snd (writeEntry e src t m d r (snd (os_MkdirAll e p 493 w))))) t"
  by (intro writeEntry_target os_MkdirAll_notSymlinkAt)

lemma targets_tarFiles_Cons:
  "targets dst (tarFiles (h # hs)) =
     (if hdr_Typeflag h = TypeReg then targetOf dst (hdr_Name h) # targets dst (tarFiles hs)
      else targets dst (tarFiles hs))"
  by (simp add: targets_def tarFiles_def)

lemma tarLoop_frame:
  "\<forall>p \<in> set (targets dst (tarFiles hs)). notSymlinkAt (fs w) p \<Longrightarrow>
   grownOutside (set (targets dst (tarFiles hs))) (fs w) (fs (snd (tarLoop e src dst hs final w)))"
proof (induction hs arbitrary: w)
  case Nil
  then show ?case by (simp add: grownOutside_refl split: option.splits)
next
  case (Cons h hs)
  let ?t = "targetOf dst (hdr_Name h)"
  let ?X = "set (targets dst (tarFiles hs))"
  show ?case
  proof (cases "hdr_Typeflag h")
    case TypeReg
    let ?w1 = "snd (writeEntry e src ?t (hdr_Mode h) (hdr_data h) (hdr_data_err h)
                     (snd (os_MkdirAll e (Dir ?t) 493 w)))"
    have nt: "notSymlinkAt (fs w) ?t" using Cons.prems TypeReg by (simp add: targets_tarFiles_Cons)
    have f1: "grownOutside {?t} (fs w) (fs ?w1)" using nt by (rule entry_frame)
    have n1: "\<forall>p \<in> ?X. notSymlinkAt (fs ?w1) p"
    proof
      fix p assume p: "p \<in> ?X"
      show "notSymlinkAt (fs ?w1) p"
      proof (cases "p = ?t")
        case True
        then show ?thesis using entry_target [OF nt] by simp
      next
        case False
        then show ?thesis
          using grownOutside_notSymlinkAt [OF f1, of p] Cons.prems TypeReg p
          by (simp add: targets_tarFiles_Cons)
      qed
    qed
    have f2: "grownOutside ?X (fs ?w1) (fs (snd (tarLoop e src dst hs final ?w1)))"
      using Cons.IH [OF n1] .
    have "grownOutside (insert ?t ?X) (fs w) (fs (snd (tarLoop e src dst hs final ?w1)))"
      using grownOutside_trans [OF grownOutside_mono [OF f1] grownOutside_mono [OF f2]] by blast
    moreover have "grownOutside (insert ?t ?X) (fs w) (fs ?w1)"
      using grownOutside_mono [OF f1] by blast
    ultimately show ?thesis
      using TypeReg by (simp add: Let_def split_beta targets_tarFiles_Cons split: option.splits)
  next
    case TypeDir
    let ?w1 = "snd (os_MkdirAll e ?t 493 w)"
    have n1: "\<forall>p \<in> ?X. notSymlinkAt (fs ?w1) p"
      using Cons.prems TypeDir os_MkdirAll_notSymlinkAt by (simp add: targets_tarFiles_Cons)
    show ?thesis
      using TypeDir grownOutside_trans [OF grownOutside_mkdir Cons.IH [OF n1]]
      by (simp add: Let_def targets_tarFiles_Cons)
  next
    case TypeOther
    then show ?thesis using Cons by (simp add: Let_def targets_tarFiles_Cons)
  qed
qed

lemma tarLoop_unpacked:
  "fst (tarLoop e src dst hs final w) = None \<Longrightarrow>
   distinct (targets dst (tarFiles hs)) \<Longrightarrow>
   \<forall>p \<in> set (targets dst (tarFiles hs)). notSymlinkAt (fs w) p \<Longrightarrow>
   unpacked dst (tarFiles hs) (fs w) (fs (snd (tarLoop e src dst hs final w)))"
proof (induction hs arbitrary: w)
  case Nil
  then show ?case by (simp add: unpacked_def tarFiles_def)
next
  case (Cons h hs)
  let ?t = "targetOf dst (hdr_Name h)"
  let ?X = "set (targets dst (tarFiles hs))"
  show ?case
  proof (cases "hdr_Typeflag h")
    case TypeReg
    let ?w1 = "snd (writeEntry e src ?t (hdr_Mode h) (hdr_data h) (hdr_data_err h)
                     (snd (os_MkdirAll e (Dir ?t) 493 w)))"
    let ?w' = "snd (tarLoop e src dst hs final ?w1)"
    have nt: "notSymlinkAt (fs w) ?t" using Cons.prems TypeReg by (simp add: targets_tarFiles_Cons)
    have tX: "?t \<notin> ?X" and dX: "distinct (targets dst (tarFiles hs))"
      using Cons.prems(2) TypeReg by (simp_all add: targets_tarFiles_Cons)
    have ok1: "fst (writeEntry e src ?t (hdr_Mode h) (hdr_data h) (hdr_data_err h)
                     (snd (os_MkdirAll e (Dir ?t) 493 w))) = None"
      and ok2: "fst (tarLoop e src dst hs final ?w1) = None"
      and res: "snd (tarLoop e src dst (h # hs) final w) = ?w'"
      using Cons.prems(1) TypeReg by (auto simp: Let_def split_beta split: option.splits)
    have f1: "grownOutside {?t} (fs w) (fs ?w1)" using nt by (rule entry_frame)
    have n1: "\<forall>p \<in> ?X. notSymlinkAt (fs ?w1) p"
    proof
      fix p assume p: "p \<in> ?X"
      then have "p \<noteq> ?t" using tX by auto
      then show "notSymlinkAt (fs ?w1) p"
        using grownOutside_notSymlinkAt [OF f1, of p] Cons.prems(3) TypeReg p
        by (simp add: targets_tarFiles_Cons)
    qed
    have u2: "unpacked dst (tarFiles hs) (fs ?w1) (fs ?w')"
      using Cons.IH [OF ok2 dX n1] .
    have here: "fs ?w1 ?t = Some (Regular (hdr_data h) (modeAfter (fs w ?t) (hdr_Mode h)))"
      using entry_written [OF nt ok1] .
    have f2: "grownOutside ?X (fs ?w1) (fs ?w')" using tarLoop_frame [OF n1] .
    have kept: "fs ?w' ?t = Some (Regular (hdr_data h) (modeAfter (fs w ?t) (hdr_Mode h)))"
      using f2 tX here unfolding grownOutside_def by auto
    have later: "fs ?w' (targetOf dst (fst x))
          = Some (Regular (snd (snd x)) (modeAfter (fs w (targetOf dst (fst x))) (fst (snd x))))"
      if x: "x \<in> set (tarFiles hs)" for x
    proof -
      let ?p = "targetOf dst (fst x)"
      have pX: "?p \<in> ?X" using x by (auto simp: targets_def)
      then have ne: "?p \<noteq> ?t" using tX by auto
      have a: "fs ?w' ?p = Some (Regular (snd (snd x)) (modeAfter (fs ?w1 ?p) (fst (snd x))))"
        using u2 x by (auto simp: unpacked_def)
      have "fs ?w1 ?p = fs w ?p \<or> (fs w ?p = None \<and> fs ?w1 ?p = Some Directory)"
        using f1 ne unfolding grownOutside_def by auto
      then have "modeAfter (fs ?w1 ?p) (fst (snd x)) = modeAfter (fs w ?p) (fst (snd x))"
        by (auto simp: modeAfter_def)
      then show ?thesis using a by simp
    qed
    show ?thesis
      unfolding res unpacked_def using kept later TypeReg by (auto simp: tarFiles_def)
  next
    case TypeDir
    let ?w1 = "snd (os_MkdirAll e ?t 493 w)"
    let ?w' = "snd (tarLoop e src dst hs final ?w1)"
    have ok2: "fst (tarLoop e src dst hs final ?w1) = None"
      and res: "snd (tarLoop e src dst (h # hs) final w) = ?w'"
      using Cons.prems(1) TypeDir by (auto simp: Let_def)
    have dX: "distinct (targets dst (tarFiles hs))"
      using Cons.prems(2) TypeDir by (simp add: targets_tarFiles_Cons)
    have n1: "\<forall>p \<in> ?X. notSymlinkAt (fs ?w1) p"
      using Cons.prems(3) TypeDir os_MkdirAll_notSymlinkAt by (simp add: targets_tarFiles_Cons)
    have u2: "unpacked dst (tarFiles hs) (fs ?w1) (fs ?w')"
      using Cons.IH [OF ok2 dX n1] .
    have "modeAfter (fs ?w1 p) m = modeAfter (fs w p) m" for p m
      using os_MkdirAll_fs [of e ?t 493 w p] by (auto simp: modeAfter_def)
    then show ?thesis
      unfolding res using u2 TypeDir by (auto simp: unpacked_def tarFiles_def)
  next
    case TypeOther
    then show ?thesis using Cons by (simp add: Let_def tarFiles_def targets_def)
  qed
qed

lemma targets_zipFiles_Cons:
  "targets dst (zipFiles (f # fs0)) =
     (if zf_IsDir f then targets dst (zipFiles fs0)
      else targetOf dst (zf_Name f) # targets dst (zipFiles fs0))"
  by (simp add: targets_def zipFiles_def)

lemma zipLoop_frame:
  "\<forall>p \<in> set (targets dst (zipFiles fs0)). notSymlinkAt (fs w) p \<Longrightarrow>
   grownOutside (set (targets dst (zipFiles fs0))) (fs w) (fs (snd (zipLoop e src dst fs0 w)))"
proof (induction fs0 arbitrary: w)
  case Nil
  then show ?case by (simp add: grownOutside_refl)
next
  case (Cons f fs0)
  let ?t = "targetOf dst (zf_Name f)"
  let ?X = "set (targets dst (zipFiles fs0))"
  show ?case
  proof (cases "zf_IsDir f")
    case True
    let ?w1 = "snd (os_MkdirAll e ?t 493 w)"
    have n1: "\<forall>p \<in> ?X. notSymlinkAt (fs ?w1) p"
      using Cons.prems True os_MkdirAll_notSymlinkAt by (simp add: targets_zipFiles_Cons)
    show ?thesis
      using True grownOutside_trans [OF grownOutside_mkdir Cons.IH [OF n1]]
      by (simp add: Let_def targets_zipFiles_Cons)
  next
    case False
    let ?w0 = "snd (os_MkdirAll e (Dir ?t) 493 w)"
    let ?w1 = "snd (writeEntry e src ?t (zf_Mode f) (zf_data f) (zf_data_err f) ?w0)"
    have nt: "notSymlinkAt (fs w) ?t" using Cons.prems False by (simp add: targets_zipFiles_Cons)
    have f0: "grownOutside (insert ?t ?X) (fs w) (fs ?w0)" by (rule grownOutside_mkdir)
    have f1: "grownOutside {?t} (fs w) (fs ?w1)" using nt by (rule entry_frame)
    have n1: "\<forall>p \<in> ?X. notSymlinkAt (fs ?w1) p"
    proof
      fix p assume p: "p \<in> ?X"
      show "notSymlinkAt (fs ?w1) p"
      proof (cases "p = ?t")
        case True
        then show ?thesis using entry_target [OF nt] by simp
      next
        case ne: False
        then show ?thesis
          using grownOutside_notSymlinkAt [OF f1, of p] Cons.prems False p
          by (simp add: targets_zipFiles_Cons)
      qed
    qed
    have f2: "grownOutside ?X (fs ?w1) (fs (snd (zipLoop e src dst fs0 ?w1)))"
      using Cons.IH [OF n1] .
    have "grownOutside (insert ?t ?X) (fs w) (fs (snd (zipLoop e src dst fs0 ?w1)))"
      using grownOutside_trans [OF grownOutside_mono [OF f1] grownOutside_mono [OF f2]] by blast
    moreover have "grownOutside (insert ?t ?X) (fs w) (fs ?w1)"
      using grownOutside_mono [OF f1] by blast
    ultimately show ?thesis
      using False f0
      by (simp add: Let_def split_beta targets_zipFiles_Cons split: option.splits)
  qed
qed

lemma zipLoop_unpacked:
  "fst (zipLoop e src dst fs0 w) = None \<Longrightarrow>
   distinct (targets dst (zipFiles fs0)) \<Longrightarrow>
   \<forall>p \<in> set (targets dst (zipFiles fs0)). notSymlinkAt (fs w) p \<Longrightarrow>
   unpacked dst (zipFiles fs0) (fs w) (fs (snd (zipLoop e src dst fs0 w)))"
proof (induction fs0 arbitrary: w)
  case Nil
  then show ?case by (simp add: unpacked_def zipFiles_def)
next
  case (Cons f fs0)
  let ?t = "targetOf dst (zf_Name f)"
  let ?X = "set (targets dst (zipFiles fs0))"
  show ?case
  proof (cases "zf_IsDir f")
    case False
    let ?w1 = "snd (writeEntry e src ?t (zf_Mode f) (zf_data f) (zf_data_err f)
                     (snd (os_MkdirAll e (Dir ?t) 493 w)))"
    let ?w' = "snd (zipLoop e src dst fs0 ?w1)"
    have nt: "notSymlinkAt (fs w) ?t" using Cons.prems False by (simp add: targets_zipFiles_Cons)
    have tX: "?t \<notin> ?X" and dX: "distinct (targets dst (zipFiles fs0))"
      using Cons.prems(2) False by (simp_all add: targets_zipFiles_Cons)
    have ok1: "fst (writeEntry e src ?t (zf_Mode f) (zf_data f) (zf_data_err f)
                     (snd (os_MkdirAll e (Dir ?t) 493 w))) = None"
      and ok2: "fst (zipLoop e src dst fs0 ?w1) = None"
      and res: "snd (zipLoop e src dst (f # fs0) w) = ?w'"
      using Cons.prems(1) False by (auto simp: Let_def split_beta split: option.splits)
    have f1: "grownOutside {?t} (fs w) (fs ?w1)" using nt by (rule entry_frame)
    have n1: "\<forall>p \<in> ?X. notSymlinkAt (fs ?w1) p"
    proof
      fix p assume p: "p \<in> ?X"
      then have "p \<noteq> ?t" using tX by auto
      then show "notSymlinkAt (fs ?w1) p"
        using grownOutside_notSymlinkAt [OF f1, of p] Cons.prems(3) False p
        by (simp add: targets_zipFiles_Cons)
    qed
    have u2: "unpacked dst (zipFiles fs0) (fs ?w1) (fs ?w')"
      using Cons.IH [OF ok2 dX n1] .
    have here: "fs ?w1 ?t = Some (Regular (zf_data f) (modeAfter (fs w ?t) (zf_Mode f)))"
      using entry_written [OF nt ok1] .
    have f2: "grownOutside ?X (fs ?w1) (fs ?w')" using zipLoop_frame [OF n1] .
    have kept: "fs ?w' ?t = Some (Regular (zf_data f) (modeAfter (fs w ?t) (zf_Mode f)))"
      using f2 tX here unfolding grownOutside_def by auto
    have later: "fs ?w' (targetOf dst (fst x))
          = Some (Regular (snd (snd x)) (modeAfter (fs w (targetOf dst (fst x))) (fst (snd x))))"
      if x: "x \<in> set (zipFiles fs0)" for x
    proof -
      let ?p = "targetOf dst (fst x)"
      have pX: "?p \<in> ?X" using x by (auto simp: targets_def)
      then have ne: "?p \<noteq> ?t" using tX by auto
      have a: "fs ?w' ?p = Some (Regular (snd (snd x)) (modeAfter (fs ?w1 ?p) (fst (snd x))))"
        using u2 x by (auto simp: unpacked_def)
      have "fs ?w1 ?p = fs w ?p \<or> (fs w ?p = None \<and> fs ?w1 ?p = Some Directory)"
        using f1 ne unfolding grownOutside_def by auto
      then have "modeAfter (fs ?w1 ?p) (fst (snd x)) = modeAfter (fs w ?p) (fst (snd x))"
        by (auto simp: modeAfter_def)
      then show ?thesis using a by simp
    qed
    show ?thesis
      unfolding res unpacked_def using kept later False by (auto simp: zipFiles_def)
  next
    case True
    let ?w1 = "snd (os_MkdirAll e ?t 493 w)"
    let ?w' = "snd (zipLoop e src dst fs0 ?w1)"
    have ok2: "fst (zipLoop e src dst fs0 ?w1) = None"
      and res: "snd (zipLoop e src dst (f # fs0) w) = ?w'"
      using Cons.prems(1) True by (auto simp: Let_def)
    have dX: "distinct (targets dst (zipFiles fs0))"
      using Cons.prems(2) True by (simp add: targets_zipFiles_Cons)
    have n1: "\<forall>p \<in> ?X. notSymlinkAt (fs ?w1) p"
      using Cons.prems(3) True os_MkdirAll_notSymlinkAt by (simp add: targets_zipFiles_Cons)
    have u2: "unpacked dst (zipFiles fs0) (fs ?w1) (fs ?w')"
      using Cons.IH [OF ok2 dX n1] .
    have "modeAfter (fs ?w1 p) m = modeAfter (fs w p) m" for p m
      using os_MkdirAll_fs [of e ?t 493 w p] by (auto simp: modeAfter_def)
    then show ?thesis
      unfolding res using u2 True by (auto simp: unpacked_def zipFiles_def)
  qed
qed

subsection \<open>The archive as a whole\<close>

lemma os_Open_regular:
  "fs w src = Some (Regular b m) \<Longrightarrow>
   os_Open e src w =
     (case faulty e w (SysOpen src) of
        Some err \<Rightarrow> (Inl err, emit (Sys (SysOpen src)) w)
      | None \<Rightarrow> (Inr src, emit (Sys (SysOpen src)) w))"
  by (simp add: os_Open_def Let_def resolve_plain split: option.splits)


lemma extractTar_unpacked:
  assumes src: "fs w src = Some (Regular bytes m)"
      and ok: "fst (extractTar e src dst c w) = None"
      and k: "c = ''gz'' \<and> k = Gzip \<or> c = ''bz2'' \<and> k = Bzip2 \<or> c = ''xz'' \<and> k = Xz"
      and sep: "separate src dst (tarFiles (fst (tar_Reader e k bytes))) (fs w)"
  shows "unpacked dst (tarFiles (fst (tar_Reader e k bytes))) (fs w) (fs (snd (extractTar e src dst c w)))
       \<and> grownOutside (set (targets dst (tarFiles (fst (tar_Reader e k bytes))))) (fs w)
           (fs (snd (extractTar e src dst c w)))"
proof -
  let ?w1 = "emit (Sys (SysOpen src)) w"
  let ?hs = "fst (tar_Reader e k bytes)"
  have r: "openReader e c (Inr bytes) = Inr (Some k)"
    using src ok k
    by (auto simp: extractTar_def os_Open_regular readAll_def openReader_def
          split: option.splits sum.splits if_splits)
  have run: "extractTar e src dst c w = tarLoop e src dst ?hs (snd (tar_Reader e k bytes)) ?w1"
    using src ok r
    by (auto simp: extractTar_def os_Open_regular readAll_def split: option.splits sum.splits)
  have ok': "fst (tarLoop e src dst ?hs (snd (tar_Reader e k bytes)) ?w1) = None"
    using ok run by simp
  have d: "distinct (targets dst (tarFiles ?hs))"
    and n: "\<forall>p \<in> set (targets dst (tarFiles ?hs)). notSymlinkAt (fs ?w1) p"
    using sep by (simp_all add: separate_def)
  show ?thesis
    unfolding run using tarLoop_unpacked [OF ok' d n] tarLoop_frame [OF n] by simp
qed

lemma extractZip_unpacked:
  assumes src: "fs w src = Some (Regular bytes m)"
      and ok: "fst (extractZip e src dst w) = None"
      and files: "zip_OpenReader e bytes = Inr files"
      and sep: "separate src dst (zipFiles files) (fs w)"
  shows "unpacked dst (zipFiles files) (fs w) (fs (snd (extractZip e src dst w)))
       \<and> grownOutside (set (targets dst (zipFiles files))) (fs w) (fs (snd (extractZip e src dst w)))"
proof -
  let ?w1 = "emit (Sys (SysOpen src)) w"
  have run: "extractZip e src dst w = zipLoop e src dst files ?w1"
    using src ok files
    by (auto simp: extractZip_def os_Open_regular readAll_def split: option.splits sum.splits)
  have ok': "fst (zipLoop e src dst files ?w1) = None"
    using ok run by simp
  have d: "distinct (targets dst (zipFiles files))"
    and n: "\<forall>p \<in> set (targets dst (zipFiles files)). notSymlinkAt (fs ?w1) p"
    using sep by (simp_all add: separate_def)
  show ?thesis
    unfolding run using zipLoop_unpacked [OF ok' d n] zipLoop_frame [OF n] by simp
qed

lemma tarLoop_final: "fst (tarLoop e src dst hs final w) = None \<Longrightarrow> final = None"
proof (induction hs arbitrary: w)
  case Nil
  then show ?case by (simp split: option.splits)
next
  case (Cons h hs)
  then show ?case
    by (cases "hdr_Typeflag h") (auto simp: Let_def split_beta split: option.splits)
qed

lemma extractTar_accepted:
  assumes src: "fs w src = Some (Regular bytes m)"
      and ok: "fst (extractTar e src dst c w) = None"
      and k: "c = ''gz'' \<and> k = Gzip \<or> c = ''bz2'' \<and> k = Bzip2 \<or> c = ''xz'' \<and> k = Xz"
  shows "(c = ''gz'' \<longrightarrow> gzip_NewReader e bytes = None)
       \<and> (c = ''xz'' \<longrightarrow> xz_NewReader e bytes = None)
       \<and> snd (tar_Reader e k bytes) = None"
proof -
  let ?w1 = "emit (Sys (SysOpen src)) w"
  have r: "openReader e c (Inr bytes) = Inr (Some k)"
    using src ok k
    by (auto simp: extractTar_def os_Open_regular readAll_def openReader_def
          split: option.splits sum.splits if_splits)
  have run: "extractTar e src dst c w
              = tarLoop e src dst (fst (tar_Reader e k bytes)) (snd (tar_Reader e k bytes)) ?w1"
    using src ok r
    by (auto simp: extractTar_def os_Open_regular readAll_def split: option.splits sum.splits)
  have "snd (tar_Reader e k bytes) = None"
    using ok run tarLoop_final by simp
  moreover have "c = ''gz'' \<longrightarrow> gzip_NewReader e bytes = None"
    using r by (auto simp: openReader_def split: option.splits)
  moreover have "c = ''xz'' \<longrightarrow> xz_NewReader e bytes = None"
    using r by (auto simp: openReader_def split: option.splits if_splits)
  ultimately show ?thesis by simp
qed

lemma extractZip_accepted:
  assumes src: "fs w src = Some (Regular bytes m)"
      and ok: "fst (extractZip e src dst w) = None"
  shows "\<exists>files. zip_OpenReader e bytes = Inr files"
  using src ok
  by (auto simp: extractZip_def os_Open_regular readAll_def split: option.splits sum.splits)

subsection \<open>The raw copy\<close>

lemma copyBinary_over:
  "fs w src = Some (Regular c m) \<Longrightarrow> fs w (Join [dst, Base src]) = Some (Regular c0 m0) \<Longrightarrow>
   Join [dst, Base src] \<noteq> src \<Longrightarrow>
   (\<And>t. fault e t (SysOpen src) = None) \<Longrightarrow>
   (\<And>t. fault e t (SysCreate (Join [dst, Base src]) 493) = None) \<Longrightarrow>
   (\<And>t. fault e t (SysCopy src (Join [dst, Base src])) = None) \<Longrightarrow>
   copyBinary e src dst w =
     (None, \<lparr>fs = (fs w)(Join [dst, Base src] \<mapsto> Regular c m0),
             trace = trace w @ [Sys (SysOpen src), Sys (SysCreate (Join [dst, Base src]) 493),
                                Sys (SysCopy src (Join [dst, Base src]))]\<rparr>)"
  by (simp add: copyBinary_def os_Open_def os_Create_def io_Copy_def faulty_def setContent_def
        emit_def Let_def resolve_plain)

subsection \<open>The temporary file and the version file\<close>

text \<open>
  The last element of a joined path is the last argument of \<open>Join\<close> when that is a
  plain name. The base name of the temporary file starts with \<open>installer-\<close>, the base
  name of the version file is \<open>.version\<close>: the two paths differ.
\<close>

lemma splitSlash_nonempty: "splitSlash s \<noteq> []"
  by (induction s) (auto split: list.splits)

lemma splitSlash_plain: "CHR ''/'' \<notin> set n \<Longrightarrow> splitSlash n = [n]"
  by (induction n) auto

lemma splitSlash_append:
  "splitSlash (x @ CHR ''/'' # y) = splitSlash x @ splitSlash y"
  using splitSlash_nonempty by (induction x) (auto split: list.splits)

lemma joinSlash_snoc:
  "joinSlash (xs @ [n]) = (if xs = [] then n else joinSlash xs @ CHR ''/'' # n)"
  by (induction xs rule: joinSlash.induct) auto

lemma cleanElems_snoc:
  "n \<noteq> [] \<Longrightarrow> n \<noteq> ''.'' \<Longrightarrow> n \<noteq> ''..'' \<Longrightarrow>
   \<exists>kept. cleanElems rooted acc (es @ [n]) = kept @ [n]"
  by (induction es arbitrary: acc) (auto split: list.splits)

lemma Clean_last:
  assumes "splitSlash p = es @ [n]" "n \<noteq> []" "n \<noteq> ''.''" "n \<noteq> ''..''"
  shows "\<exists>pre. Clean p = pre @ n \<and> (pre = [] \<or> last pre = CHR ''/'')"
proof -
  obtain kept where k: "cleanElems (hasPrefix p ''/'') [] (splitSlash p) = kept @ [n]"
    using cleanElems_snoc [OF assms(2-4), of "hasPrefix p ''/''" "[]" es] assms(1) by auto
  show ?thesis
  proof (cases "kept = []")
    case True
    then show ?thesis using k assms(2) by (auto simp: Clean_def Let_def)
  next
    case False
    then have "joinSlash (kept @ [n]) = (joinSlash kept @ ''/'') @ n"
      by (simp add: joinSlash_snoc)
    then show ?thesis using k assms(2)
      by (auto simp: Clean_def Let_def intro!: exI [of _ "''/'' @ joinSlash kept @ ''/''"]
            exI [of _ "joinSlash kept @ ''/''"])
  qed
qed

lemma Join_last:
  assumes "CHR ''/'' \<notin> set n" "n \<noteq> []" "n \<noteq> ''.''" "n \<noteq> ''..''"
  shows "\<exists>pre. Join [d, n] = pre @ n \<and> (pre = [] \<or> last pre = CHR ''/'')"
proof (cases "d = []")
  case True
  then have "Join [d, n] = Clean n" using assms(2) by (simp add: Join_def)
  moreover have "splitSlash n = [] @ [n]" using assms(1) by (simp add: splitSlash_plain)
  ultimately show ?thesis using Clean_last assms(2-4) by metis
next
  case False
  then have "Join [d, n] = Clean (d @ CHR ''/'' # n)" by (simp add: Join_def)
  moreover have "splitSlash (d @ CHR ''/'' # n) = splitSlash d @ [n]"
    using assms(1) by (simp add: splitSlash_append splitSlash_plain)
  ultimately show ?thesis using Clean_last assms(2-4) by metis
qed

lemma Base_last:
  assumes "CHR ''/'' \<notin> set n" "n \<noteq> []" "pre = [] \<or> last pre = CHR ''/''"
  shows "Base (pre @ n) = n"
proof -
  have h: "hd (rev n) \<noteq> CHR ''/''" using assms(1,2) by (metis hd_rev last_in_set)
  then have d: "dropWhile (\<lambda>c. c = CHR ''/'') (rev n @ rev pre) = rev n @ rev pre"
    using assms(2) by (cases "rev n") auto
  have t: "takeWhile (\<lambda>c. c \<noteq> CHR ''/'') (rev n @ rev pre) = rev n"
  proof (cases "pre = []")
    case True
    then show ?thesis using assms(1) by (auto simp: takeWhile_eq_all_conv)
  next
    case False
    then have "hd (rev pre) = CHR ''/''" using assms(3) by (simp add: hd_rev)
    then have "takeWhile (\<lambda>c. c \<noteq> CHR ''/'') (rev pre) = []"
      using False by (cases "rev pre") auto
    moreover have "takeWhile (\<lambda>c. c \<noteq> CHR ''/'') (rev n @ rev pre)
                     = rev n @ takeWhile (\<lambda>c. c \<noteq> CHR ''/'') (rev pre)"
      using assms(1) by (intro takeWhile_append2) auto
    ultimately show ?thesis by simp
  qed
  show ?thesis using assms(2) by (simp add: Base_def Let_def d t)
qed

lemma Base_Join:
  "CHR ''/'' \<notin> set n \<Longrightarrow> n \<noteq> [] \<Longrightarrow> n \<noteq> ''.'' \<Longrightarrow> n \<noteq> ''..'' \<Longrightarrow> Base (Join [d, n]) = n"
  using Join_last [of n d] Base_last by metis

lemma digitChar_no_slash: "n < 10 \<Longrightarrow> digitChar n \<noteq> CHR ''/''"
proof -
  assume "n < 10"
  then have "''0123456789'' ! n \<in> set ''0123456789''" by (intro nth_mem) simp
  then show ?thesis by (auto simp: digitChar_def)
qed

lemma showNat_no_slash: "CHR ''/'' \<notin> set (showNat n)"
proof (induction n rule: showNat.induct)
  case (1 n)
  show ?case
  proof (cases "n < 10")
    case True
    then show ?thesis using digitChar_no_slash [of n] by (subst showNat.simps) auto
  next
    case False
    then show ?thesis using 1 digitChar_no_slash [of "n mod 10"]
      by (subst showNat.simps) auto
  qed
qed

lemma tempName_no_slash:
  "CHR ''/'' \<notin> set pattern \<Longrightarrow> CHR ''/'' \<notin> set r \<Longrightarrow> CHR ''/'' \<notin> set (tempName pattern r)"
proof -
  assume p: "CHR ''/'' \<notin> set pattern" and r: "CHR ''/'' \<notin> set r"
  have "set (tl (dropWhile (\<lambda>c. c \<noteq> CHR ''*'') (rev pattern))) \<subseteq> set pattern"
    by (metis list.set_sel(2) set_dropWhileD set_rev subsetI tl_Nil)
  moreover have "set (takeWhile (\<lambda>c. c \<noteq> CHR ''*'') (rev pattern)) \<subseteq> set pattern"
    by (metis set_rev set_takeWhileD subsetI)
  ultimately show ?thesis using p r by (auto simp: tempName_def)
qed

lemma tempName_installer:
  "\<exists>rest. tempName (''installer-*-'' @ a) r = CHR ''i'' # rest"
proof (cases "CHR ''*'' \<in> set a")
  case True
  then have "dropWhile (\<lambda>c. c \<noteq> CHR ''*'') (rev a @ ''-*-rellatsni'')
             = dropWhile (\<lambda>c. c \<noteq> CHR ''*'') (rev a) @ ''-*-rellatsni''"
    by (intro dropWhile_append1 [of "CHR ''*''"]) auto
  moreover have "dropWhile (\<lambda>c. c \<noteq> CHR ''*'') (rev a) \<noteq> []"
    using True by (simp add: dropWhile_eq_Nil_conv)
  ultimately show ?thesis by (simp add: tempName_def)
next
  case False
  then have "dropWhile (\<lambda>c. c \<noteq> CHR ''*'') (rev a @ ''-*-rellatsni'') = ''*-rellatsni''"
    using dropWhile_append2 [of "rev a" "\<lambda>c. c \<noteq> CHR ''*''" "''-*-rellatsni''"] by auto
  then show ?thesis by (simp add: tempName_def)
qed

lemma os_CreateTemp_Base:
  "os_CreateTemp e k (''installer-*-'' @ a) w = (Inr tmp, w') \<Longrightarrow> \<exists>rest. Base tmp = CHR ''i'' # rest"
proof -
  assume c: "os_CreateTemp e k (''installer-*-'' @ a) w = (Inr tmp, w')"
  let ?n = "tempName (''installer-*-'' @ a) (showNat (rnd e k))"
  from c have ns: "CHR ''/'' \<notin> set (''installer-*-'' @ a)"
    by (auto simp: os_CreateTemp_def split: if_splits)
  from c have tmp: "tmp = Join [TMPDIR e, ?n]"
    by (auto simp: os_CreateTemp_def Let_def split: if_splits option.splits)
  obtain rest where rest: "?n = CHR ''i'' # rest" using tempName_installer by blast
  have "CHR ''/'' \<notin> set ?n" using ns showNat_no_slash by (intro tempName_no_slash)
  then have "Base (Join [TMPDIR e, ?n]) = ?n"
    using rest by (intro Base_Join) auto
  then show ?thesis using tmp rest by simp
qed

lemma download_Base:
  "download e k url a w = (Inr tmp, w') \<Longrightarrow> \<exists>rest. Base tmp = CHR ''i'' # rest"
  using os_CreateTemp_Base [of e k a]
  by (auto simp: download_def Let_def split: option.splits sum.splits if_splits prod.splits)

lemma downloadWithRetry_Base:
  "downloadWithRetry e url a w = (Inr tmp, w') \<Longrightarrow> \<exists>rest. Base tmp = CHR ''i'' # rest"
  using download_Base [of e _ url a]
  by (auto simp: downloadWithRetry_unroll split: prod.splits sum.splits if_splits)

lemma Base_versionFileOf: "Base (versionFileOf e p) = ''.version''"
  unfolding versionFileOf_def by (intro Base_Join) auto

lemma tmp_not_versionFile:
  "downloadWithRetry e url a w = (Inr tmp, w') \<Longrightarrow> tmp \<noteq> versionFileOf e p"
  using downloadWithRetry_Base [of e url a w tmp w'] Base_versionFileOf [of e p] by auto

section \<open>The claims\<close>

subsection \<open>C1: a program that is up to date is skipped\<close>


lemma tool_versionFile: "versionFileOf envOK toolProgram = ''/home/u/.local/share/tool/.version''"
  by code_simp

lemma tool_releaseURL: "releaseURL (NewClient []) (Repo toolProgram) = ''https://api.github.com/repos/o/tool/releases/latest''"
  by code_simp

lemma envOK_latest:
  "LatestVersion envOK (NewClient []) (Repo toolProgram) w =
     (Inr ''1.0.0'', emit (HttpGet ''https://api.github.com/repos/o/tool/releases/latest'')
                      (emit (NewRequest ''https://api.github.com/repos/o/tool/releases/latest'') w))"
  using LatestVersion_tag [of envOK "NewClient []" "Repo toolProgram"
      "\<lparr>api_status = 200, api_tag_name = Inr ''v1.0.0''\<rparr>" "''v1.0.0''" w]
  by (simp add: tool_releaseURL envOK_def trimPrefix_def hasPrefix_def)

lemma trim_marker: "trimSpace (''1.0.0'' @ [CHR 0xC2, CHR 0xA0, CHR 0x0A]) = ''1.0.0''"
  by code_simp

lemma installed_read:
  "trace w = tr \<Longrightarrow> fs w = fs installedWorld \<Longrightarrow>
   os_ReadFile envOK ''/home/u/.local/share/tool/.version'' w =
     (Inr (''1.0.0'' @ [CHR 0xC2, CHR 0xA0, CHR 0x0A]),
      emit (Sys (SysReadFile ''/home/u/.local/share/tool/.version'')) w)"
  by (simp add: os_ReadFile_def faulty_def envOK_def installedWorld_def resolve_plain Let_def)



subsection \<open>C2: three attempts with growing delays\<close>

text \<open>
  C2 as stated lists three delays, 1, 2 and 4. In the run with the most sleeps, the one
  where all three attempts fail, the step builds three requests and sleeps 1 and then 2
  between them; it returns the third error without a third sleep. No run sleeps 4.
\<close>

theorem retry_delays_counterexample:
  "fst (downloadWithRetry envDown ''https://github.com/o/tool/releases/download/v1.0.0/tool-1.0.0''
          ''tool-1.0.0'' emptyWorld) = Inl (OSError ''third'')
   \<and> proj {KRequest, KSleep}
        (trace (snd (downloadWithRetry envDown
           ''https://github.com/o/tool/releases/download/v1.0.0/tool-1.0.0'' ''tool-1.0.0'' emptyWorld)))
      = [NewRequest ''https://github.com/o/tool/releases/download/v1.0.0/tool-1.0.0'', Slept 1,
         NewRequest ''https://github.com/o/tool/releases/download/v1.0.0/tool-1.0.0'', Slept 2,
         NewRequest ''https://github.com/o/tool/releases/download/v1.0.0/tool-1.0.0'']
   \<and> Slept 4 \<notin> set (trace (snd (downloadWithRetry envDown
           ''https://github.com/o/tool/releases/download/v1.0.0/tool-1.0.0'' ''tool-1.0.0'' emptyWorld)))"
proof -
  let ?u = "''https://github.com/o/tool/releases/download/v1.0.0/tool-1.0.0''"
  let ?a = "''tool-1.0.0''"
  let ?w1 = "emit (HttpGet ?u) (emit (NewRequest ?u) emptyWorld)"
  let ?w2 = "emit (HttpGet ?u) (emit (NewRequest ?u) (emit (Slept 1) ?w1))"
  let ?w3 = "emit (HttpGet ?u) (emit (NewRequest ?u) (emit (Slept 2) ?w2))"
  have d0: "download envDown 0 ?u ?a emptyWorld = (Inl (OSError ''first''), ?w1)"
    by (rule download_failed_get) (simp_all add: envDown_def envOK_def)
  have d1: "download envDown 1 ?u ?a (emit (Slept 1) ?w1) = (Inl (OSError ''second''), ?w2)"
    by (rule download_failed_get) (simp_all add: envDown_def envOK_def)
  have d2: "download envDown 2 ?u ?a (emit (Slept 2) ?w2) = (Inl (OSError ''third''), ?w3)"
    by (rule download_failed_get) (simp_all add: envDown_def envOK_def)
  have nd: "\<not> ctx_done envDown 1" "\<not> ctx_done envDown 2"
    by (simp_all add: envDown_def envOK_def)
  have r: "downloadWithRetry envDown ?u ?a emptyWorld = (Inl (OSError ''third''), ?w3)"
    using d0 d1 d2 nd by (simp add: downloadWithRetry_unroll)
  show ?thesis
    unfolding r by (simp add: emptyWorld_def proj_Cons)
qed

text \<open>
  C2, amended. Whatever the environment does, the attempts and sleeps of one call of
  \<open>downloadWithRetry\<close> form one of five sequences: one attempt; one attempt and an
  abandoned sleep of 1; two attempts with a sleep of 1 between them; the same followed
  by an abandoned sleep of 2; three attempts with a sleep of 1 and then of 2 between
  them. So there are at most three attempts, no sleep comes before the first, and the
  sleep before retry \<open>k\<close> lasts \<open>2 ^ (k - 1)\<close> time units: 1 before the second attempt,
  2 before the third.
  When the first two attempts fail, neither sleep is cancelled and the third attempt
  succeeds, the step returns the third attempt's file; \<open>install\<close> then goes on with the
  extracting message. When all three attempts fail, the step returns the error of the
  third attempt; \<open>install\<close> then reports that error, wrapped as a download error.
\<close>

theorem download_retry_policy:
  "(\<exists>xs. proj {KRequest, KSleep} (trace (snd (downloadWithRetry e url a w)))
           = proj {KRequest, KSleep} (trace w) @ xs
       \<and> xs \<in> {[NewRequest url],
                [NewRequest url, SleepAborted 1],
                [NewRequest url, Slept 1, NewRequest url],
                [NewRequest url, Slept 1, NewRequest url, SleepAborted 2],
                [NewRequest url, Slept 1, NewRequest url, Slept 2, NewRequest url]})
   \<and> (download e 0 url a w = (Inl e0, w1) \<and> \<not> ctx_done e 1 \<and>
      download e 1 url a (emit (Slept 1) w1) = (Inl e1, w2) \<and> \<not> ctx_done e 2 \<and>
      download e 2 url a (emit (Slept 2) w2) = (Inr path, w3)
      \<longrightarrow> downloadWithRetry e url a w = (Inr path, w3))
   \<and> (download e 0 url a w = (Inl e0, w1) \<and> \<not> ctx_done e 1 \<and>
      download e 1 url a (emit (Slept 1) w1) = (Inl e1, w2) \<and> \<not> ctx_done e 2 \<and>
      download e 2 url a (emit (Slept 2) w2) = (Inl e2, w3)
      \<longrightarrow> downloadWithRetry e url a w = (Inl e2, w3))
   \<and> (downloadWithRetry e (downloadURLOf p v) (assetNameOf p v)
        (send (msg p StateDownloading v None)
           (if verbose then emit (Stderr (verboseLine p v)) w0 else w0)) = (Inr tmp, w4)
      \<longrightarrow> (\<exists>rest. trace (downloadAndInstall e p verbose v w0)
                    = trace w4 @ Send (msg p StateExtracting v None) # rest))
   \<and> (downloadWithRetry e (downloadURLOf p v) (assetNameOf p v)
        (send (msg p StateDownloading v None)
           (if verbose then emit (Stderr (verboseLine p v)) w0 else w0)) = (Inl err, w4)
      \<longrightarrow> downloadAndInstall e p verbose v w0
            = send (msg p StateError [] (Some (DownloadFailed err))) w4)"
proof (intro conjI impI)
  show "\<exists>xs. proj {KRequest, KSleep} (trace (snd (downloadWithRetry e url a w)))
           = proj {KRequest, KSleep} (trace w) @ xs
       \<and> xs \<in> {[NewRequest url],
                [NewRequest url, SleepAborted 1],
                [NewRequest url, Slept 1, NewRequest url],
                [NewRequest url, Slept 1, NewRequest url, SleepAborted 2],
                [NewRequest url, Slept 1, NewRequest url, Slept 2, NewRequest url]}"
    by (rule downloadWithRetry_events)
next
  assume "download e 0 url a w = (Inl e0, w1) \<and> \<not> ctx_done e 1 \<and>
      download e 1 url a (emit (Slept 1) w1) = (Inl e1, w2) \<and> \<not> ctx_done e 2 \<and>
      download e 2 url a (emit (Slept 2) w2) = (Inr path, w3)"
  then show "downloadWithRetry e url a w = (Inr path, w3)"
    by (simp add: downloadWithRetry_unroll)
next
  assume "download e 0 url a w = (Inl e0, w1) \<and> \<not> ctx_done e 1 \<and>
      download e 1 url a (emit (Slept 1) w1) = (Inl e1, w2) \<and> \<not> ctx_done e 2 \<and>
      download e 2 url a (emit (Slept 2) w2) = (Inl e2, w3)"
  then show "downloadWithRetry e url a w = (Inl e2, w3)"
    by (simp add: downloadWithRetry_unroll)
next
  assume "downloadWithRetry e (downloadURLOf p v) (assetNameOf p v)
        (send (msg p StateDownloading v None)
           (if verbose then emit (Stderr (verboseLine p v)) w0 else w0)) = (Inr tmp, w4)"
  then show "\<exists>rest. trace (downloadAndInstall e p verbose v w0)
                    = trace w4 @ Send (msg p StateExtracting v None) # rest"
    by (rule downloadAndInstall_extracting)
next
  assume "downloadWithRetry e (downloadURLOf p v) (assetNameOf p v)
        (send (msg p StateDownloading v None)
           (if verbose then emit (Stderr (verboseLine p v)) w0 else w0)) = (Inl err, w4)"
  then show "downloadAndInstall e p verbose v w0
            = send (msg p StateError [] (Some (DownloadFailed err))) w4"
    by (rule downloadAndInstall_fail)
qed

lemma tool_url: "downloadURLOf toolProgram ''1.0.0'' = ''https://github.com/o/tool/releases/download/v1.0.0/tool-1.0.0''"
  by code_simp

lemma tool_asset: "assetNameOf toolProgram ''1.0.0'' = ''tool-1.0.0''"
  by code_simp

lemma tool_tmp: "Join [''/tmp'', tempName (''installer-*-'' @ ''tool-1.0.0'') (showNat 42)] = ''/tmp/installer-42-tool-1.0.0''"
  by code_simp

theorem download_retry_policy_witness:
  "fst (downloadWithRetry envFlaky ''https://github.com/o/tool/releases/download/v1.0.0/tool-1.0.0''
      ''tool-1.0.0'' emptyWorld) = Inr ''/tmp/installer-42-tool-1.0.0''
   \<and> fst (downloadWithRetry envDown ''https://github.com/o/tool/releases/download/v1.0.0/tool-1.0.0''
      ''tool-1.0.0'' emptyWorld) = Inl (OSError ''third'')"
proof -
  let ?u = "''https://github.com/o/tool/releases/download/v1.0.0/tool-1.0.0''"
  let ?a = "''tool-1.0.0''"
  let ?w1 = "emit (HttpGet ?u) (emit (NewRequest ?u) emptyWorld)"
  let ?w2 = "emit (HttpGet ?u) (emit (NewRequest ?u) (emit (Slept 1) ?w1))"
  let ?w3 = "emit (HttpGet ?u) (emit (NewRequest ?u) (emit (Slept 2) ?w2))"
  let ?w3' = "snd (download envFlaky 2 ?u ?a (emit (Slept 2) ?w2))"
  have f0: "download envFlaky 0 ?u ?a emptyWorld = (Inl (OSError ''connection reset''), ?w1)"
    by (rule download_failed_get) (simp_all add: envFlaky_def envOK_def)
  have f1: "download envFlaky 1 ?u ?a (emit (Slept 1) ?w1) = (Inl (OSError ''connection reset''), ?w2)"
    by (rule download_failed_get) (simp_all add: envFlaky_def envOK_def)
  have f2: "download envFlaky 2 ?u ?a (emit (Slept 2) ?w2) = (Inr ''/tmp/installer-42-tool-1.0.0'', ?w3')"
    using download_stored [of envFlaky ?u 2
        "\<lparr>dl_status = 200, dl_content_length = 3, dl_body = ''ELF'', dl_copy_err = None\<rparr>"
        ?a "emit (Slept 2) ?w2"] tool_tmp
    by (simp add: envFlaky_def envOK_def emptyWorld_def)
  have d0: "download envDown 0 ?u ?a emptyWorld = (Inl (OSError ''first''), ?w1)"
    by (rule download_failed_get) (simp_all add: envDown_def envOK_def)
  have d1: "download envDown 1 ?u ?a (emit (Slept 1) ?w1) = (Inl (OSError ''second''), ?w2)"
    by (rule download_failed_get) (simp_all add: envDown_def envOK_def)
  have d2: "download envDown 2 ?u ?a (emit (Slept 2) ?w2) = (Inl (OSError ''third''), ?w3)"
    by (rule download_failed_get) (simp_all add: envDown_def envOK_def)
  have nf1: "\<not> ctx_done envFlaky 1" and nf2: "\<not> ctx_done envFlaky 2"
    by (simp_all add: envFlaky_def envOK_def)
  have nd1: "\<not> ctx_done envDown 1" and nd2: "\<not> ctx_done envDown 2"
    by (simp_all add: envDown_def envOK_def)
  have a: "downloadWithRetry envFlaky ?u ?a emptyWorld = (Inr ''/tmp/installer-42-tool-1.0.0'', ?w3')"
    by (rule download_retry_policy [THEN conjunct2, THEN conjunct1, THEN mp])
       (intro conjI, rule f0, rule nf1, rule f1, rule nf2, rule f2)
  have b: "downloadWithRetry envDown ?u ?a emptyWorld = (Inl (OSError ''third''), ?w3)"
    by (rule download_retry_policy [THEN conjunct2, THEN conjunct2, THEN conjunct1, THEN mp])
       (intro conjI, rule d0, rule nd1, rule d1, rule nd2, rule d2)
  show ?thesis by (simp add: a b)
qed


subsection \<open>C3: an empty link list\<close>

text \<open>
  C3. A program with an empty link list, installed in the cooperative environment on an
  empty file system: the messages sent are fetching version, downloading, extracting,
  linking, done, and no \<open>Lstat\<close> or \<open>Symlink\<close> call is made. The type \<open>State\<close> of
  installer.go has no awaiting-bin-selection value and no message carries a request for
  a selection: the pipeline goes from extracting to linking directly, links nothing and
  reports done.
\<close>

theorem empty_bin_no_selection:
  "Bin toolProgram = []
   \<and> sentStates (trace (install envOK (NewClient []) toolProgram False emptyWorld))
       = [StateFetchingVersion, StateDownloading, StateExtracting, StateLinking, StateDone]
   \<and> proj {KLink} (trace (install envOK (NewClient []) toolProgram False emptyWorld)) = []"
  by code_simp


subsection \<open>C4: at most three pipelines at once\<close>

lemma step_invariant:
  "step s s' \<Longrightarrow> holding s = sem s \<and> sem s \<le> workerCount \<Longrightarrow> holding s' = sem s' \<and> sem s' \<le> workerCount"
  by (induction rule: step.induct) (auto simp: holding_def)

lemma reachable_invariant: "reachable ps s \<Longrightarrow> holding s = sem s \<and> sem s \<le> workerCount"
proof (induction rule: reachable.induct)
  case (at_start programs)
  then show ?case by (simp add: initPool_def holding_def)
next
  case (after_step programs s s')
  then show ?case using step_invariant by blast
qed

lemma filter_length_mono:
  "(\<And>x. P x \<Longrightarrow> Q x) \<Longrightarrow> length (filter P xs) \<le> length (filter Q xs)"
  by (induction xs) auto

lemma active_le_holding: "active s \<le> holding s"
  unfolding active_def holding_def by (rule filter_length_mono) simp

lemma admit_needs_slot:
  "step s s' \<Longrightarrow> length (workers s) < length (workers s') \<Longrightarrow> sem s < workerCount"
  by (induction rule: step.induct) auto

lemma start_needs_token:
  assumes "step s s'" and "active s < active s'" and "holding s = sem s"
  shows "active s < sem s"
  using assms
proof (induction rule: step.induct)
  case (start s before p after)
  have "length (filter (\<lambda>x. snd x = Running) before)
          \<le> length (filter (\<lambda>x. snd x \<noteq> Released) before)"
    by (rule filter_length_mono) simp
  moreover have "length (filter (\<lambda>x. snd x = Running) after)
          \<le> length (filter (\<lambda>x. snd x \<noteq> Released) after)"
    by (rule filter_length_mono) simp
  ultimately show ?case using start by (simp add: active_def holding_def)
qed (auto simp: active_def holding_def)


text \<open>
  C4. In every state that \<^verbatim>\<open>Run\<close> can reach, for any list of programs: at most 3
  pipelines are active (between their fetching-version message and their terminal
  message), every active pipeline holds one of the tokens, and at most 3 tokens are in
  the channel. The step that starts the goroutine of a program is possible only while
  fewer than 3 tokens are in the channel, and the step that makes a pipeline active is
  taken by a goroutine that holds its token already: a program beyond the third waits in
  the loop, before its goroutine exists and so before its fetching-version message,
  until a running goroutine has taken its token out.
\<close>

theorem pool_bound:
  "reachable programs s \<longrightarrow>
     active s \<le> 3 \<and> active s \<le> sem s \<and> sem s \<le> 3 \<and>
     (\<forall>s'. step s s' \<and> length (workers s) < length (workers s') \<longrightarrow> sem s < 3) \<and>
     (\<forall>s'. step s s' \<and> active s < active s' \<longrightarrow> active s < sem s)"
  using reachable_invariant [of programs s] active_le_holding [of s] admit_needs_slot [of s]
        start_needs_token [of s]
  by (auto simp: workerCount_def)

lemma busyPool_reachable: "reachable fourPrograms busyPool"
proof -
  let ?run3 = "[(''bat'', Spawned), (''fd'', Spawned), (''fzf'', Spawned)]"
  let ?s0 = "initPool fourPrograms"
  let ?s1 = "\<lparr>queue = [''fd'', ''fzf'', ''rg''], waiting = Some ''bat'', sem = 0, wg = 1,
              workers = [], closed = False\<rparr>"
  let ?s2 = "\<lparr>queue = [''fd'', ''fzf'', ''rg''], waiting = None, sem = 1, wg = 1,
              workers = [(''bat'', Spawned)], closed = False\<rparr>"
  let ?s3 = "\<lparr>queue = [''fzf'', ''rg''], waiting = Some ''fd'', sem = 1, wg = 2,
              workers = [(''bat'', Spawned)], closed = False\<rparr>"
  let ?s4 = "\<lparr>queue = [''fzf'', ''rg''], waiting = None, sem = 2, wg = 2,
              workers = [(''bat'', Spawned), (''fd'', Spawned)], closed = False\<rparr>"
  let ?s5 = "\<lparr>queue = [''rg''], waiting = Some ''fzf'', sem = 2, wg = 3,
              workers = [(''bat'', Spawned), (''fd'', Spawned)], closed = False\<rparr>"
  let ?s6 = "\<lparr>queue = [''rg''], waiting = None, sem = 3, wg = 3, workers = ?run3, closed = False\<rparr>"
  let ?s7 = "\<lparr>queue = [], waiting = Some ''rg'', sem = 3, wg = 4, workers = ?run3, closed = False\<rparr>"
  let ?s8 = "\<lparr>queue = [], waiting = Some ''rg'', sem = 3, wg = 4,
              workers = [(''bat'', Running), (''fd'', Spawned), (''fzf'', Spawned)], closed = False\<rparr>"
  let ?s9 = "\<lparr>queue = [], waiting = Some ''rg'', sem = 3, wg = 4,
              workers = [(''bat'', Running), (''fd'', Running), (''fzf'', Spawned)], closed = False\<rparr>"
  have r0: "reachable fourPrograms ?s0" by (rule reachable.at_start)
  have "step ?s0 ?s1"
    using step.announce [of ?s0 "''bat''" "[''fd'', ''fzf'', ''rg'']"]
    by (simp add: initPool_def fourPrograms_def)
  then have r1: "reachable fourPrograms ?s1" using r0 reachable.after_step by blast
  have "step ?s1 ?s2"
    using step.admit [of ?s1 "''bat''"] by (simp add: workerCount_def)
  then have r2: "reachable fourPrograms ?s2" using r1 reachable.after_step by blast
  have "step ?s2 ?s3"
    using step.announce [of ?s2 "''fd''" "[''fzf'', ''rg'']"] by (simp add: eval_nat_numeral)
  then have r3: "reachable fourPrograms ?s3" using r2 reachable.after_step by blast
  have "step ?s3 ?s4"
    using step.admit [of ?s3 "''fd''"] by (simp add: workerCount_def eval_nat_numeral)
  then have r4: "reachable fourPrograms ?s4" using r3 reachable.after_step by blast
  have "step ?s4 ?s5"
    using step.announce [of ?s4 "''fzf''" "[''rg'']"] by (simp add: eval_nat_numeral)
  then have r5: "reachable fourPrograms ?s5" using r4 reachable.after_step by blast
  have "step ?s5 ?s6"
    using step.admit [of ?s5 "''fzf''"] by (simp add: workerCount_def eval_nat_numeral)
  then have r6: "reachable fourPrograms ?s6" using r5 reachable.after_step by blast
  have "step ?s6 ?s7"
    using step.announce [of ?s6 "''rg''" "[]"] by (simp add: eval_nat_numeral)
  then have r7: "reachable fourPrograms ?s7" using r6 reachable.after_step by blast
  have "step ?s7 ?s8"
    using step.start [of ?s7 "[]" "''bat''" "[(''fd'', Spawned), (''fzf'', Spawned)]"] by simp
  then have r8: "reachable fourPrograms ?s8" using r7 reachable.after_step by blast
  have "step ?s8 ?s9"
    using step.start [of ?s8 "[(''bat'', Running)]" "''fd''" "[(''fzf'', Spawned)]"] by simp
  then have r9: "reachable fourPrograms ?s9" using r8 reachable.after_step by blast
  have "step ?s9 busyPool"
    using step.start [of ?s9 "[(''bat'', Running), (''fd'', Running)]" "''fzf''" "[]"]
    by (simp add: busyPool_def)
  then show ?thesis using r9 reachable.after_step by blast
qed

theorem pool_bound_witness:
  "reachable fourPrograms busyPool \<and> active busyPool = 3 \<and> sem busyPool = 3
   \<and> waiting busyPool = Some ''rg''"
  using pool_bound [of fourPrograms busyPool] busyPool_reachable
  by (simp add: active_def busyPool_def)

subsection \<open>C5: the choice of the extraction strategy\<close>



lemma rg_targets:
  "targetOf ''/home/u/.local/share/rg'' ''rg-1/rg'' = ''/home/u/.local/share/rg/rg-1/rg''"
  "targetOf ''/home/u/.local/share/rg'' ''rg-1/README'' = ''/home/u/.local/share/rg/rg-1/README''"
  by code_simp+

lemma rg_archives:
  "tarFiles (fst (tar_Reader envArchive Gzip ''GZ''))
     = [(''rg-1/rg'', 493, ''ELF''), (''rg-1/README'', 420, ''docs'')]"
  "tarFiles (fst (tar_Reader envArchive Xz ''XZ''))
     = [(''rg-1/rg'', 493, ''ELF''), (''rg-1/README'', 420, ''docs'')]"
  "tarFiles (fst (tar_Reader envArchive Bzip2 ''BZ''))
     = [(''rg-1/rg'', 493, ''ELF''), (''rg-1/README'', 420, ''docs'')]"
  "zip_OpenReader envArchive ''PK'' = Inr rgZipFiles"
  "zipFiles rgZipFiles = [(''rg-1/rg'', 493, ''ELF''), (''rg-1/README'', 420, ''docs'')]"
  by (simp_all add: envArchive_def envOK_def rgHeaders_def rgZipFiles_def tarFiles_def zipFiles_def)

lemma rg_archive_names:
  "hasSuffix (Base ''/tmp/installer-42-rg.tar.gz'') ''.tar.gz''"
  "hasSuffix (Base ''/tmp/installer-42-rg.txz'') ''.txz''"
  "hasSuffix (Base ''/tmp/installer-42-rg.tar.bz2'') ''.tar.bz2''"
  "hasSuffix (Base ''/tmp/installer-42-rg.zip'') ''.zip''"
  by code_simp+

lemma rg_archive_files:
  "fs archiveWorld ''/tmp/installer-42-rg.tar.gz'' = Some (Regular ''GZ'' 384)"
  "fs archiveWorld ''/tmp/installer-42-rg.txz'' = Some (Regular ''XZ'' 384)"
  "fs archiveWorld ''/tmp/installer-42-rg.tar.bz2'' = Some (Regular ''BZ'' 384)"
  "fs archiveWorld ''/tmp/installer-42-rg.zip'' = Some (Regular ''PK'' 384)"
  by (simp_all add: archiveWorld_def)

lemma rg_extracted:
  "fst (Extract envArchive ''/tmp/installer-42-rg.tar.gz'' ''/home/u/.local/share/rg'' archiveWorld) = None"
  "fst (Extract envArchive ''/tmp/installer-42-rg.txz'' ''/home/u/.local/share/rg'' archiveWorld) = None"
  "fst (Extract envArchive ''/tmp/installer-42-rg.tar.bz2'' ''/home/u/.local/share/rg'' archiveWorld) = None"
  "fst (Extract envArchive ''/tmp/installer-42-rg.zip'' ''/home/u/.local/share/rg'' archiveWorld) = None"
  by code_simp+

lemma rg_separate:
  "separate src ''/home/u/.local/share/rg'' [(''rg-1/rg'', 493, ''ELF''), (''rg-1/README'', 420, ''docs'')]
     (fs archiveWorld)
   = (src \<noteq> ''/home/u/.local/share/rg/rg-1/rg'' \<and> src \<noteq> ''/home/u/.local/share/rg/rg-1/README'')"
  by (auto simp: separate_def targets_def rg_targets notSymlinkAt_def archiveWorld_def)

lemma rg_unpacked:
  "unpacked ''/home/u/.local/share/rg'' [(''rg-1/rg'', 493, ''ELF''), (''rg-1/README'', 420, ''docs'')]
     (fs archiveWorld) f'
   = (f' ''/home/u/.local/share/rg/rg-1/rg'' = Some (Regular ''ELF'' 493)
      \<and> f' ''/home/u/.local/share/rg/rg-1/README'' = Some (Regular ''docs'' 420))"
  by (simp add: unpacked_def rg_targets modeAfter_def archiveWorld_def)

lemma raw_base: "Base ''/tmp/installer-42-tool-1.0.0'' = ''installer-42-tool-1.0.0''"
  by code_simp

lemma raw_dst: "Join [''/home/u/.local/share/tool'', ''installer-42-tool-1.0.0'']
   = ''/home/u/.local/share/tool/installer-42-tool-1.0.0''"
  by code_simp

lemma raw_not_archive:
  "\<not> hasSuffix ''installer-42-tool-1.0.0'' ''.tar.gz'' \<and> \<not> hasSuffix ''installer-42-tool-1.0.0'' ''.tgz'' \<and>
   \<not> hasSuffix ''installer-42-tool-1.0.0'' ''.tar.xz'' \<and> \<not> hasSuffix ''installer-42-tool-1.0.0'' ''.txz'' \<and>
   \<not> hasSuffix ''installer-42-tool-1.0.0'' ''.tar.bz2'' \<and> \<not> hasSuffix ''installer-42-tool-1.0.0'' ''.zip''"
  by code_simp


subsection \<open>C6: a destination that is taken\<close>

text \<open>
  C6. Publishing a link at a destination that holds a symbolic link: when the operating
  system refuses none of the three calls on the destination, \<open>Link\<close> issues exactly
  \<open>Lstat\<close>, \<open>Remove\<close>, \<open>Symlink\<close>, returns no error, and the destination is afterwards a
  symbolic link to the new source, every other path unchanged. At a destination that
  holds anything but a symbolic link (a regular file), \<open>Link\<close> returns an error and
  the file system is unchanged, whatever the operating system answers; when \<open>Lstat\<close>
  is not refused, the error is the "already exists" one and no other call is made.
\<close>

theorem Link_collision:
  "(fs w (Join [binDir, dst]) = Some (Symlink old) \<and>
      (\<forall>t. fault e t (SysLstat (Join [binDir, dst])) = None) \<and>
      (\<forall>t. fault e t (SysRemove (Join [binDir, dst])) = None) \<and>
      (\<forall>t. fault e t (SysSymlink src (Join [binDir, dst])) = None)
    \<longrightarrow> fst (Link e src binDir dst w) = None
        \<and> fs (snd (Link e src binDir dst w)) = (fs w)(Join [binDir, dst] \<mapsto> Symlink src)
        \<and> trace (snd (Link e src binDir dst w)) =
            trace w @ [Sys (SysLstat (Join [binDir, dst])), Sys (SysRemove (Join [binDir, dst])),
                       Sys (SysSymlink src (Join [binDir, dst]))])
   \<and> (fs w (Join [binDir, dst]) = Some n \<and> \<not> isSymlink n
    \<longrightarrow> fst (Link e src binDir dst w) \<noteq> None
        \<and> fs (snd (Link e src binDir dst w)) = fs w)
   \<and> (fs w (Join [binDir, dst]) = Some n \<and> \<not> isSymlink n \<and>
      (\<forall>t. fault e t (SysLstat (Join [binDir, dst])) = None)
    \<longrightarrow> fst (Link e src binDir dst w) = Some (AlreadyExistsRegular (Join [binDir, dst]))
        \<and> trace (snd (Link e src binDir dst w)) = trace w @ [Sys (SysLstat (Join [binDir, dst]))])"
proof (intro conjI impI)
  assume h: "fs w (Join [binDir, dst]) = Some (Symlink old) \<and>
      (\<forall>t. fault e t (SysLstat (Join [binDir, dst])) = None) \<and>
      (\<forall>t. fault e t (SysRemove (Join [binDir, dst])) = None) \<and>
      (\<forall>t. fault e t (SysSymlink src (Join [binDir, dst])) = None)"
  then show "fst (Link e src binDir dst w) = None"
    by (simp add: Link_def os_Lstat_def os_Symlink_def os_Remove_def emit_def faulty_def
        isSymlink_def Let_def)
  from h show "fs (snd (Link e src binDir dst w)) = (fs w)(Join [binDir, dst] \<mapsto> Symlink src)"
    by (simp add: Link_def os_Lstat_def os_Symlink_def os_Remove_def emit_def faulty_def
        isSymlink_def Let_def)
  from h show "trace (snd (Link e src binDir dst w)) =
      trace w @ [Sys (SysLstat (Join [binDir, dst])), Sys (SysRemove (Join [binDir, dst])),
                 Sys (SysSymlink src (Join [binDir, dst]))]"
    by (simp add: Link_def os_Lstat_def os_Symlink_def os_Remove_def emit_def faulty_def
        isSymlink_def Let_def)
next
  assume h: "fs w (Join [binDir, dst]) = Some n \<and> \<not> isSymlink n"
  then show "fst (Link e src binDir dst w) \<noteq> None"
    by (auto simp: Link_def os_Lstat_def os_Symlink_def emit_def Let_def
        split: option.splits)
  from h show "fs (snd (Link e src binDir dst w)) = fs w"
    by (auto simp: Link_def os_Lstat_def os_Symlink_def emit_def Let_def
        split: option.splits)
next
  assume h: "fs w (Join [binDir, dst]) = Some n \<and> \<not> isSymlink n \<and>
      (\<forall>t. fault e t (SysLstat (Join [binDir, dst])) = None)"
  then show "fst (Link e src binDir dst w) = Some (AlreadyExistsRegular (Join [binDir, dst]))"
    by (simp add: Link_def os_Lstat_def emit_def faulty_def Let_def)
  from h show "trace (snd (Link e src binDir dst w)) = trace w @ [Sys (SysLstat (Join [binDir, dst]))]"
    by (simp add: Link_def os_Lstat_def emit_def faulty_def Let_def)
qed

lemma bin_rg_path: "Join [''/home/u/.local/bin'', ''rg''] = ''/home/u/.local/bin/rg''"
  by code_simp

theorem Link_collision_witness:
  "fst (Link envOK ''/home/u/.local/share/rg/rg'' ''/home/u/.local/bin'' ''rg'' linkWorld) = None
   \<and> fs (snd (Link envOK ''/home/u/.local/share/rg/rg'' ''/home/u/.local/bin'' ''rg'' linkWorld))
        ''/home/u/.local/bin/rg'' = Some (Symlink ''/home/u/.local/share/rg/rg'')
   \<and> fst (Link envOK ''/home/u/.local/share/rg/rg'' ''/home/u/.local/bin'' ''rg'' fileWorld)
        = Some (AlreadyExistsRegular ''/home/u/.local/bin/rg'')
   \<and> fs (snd (Link envOK ''/home/u/.local/share/rg/rg'' ''/home/u/.local/bin'' ''rg'' fileWorld))
        ''/home/u/.local/bin/rg'' = Some (Regular ''precious'' 420)"
  using Link_collision [of linkWorld "''/home/u/.local/bin''" "''rg''" "''/opt/old/rg''" envOK
          "''/home/u/.local/share/rg/rg''" "Regular ''precious'' 420"]
        Link_collision [of fileWorld "''/home/u/.local/bin''" "''rg''" "''/opt/old/rg''" envOK
          "''/home/u/.local/share/rg/rg''" "Regular ''precious'' 420"]
  by (simp add: bin_rg_path linkWorld_def fileWorld_def envOK_def isSymlink_def)


subsection \<open>C7: cancellation during a retry sleep\<close>

text \<open>
  C7. Cancellation during a retry sleep. When the first attempt has failed and the
  context is done during the sleep that follows, \<open>downloadWithRetry\<close> returns the
  context's error at once: the world it returns is the world after the failed attempt
  plus the abandoned sleep, so no further attempt is made. The same holds after two
  failed attempts, for the second sleep. \<open>install\<close> then sends one error message, the
  context's error wrapped as a download error, and ends.
\<close>

theorem retry_sleep_cancelled:
  "(download e 0 url a w = (Inl e0, w1) \<and> ctx_done e 1
      \<longrightarrow> downloadWithRetry e url a w = (Inl (ctx_err e), emit (SleepAborted 1) w1))
   \<and> (download e 0 url a w = (Inl e0, w1) \<and> \<not> ctx_done e 1 \<and>
      download e 1 url a (emit (Slept 1) w1) = (Inl e1, w2) \<and> ctx_done e 2
      \<longrightarrow> downloadWithRetry e url a w = (Inl (ctx_err e), emit (SleepAborted 2) w2))
   \<and> (downloadWithRetry e (downloadURLOf p v) (assetNameOf p v)
        (send (msg p StateDownloading v None)
           (if verbose then emit (Stderr (verboseLine p v)) w0 else w0))
         = (Inl (ctx_err e), emit (SleepAborted d) w4)
      \<longrightarrow> trace (downloadAndInstall e p verbose v w0)
            = trace w4 @ [SleepAborted d, Send (msg p StateError [] (Some (DownloadFailed (ctx_err e))))])"
proof (intro conjI impI)
  assume "download e 0 url a w = (Inl e0, w1) \<and> ctx_done e 1"
  then show "downloadWithRetry e url a w = (Inl (ctx_err e), emit (SleepAborted 1) w1)"
    by (simp add: downloadWithRetry_unroll)
next
  assume "download e 0 url a w = (Inl e0, w1) \<and> \<not> ctx_done e 1 \<and>
      download e 1 url a (emit (Slept 1) w1) = (Inl e1, w2) \<and> ctx_done e 2"
  then show "downloadWithRetry e url a w = (Inl (ctx_err e), emit (SleepAborted 2) w2)"
    by (simp add: downloadWithRetry_unroll)
next
  assume "downloadWithRetry e (downloadURLOf p v) (assetNameOf p v)
        (send (msg p StateDownloading v None)
           (if verbose then emit (Stderr (verboseLine p v)) w0 else w0))
         = (Inl (ctx_err e), emit (SleepAborted d) w4)"
  then show "trace (downloadAndInstall e p verbose v w0)
            = trace w4 @ [SleepAborted d, Send (msg p StateError [] (Some (DownloadFailed (ctx_err e))))]"
    by (simp add: downloadAndInstall_fail)
qed

theorem retry_sleep_cancelled_witness:
  "downloadWithRetry envCancel ''https://github.com/o/tool/releases/download/v1.0.0/tool-1.0.0''
      ''tool-1.0.0'' emptyWorld
    = (Inl Canceled,
       \<lparr>fs = Map.empty,
        trace = [NewRequest ''https://github.com/o/tool/releases/download/v1.0.0/tool-1.0.0'',
                 HttpGet ''https://github.com/o/tool/releases/download/v1.0.0/tool-1.0.0'',
                 SleepAborted 1]\<rparr>)"
  using retry_sleep_cancelled [of envCancel
      "''https://github.com/o/tool/releases/download/v1.0.0/tool-1.0.0''" "''tool-1.0.0''"
      emptyWorld "OSError ''first''"
      "emit (HttpGet ''https://github.com/o/tool/releases/download/v1.0.0/tool-1.0.0'')
        (emit (NewRequest ''https://github.com/o/tool/releases/download/v1.0.0/tool-1.0.0'') emptyWorld)"]
    download_failed_get [of envCancel
      "''https://github.com/o/tool/releases/download/v1.0.0/tool-1.0.0''" 0 "OSError ''first''"
      "''tool-1.0.0''" emptyWorld]
  by (simp add: envCancel_def envDown_def envOK_def emptyWorld_def emit_def)


subsection \<open>C8: a version file that is missing or stale\<close>

text \<open>
  C8. The version file cannot be used: reading it fails (it is missing, or for any other
  reason), or its contents, with the Unicode white space at both ends removed
  (\<^verbatim>\<open>strings.TrimSpace\<close>), differ from the resolved version \<open>v\<close>; the version itself
  is compared as it is, so a version that ends in white space matches no file. Then \<open>install\<close>
  continues with the download, from the world right after the read, and what it does
  from there is the same function of that world whatever the read returned: the read's
  error or contents are used nowhere else, so a run with a stale or unreadable version
  file goes on exactly like a run that finds none. The message that follows the read is
  the downloading message (after the line on standard error when \<open>verbose\<close> is set),
  then the first download request; no error message is sent for the failed read.
\<close>

theorem install_marker_unusable:
  "LatestVersion e client (Repo p) (send (msg p StateFetchingVersion [] None) w) = (Inr v, wa) \<and>
   os_ReadFile e (versionFileOf e p) wa = (rd, wb) \<and>
   ((\<exists>err. rd = Inl err) \<or> (\<exists>current. rd = Inr current \<and> trimSpace current \<noteq> v))
   \<longrightarrow> install e client p verbose w
         = downloadAndInstall e p verbose v (emit (Sys (SysReadFile (versionFileOf e p))) wa)
     \<and> (\<exists>rest. trace (install e client p verbose w) =
           trace w @ [Send (msg p StateFetchingVersion [] None),
                      NewRequest (releaseURL client (Repo p)), HttpGet (releaseURL client (Repo p)),
                      Sys (SysReadFile (versionFileOf e p))]
             @ (if verbose then [Stderr (verboseLine p v)] else [])
             @ Send (msg p StateDownloading v None) # NewRequest (downloadURLOf p v) # rest)"
proof (intro impI)
  assume h: "LatestVersion e client (Repo p) (send (msg p StateFetchingVersion [] None) w) = (Inr v, wa) \<and>
   os_ReadFile e (versionFileOf e p) wa = (rd, wb) \<and>
   ((\<exists>err. rd = Inl err) \<or> (\<exists>current. rd = Inr current \<and> trimSpace current \<noteq> v))"
  then have lv: "LatestVersion e client (Repo p) (send (msg p StateFetchingVersion [] None) w) = (Inr v, wa)"
    and rd: "os_ReadFile e (versionFileOf e p) wa = (rd, wb)"
    and up: "\<not> upToDate rd v"
    by (auto simp: upToDate_def)
  have wa: "wa = emit (HttpGet (releaseURL client (Repo p)))
                  (emit (NewRequest (releaseURL client (Repo p)))
                     (send (msg p StateFetchingVersion [] None) w))"
    using LatestVersion_ok [OF lv] .
  have wb: "wb = emit (Sys (SysReadFile (versionFileOf e p))) wa"
    using os_ReadFile_world [of e "versionFileOf e p" wa] rd by simp
  have i: "install e client p verbose w = downloadAndInstall e p verbose v wb"
    using install_go [OF lv rd up] .
  obtain rest where r: "trace (downloadAndInstall e p verbose v wb)
      = trace wb @ (if verbose then [Stderr (verboseLine p v)] else [])
          @ Send (msg p StateDownloading v None) # NewRequest (downloadURLOf p v) # rest"
    using downloadAndInstall_first by blast
  have t: "trace (install e client p verbose w) =
           trace w @ [Send (msg p StateFetchingVersion [] None),
                      NewRequest (releaseURL client (Repo p)), HttpGet (releaseURL client (Repo p)),
                      Sys (SysReadFile (versionFileOf e p))]
             @ (if verbose then [Stderr (verboseLine p v)] else [])
             @ Send (msg p StateDownloading v None) # NewRequest (downloadURLOf p v) # rest"
    by (simp add: i r) (simp add: wb wa)
  show "install e client p verbose w
         = downloadAndInstall e p verbose v (emit (Sys (SysReadFile (versionFileOf e p))) wa)
     \<and> (\<exists>rest. trace (install e client p verbose w) =
           trace w @ [Send (msg p StateFetchingVersion [] None),
                      NewRequest (releaseURL client (Repo p)), HttpGet (releaseURL client (Repo p)),
                      Sys (SysReadFile (versionFileOf e p))]
             @ (if verbose then [Stderr (verboseLine p v)] else [])
             @ Send (msg p StateDownloading v None) # NewRequest (downloadURLOf p v) # rest)"
    using i wb t by blast
qed

lemma empty_read:
  "fs w = Map.empty \<Longrightarrow>
   os_ReadFile envOK ''/home/u/.local/share/tool/.version'' w =
     (Inl ENOENT, emit (Sys (SysReadFile ''/home/u/.local/share/tool/.version'')) w)"
  by (simp add: os_ReadFile_def faulty_def envOK_def resolve_plain Let_def)

lemma stale_read:
  "fs w = fs staleWorld \<Longrightarrow>
   os_ReadFile envOK ''/home/u/.local/share/tool/.version'' w =
     (Inr ''0.9.0'', emit (Sys (SysReadFile ''/home/u/.local/share/tool/.version'')) w)"
  by (simp add: os_ReadFile_def faulty_def envOK_def staleWorld_def resolve_plain Let_def)

lemma trim_stale: "trimSpace ''0.9.0'' = ''0.9.0''"
  by code_simp

lemma spaced_versionFile:
  "versionFileOf envSpaced toolProgram = ''/home/u/.local/share/tool/.version''"
  by code_simp

lemma spaced_latest:
  "LatestVersion envSpaced (NewClient []) (Repo toolProgram) w =
     (Inr (''1.0.0'' @ [CHR 0xC2, CHR 0xA0]),
      emit (HttpGet ''https://api.github.com/repos/o/tool/releases/latest'')
        (emit (NewRequest ''https://api.github.com/repos/o/tool/releases/latest'') w))"
  using LatestVersion_tag [of envSpaced "NewClient []" "Repo toolProgram"
      "\<lparr>api_status = 200, api_tag_name = Inr (''v1.0.0'' @ [CHR 0xC2, CHR 0xA0])\<rparr>"
      "''v1.0.0'' @ [CHR 0xC2, CHR 0xA0]" w]
  by (simp add: tool_releaseURL envSpaced_def envOK_def trimPrefix_def hasPrefix_def)

lemma spaced_read:
  "fs w = fs spacedWorld \<Longrightarrow>
   os_ReadFile envSpaced ''/home/u/.local/share/tool/.version'' w =
     (Inr (''1.0.0'' @ [CHR 0xC2, CHR 0xA0]),
      emit (Sys (SysReadFile ''/home/u/.local/share/tool/.version'')) w)"
  by (simp add: os_ReadFile_def faulty_def envSpaced_def envOK_def spacedWorld_def resolve_plain Let_def)

lemma trim_spaced: "trimSpace (''1.0.0'' @ [CHR 0xC2, CHR 0xA0]) = ''1.0.0''"
  by code_simp

theorem install_marker_unusable_witness:
  "install envOK (NewClient []) toolProgram False emptyWorld
     = downloadAndInstall envOK toolProgram False ''1.0.0''
         (emit (Sys (SysReadFile ''/home/u/.local/share/tool/.version''))
           (emit (HttpGet ''https://api.github.com/repos/o/tool/releases/latest'')
             (emit (NewRequest ''https://api.github.com/repos/o/tool/releases/latest'')
               (send (msg toolProgram StateFetchingVersion [] None) emptyWorld))))
   \<and> install envOK (NewClient []) toolProgram False staleWorld
     = downloadAndInstall envOK toolProgram False ''1.0.0''
         (emit (Sys (SysReadFile ''/home/u/.local/share/tool/.version''))
           (emit (HttpGet ''https://api.github.com/repos/o/tool/releases/latest'')
             (emit (NewRequest ''https://api.github.com/repos/o/tool/releases/latest'')
               (send (msg toolProgram StateFetchingVersion [] None) staleWorld))))
   \<and> install envSpaced (NewClient []) toolProgram False spacedWorld
     = downloadAndInstall envSpaced toolProgram False (''1.0.0'' @ [CHR 0xC2, CHR 0xA0])
         (emit (Sys (SysReadFile ''/home/u/.local/share/tool/.version''))
           (emit (HttpGet ''https://api.github.com/repos/o/tool/releases/latest'')
             (emit (NewRequest ''https://api.github.com/repos/o/tool/releases/latest'')
               (send (msg toolProgram StateFetchingVersion [] None) spacedWorld))))"
proof -
  let ?api = "''https://api.github.com/repos/o/tool/releases/latest''"
  let ?vf = "''/home/u/.local/share/tool/.version''"
  have missing: "install envOK (NewClient []) toolProgram False emptyWorld
     = downloadAndInstall envOK toolProgram False ''1.0.0''
         (emit (Sys (SysReadFile (versionFileOf envOK toolProgram)))
           (emit (HttpGet ?api) (emit (NewRequest ?api)
               (send (msg toolProgram StateFetchingVersion [] None) emptyWorld))))"
    by (rule install_marker_unusable [where rd = "Inl ENOENT"
          and wb = "emit (Sys (SysReadFile ?vf)) (emit (HttpGet ?api) (emit (NewRequest ?api)
               (send (msg toolProgram StateFetchingVersion [] None) emptyWorld)))",
          THEN mp, THEN conjunct1])
       (simp add: envOK_latest tool_versionFile empty_read emptyWorld_def)
  have stale: "install envOK (NewClient []) toolProgram False staleWorld
     = downloadAndInstall envOK toolProgram False ''1.0.0''
         (emit (Sys (SysReadFile (versionFileOf envOK toolProgram)))
           (emit (HttpGet ?api) (emit (NewRequest ?api)
               (send (msg toolProgram StateFetchingVersion [] None) staleWorld))))"
    by (rule install_marker_unusable [where rd = "Inr ''0.9.0''"
          and wb = "emit (Sys (SysReadFile ?vf)) (emit (HttpGet ?api) (emit (NewRequest ?api)
               (send (msg toolProgram StateFetchingVersion [] None) staleWorld)))",
          THEN mp, THEN conjunct1])
       (simp add: envOK_latest tool_versionFile stale_read trim_stale)
  have spaced: "install envSpaced (NewClient []) toolProgram False spacedWorld
     = downloadAndInstall envSpaced toolProgram False (''1.0.0'' @ [CHR 0xC2, CHR 0xA0])
         (emit (Sys (SysReadFile (versionFileOf envSpaced toolProgram)))
           (emit (HttpGet ?api) (emit (NewRequest ?api)
               (send (msg toolProgram StateFetchingVersion [] None) spacedWorld))))"
    by (rule install_marker_unusable [where rd = "Inr (''1.0.0'' @ [CHR 0xC2, CHR 0xA0])"
          and wb = "emit (Sys (SysReadFile ?vf)) (emit (HttpGet ?api) (emit (NewRequest ?api)
               (send (msg toolProgram StateFetchingVersion [] None) spacedWorld)))",
          THEN mp, THEN conjunct1])
       (simp add: spaced_latest spaced_versionFile spaced_read trim_spaced [simplified])
  show ?thesis
    using missing stale spaced by (simp only: tool_versionFile spaced_versionFile)
qed


subsection \<open>C9: the version file after a failed link\<close>



lemma run_stage_a:
  "LatestVersion envOK (NewClient []) (Repo linkProgram)
     (send (msg linkProgram StateFetchingVersion [] None) fileWorld) = (Inr ''1.0.0'', run_a)"
  by (rule pair_of_parts, code_simp, simp add: run_a_def)

lemma run_stage_b:
  "os_ReadFile envOK (versionFileOf envOK linkProgram) run_a = (Inl ENOENT, run_b)"
  by (rule pair_of_parts, code_simp, simp add: run_b_def)

lemma run_stage_c:
  "downloadWithRetry envOK (downloadURLOf linkProgram ''1.0.0'') (assetNameOf linkProgram ''1.0.0'')
     (send (msg linkProgram StateDownloading ''1.0.0'' None)
        (if False then emit (Stderr (verboseLine linkProgram ''1.0.0'')) run_b else run_b))
     = (Inr ''/tmp/installer-42-tool-1.0.0'', run_c)"
  by (rule pair_of_parts, code_simp, simp add: run_c_def)

lemma run_stage_d:
  "os_MkdirAll envOK (installDirOf envOK linkProgram) 493
     (send (msg linkProgram StateExtracting ''1.0.0'' None) run_c) = (None, run_d)"
  by (rule pair_of_parts, code_simp, simp add: run_d_def)

lemma run_stage_e:
  "Extract envOK ''/tmp/installer-42-tool-1.0.0'' (installDirOf envOK linkProgram) run_d = (None, run_e)"
  by (rule pair_of_parts, code_simp, simp add: run_e_def)

lemma run_stage_m:
  "os_WriteFile envOK (versionFileOf envOK linkProgram) ''1.0.0'' 420 run_e = (None, run_m)"
  by (rule pair_of_parts, code_simp, simp add: run_m_def)

lemma run_stage_l:
  "linkAll envOK linkProgram ''1.0.0'' (Bin linkProgram)
     (send (msg linkProgram StateLinking ''1.0.0'' None) run_m) = (False, run_l)"
  by (rule pair_of_parts, code_simp, simp add: run_l_def)

lemma trim_version: "trimSpace ''1.0.0'' = ''1.0.0''"
  by code_simp

lemma run_marker_free: "fs run_e (versionFileOf envOK linkProgram) = None"
  by code_simp

lemma run_second_latest:
  "LatestVersion envOK (NewClient []) (Repo linkProgram) w
    = (Inr ''1.0.0'', emit (HttpGet (releaseURL (NewClient []) (Repo linkProgram)))
                       (emit (NewRequest (releaseURL (NewClient []) (Repo linkProgram))) w))"
  using LatestVersion_tag [of envOK "NewClient []" "Repo linkProgram"
      "\<lparr>api_status = 200, api_tag_name = Inr ''v1.0.0''\<rparr>" "''v1.0.0''" w]
  by (simp add: envOK_def trimPrefix_def hasPrefix_def)



subsection \<open>C10: the download URL\<close>


lemma rg_fields: "Repo rgProgram = ''BurntSushi/ripgrep''"
  "AssetPattern rgProgram = ''ripgrep-{version}-x86_64-unknown-linux-musl.tar.gz''"
  by (simp_all add: rgProgram_def)

lemma rg_asset: "replaceAll ''ripgrep-{version}-x86_64-unknown-linux-musl.tar.gz'' ''{version}'' ''15.1.0''
    = ''ripgrep-15.1.0-x86_64-unknown-linux-musl.tar.gz''"
  by code_simp

lemma rg_api: "releaseURL (NewClient []) ''BurntSushi/ripgrep''
    = ''https://api.github.com/repos/BurntSushi/ripgrep/releases/latest''"
  by code_simp

lemma rg_latest:
  "LatestVersion envBare (NewClient []) (Repo rgProgram) w
    = (Inr ''15.1.0'', emit (HttpGet (releaseURL (NewClient []) (Repo rgProgram)))
                        (emit (NewRequest (releaseURL (NewClient []) (Repo rgProgram))) w))"
  using LatestVersion_tag [of envBare "NewClient []" "Repo rgProgram"
      "\<lparr>api_status = 200, api_tag_name = Inr ''15.1.0''\<rparr>" "''15.1.0''" w]
  by (simp add: envBare_def envOK_def trimPrefix_def hasPrefix_def)

lemma rg_read:
  "fs w = Map.empty \<Longrightarrow> os_ReadFile envBare (versionFileOf envBare rgProgram) w
     = (Inl ENOENT, emit (Sys (SysReadFile (versionFileOf envBare rgProgram))) w)"
  by (rule os_ReadFile_missing) (simp_all add: envBare_def envOK_def)



end
